(* ===== verification/Prelude.thy ===== *)
theory Prelude
  imports Main
begin

text \<open>
  Shared vocabulary of the CodeVectorSync development: the names of the model's
  basic types, the theorem collections the component theories fill, and generic
  facts about lists, association lists and maps that several components use.
  Nothing here models a line of \<^verbatim>\<open>src/\<close>; the components do.
\<close>

section \<open>Theorem collections\<close>

named_theorems pylib_simps
  "evaluation rules of the Python library model (str.split, os.path, slicing)"
named_theorems store_simps
  "characteristic equations of the vector-store client operations"
named_theorems ledger_simps
  "characteristic equations of the processed-files dictionary"

section \<open>Types of the model\<close>

text \<open>
  A path and every text the program handles are Python \<^verbatim>\<open>str\<close> values, modelled
  as \<^typ>\<open>string\<close>, a list of 8-bit characters (exact for ASCII and for files
  decoded as latin-1). An embedding vector, a \<^verbatim>\<open>List[float]\<close> in the source, is a
  list of numbers whose values the engine never inspects; it is modelled as
  \<^typ>\<open>int list\<close>. Modification times are compared only for equality and
  are modelled as \<^typ>\<open>int\<close>.
\<close>

type_synonym path = string
type_synonym vector = "int list"
type_synonym timestamp = int

section \<open>Association lists\<close>

text \<open>
  A Python dictionary keeps its keys in insertion order and maps each key once;
  it is modelled as a list of pairs with distinct keys, read through
  \<^const>\<open>map_of\<close>.
\<close>

lemma map_of_filter_neq [simp]:
  "map_of (filter (\<lambda>(k', _). k' \<noteq> k) xs) = (map_of xs)(k := None)"
  by (induction xs) (auto simp: fun_eq_iff)

lemma distinct_map_fst_filter [intro]:
  "distinct (map fst xs) \<Longrightarrow> distinct (map fst (filter P xs))"
  by (induction xs) auto

lemma dropWhile_Cons_not:
  "dropWhile P xs = c # cs \<Longrightarrow> \<not> P c"
  by (metis hd_dropWhile list.distinct(1) list.sel(1))

lemma map_of_update_other:
  "x \<noteq> k \<Longrightarrow> map_of (map (\<lambda>(k', v'). if k' = k then (k', v) else (k', v')) d) x = map_of d x"
  by (induction d) auto

lemma map_of_update_key:
  "k \<in> set (map fst d) \<Longrightarrow>
   map_of (map (\<lambda>(k', v'). if k' = k then (k', v) else (k', v')) d) k = Some v"
  by (induction d) auto

lemma fst_update_value [simp]:
  "fst \<circ> (\<lambda>(k', v'). if k' = k then (k', v) else (k', v')) = fst"
  by (auto simp: fun_eq_iff)

lemma map_of_snoc_new:
  "k \<notin> set (map fst d) \<Longrightarrow> map_of (d @ [(k, v)]) = (map_of d)(k \<mapsto> v)"
  by (induction d) (auto simp: fun_eq_iff)

lemma map_of_map_value:
  "map_of (map (\<lambda>(k, v). (k, f k v)) xs) k = map_option (f k) (map_of xs k)"
  by (induction xs) auto

end
