(* ===== verification/PyLib.thy ===== *)
theory PyLib
  imports Prelude
begin

text \<open>
  The parts of the Python standard library that \<^verbatim>\<open>src/ingest.py\<close> calls and whose
  behaviour its results depend on: \<^verbatim>\<open>str.split()\<close>, \<^verbatim>\<open>" ".join\<close>,
  \<^verbatim>\<open>str.lower\<close>, \<^verbatim>\<open>str.startswith\<close>/\<^verbatim>\<open>endswith\<close>, list slicing with
  \<^verbatim>\<open>int\<close> bounds, \<^verbatim>\<open>f"{i}"\<close> on naturals, and the POSIX \<^verbatim>\<open>os.path\<close>
  functions \<^verbatim>\<open>splitext\<close>, \<^verbatim>\<open>normpath\<close>, \<^verbatim>\<open>abspath\<close>, \<^verbatim>\<open>relpath\<close> and
  \<^verbatim>\<open>join\<close> (with \<^verbatim>\<open>os.sep = '/'\<close>). They follow CPython's \<^verbatim>\<open>posixpath.py\<close>
  and \<^verbatim>\<open>unicodeobject.c\<close> on the latin-1 range of characters. This is library
  code the repository only calls; it is not part of the map.
\<close>

section \<open>Characters\<close>

text \<open>
  \<^verbatim>\<open>str.split()\<close> with no argument splits on runs of the characters for which
  \<^verbatim>\<open>Py_UNICODE_ISSPACE\<close> holds: in the latin-1 range these are 9--13, 28--32,
  133 (NEL) and 160 (NBSP).
\<close>

definition py_isspace :: "char \<Rightarrow> bool" where
  "py_isspace c \<longleftrightarrow>
     (let n = (of_char c :: nat) in
        (9 \<le> n \<and> n \<le> 13) \<or> (28 \<le> n \<and> n \<le> 32) \<or> n = 133 \<or> n = 160)"

definition py_lower_char :: "char \<Rightarrow> char" where
  "py_lower_char c =
     (let n = (of_char c :: nat) in
        if (65 \<le> n \<and> n \<le> 90) \<or> (192 \<le> n \<and> n \<le> 222 \<and> n \<noteq> 215)
        then char_of (n + 32) else c)"

definition py_lower :: "string \<Rightarrow> string" where
  "py_lower s = map py_lower_char s"

section \<open>str.split() and str.join\<close>

function py_split :: "string \<Rightarrow> string list" where
  "py_split s =
     (let s' = dropWhile py_isspace s in
        if s' = [] then []
        else takeWhile (Not \<circ> py_isspace) s' # py_split (dropWhile (Not \<circ> py_isspace) s'))"
  by pat_completeness auto
termination
proof (relation "measure length")
  fix s s' :: string
  assume s': "s' = dropWhile py_isspace s" and ne: "s' \<noteq> []"
  from ne obtain c cs where cs: "s' = c # cs"
    by (cases s') auto
  with s' have c: "\<not> py_isspace c"
    by (metis dropWhile_Cons_not)
  have "length (dropWhile (Not \<circ> py_isspace) s') \<le> length cs"
    using c cs by (simp add: length_dropWhile_le)
  moreover have "length s' \<le> length s"
    using s' by (simp add: length_dropWhile_le)
  ultimately show "(dropWhile (Not \<circ> py_isspace) s', s) \<in> measure length"
    using cs by simp
qed simp

declare py_split.simps [simp del]

fun py_join :: "string \<Rightarrow> string list \<Rightarrow> string" where
  "py_join sep [] = []"
| "py_join sep [w] = w"
| "py_join sep (w # ws) = w @ sep @ py_join sep ws"

text \<open>A word in the sense of \<^verbatim>\<open>str.split()\<close>: non-empty and free of whitespace.\<close>

definition py_word :: "string \<Rightarrow> bool" where
  "py_word w \<longleftrightarrow> w \<noteq> [] \<and> (\<forall>c \<in> set w. \<not> py_isspace c)"

section \<open>Slicing with Python integer bounds\<close>

text \<open>
  \<^verbatim>\<open>xs[i:j]\<close>: a negative bound counts from the end, every bound is clamped to
  \<^verbatim>\<open>[0, len(xs)]\<close>, and an empty range gives the empty list.
\<close>

definition py_slice_index :: "int \<Rightarrow> nat \<Rightarrow> nat" where
  "py_slice_index i n = (if i < 0 then nat (max 0 (int n + i)) else nat (min i (int n)))"

definition py_slice :: "'a list \<Rightarrow> int \<Rightarrow> int \<Rightarrow> 'a list" where
  "py_slice xs i j =
     (let a = py_slice_index i (length xs); b = py_slice_index j (length xs)
      in take (b - a) (drop a xs))"

section \<open>Strings: startswith, endswith, decimal rendering\<close>

definition py_startswith :: "string \<Rightarrow> string \<Rightarrow> bool" where
  "py_startswith s p \<longleftrightarrow> take (length p) s = p"

definition py_endswith :: "string \<Rightarrow> string \<Rightarrow> bool" where
  "py_endswith s p \<longleftrightarrow> length p \<le> length s \<and> drop (length s - length p) s = p"

fun nat_str :: "nat \<Rightarrow> string" where
  "nat_str n =
     (if n < 10 then [char_of (48 + n)]
      else nat_str (n div 10) @ [char_of (48 + n mod 10)])"

declare nat_str.simps [simp del]

text \<open>\<^verbatim>\<open>int(s)\<close> on a string of decimal digits.\<close>

definition py_int_of_str :: "string \<Rightarrow> nat" where
  "py_int_of_str s = foldl (\<lambda>acc d. 10 * acc + (of_char d - 48)) 0 s"

section \<open>os.path on POSIX\<close>

text \<open>\<^verbatim>\<open>s.split('/')\<close>: every separator splits, empty fields are kept.\<close>

fun split_on :: "char \<Rightarrow> string \<Rightarrow> string list" where
  "split_on c [] = [[]]"
| "split_on c (x # xs) =
     (if x = c then [] # split_on c xs
      else (let r = split_on c xs in (x # hd r) # tl r))"

definition py_basename :: "path \<Rightarrow> string" where
  "py_basename p = rev (takeWhile (\<lambda>c. c \<noteq> CHR ''/'') (rev p))"

text \<open>
  The extension of \<^verbatim>\<open>os.path.splitext\<close>: the part of the last component from
  its last dot, where leading dots of the component do not count.
\<close>

definition py_splitext_ext :: "path \<Rightarrow> string" where
  "py_splitext_ext p =
     (let name = dropWhile (\<lambda>c. c = CHR ''.'') (py_basename p) in
        if CHR ''.'' \<in> set name
        then CHR ''.'' # rev (takeWhile (\<lambda>c. c \<noteq> CHR ''.'') (rev name))
        else [])"

text \<open>The component loop of \<^verbatim>\<open>posixpath.normpath\<close>.\<close>

fun norm_comps :: "bool \<Rightarrow> string list \<Rightarrow> string list \<Rightarrow> string list" where
  "norm_comps absolute acc [] = acc"
| "norm_comps absolute acc (c # cs) =
     (if c = [] \<or> c = ''.'' then norm_comps absolute acc cs
      else if c \<noteq> ''..'' \<or> (\<not> absolute \<and> acc = []) \<or> (acc \<noteq> [] \<and> last acc = ''..'')
      then norm_comps absolute (acc @ [c]) cs
      else if acc \<noteq> [] then norm_comps absolute (butlast acc) cs
      else norm_comps absolute acc cs)"

definition py_normpath :: "path \<Rightarrow> path" where
  "py_normpath p =
     (if p = [] then ''.'' else
      (let slashes = (if take 1 p = ''/''
                      then (if take 2 p = ''//'' \<and> take 3 p \<noteq> ''///'' then 2 else 1)
                      else (0::nat));
           comps = norm_comps (slashes \<noteq> 0) [] (split_on (CHR ''/'') p);
           r = replicate slashes (CHR ''/'') @ py_join ''/'' comps
       in if r = [] then ''.'' else r))"

definition py_path_join :: "path \<Rightarrow> path \<Rightarrow> path" where
  "py_path_join a b =
     (if py_startswith b ''/'' then b
      else if a = [] \<or> py_endswith a ''/'' then a @ b
      else a @ ''/'' @ b)"

definition py_abspath :: "path \<Rightarrow> path \<Rightarrow> path" where
  "py_abspath cwd p =
     (if py_startswith p ''/'' then py_normpath p else py_normpath (py_path_join cwd p))"

fun common_prefix_len :: "'a list \<Rightarrow> 'a list \<Rightarrow> nat" where
  "common_prefix_len (x # xs) (y # ys) = (if x = y then Suc (common_prefix_len xs ys) else 0)"
| "common_prefix_len _ _ = 0"

text \<open>\<^verbatim>\<open>os.path.relpath(path, start)\<close>; \<open>None\<close> is the \<^verbatim>\<open>ValueError\<close> on an empty path.\<close>

definition py_relpath :: "path \<Rightarrow> path \<Rightarrow> path \<Rightarrow> path option" where
  "py_relpath cwd p start =
     (if p = [] then None else
      (let start_list = filter (\<lambda>x. x \<noteq> []) (split_on (CHR ''/'') (py_abspath cwd start));
           path_list = filter (\<lambda>x. x \<noteq> []) (split_on (CHR ''/'') (py_abspath cwd p));
           i = common_prefix_len start_list path_list;
           rel_list = replicate (length start_list - i) ''..'' @ drop i path_list
       in if rel_list = [] then Some ''.'' else Some (py_join ''/'' rel_list)))"

text \<open>
  Absolute paths written component by component, as \<^verbatim>\<open>os.walk\<close> and the watcher
  report them below a root: a clean component is non-empty, has no separator and is
  neither \<^verbatim>\<open>.\<close> nor \<^verbatim>\<open>..\<close>.
\<close>

definition clean_component :: "string \<Rightarrow> bool" where
  "clean_component c \<longleftrightarrow> c \<noteq> [] \<and> CHR ''/'' \<notin> set c \<and> c \<noteq> ''.'' \<and> c \<noteq> ''..''"

definition abs_path :: "string list \<Rightarrow> path" where
  "abs_path cs = concat (map (\<lambda>c. CHR ''/'' # c) cs)"

section \<open>Properties of the built-ins\<close>

lemma py_isspace_space [simp, pylib_simps]: "py_isspace (CHR '' '')"
  by (simp add: py_isspace_def)

lemma py_split_unfold:
  "dropWhile py_isspace s = c # cs \<Longrightarrow>
   py_split s = takeWhile (Not \<circ> py_isspace) (c # cs) #
                py_split (dropWhile (Not \<circ> py_isspace) (c # cs))"
  by (subst py_split.simps) simp

lemma py_split_Nil [simp, pylib_simps]: "py_split [] = []"
  by (simp add: py_split.simps)

lemma py_split_space [pylib_simps]:
  "py_isspace c \<Longrightarrow> py_split (c # cs) = py_split cs"
  by (subst (1 2) py_split.simps) simp

lemma py_split_word_rest:
  assumes "py_word w" and "rest = [] \<or> py_isspace (hd rest)"
  shows "py_split (w @ rest) = w # py_split rest"
proof -
  obtain c cs where w: "w = c # cs" and nsp: "\<forall>c \<in> set w. \<not> py_isspace c"
    using assms(1) by (cases w) (auto simp: py_word_def)
  have tw: "takeWhile (Not \<circ> py_isspace) (w @ rest) = w"
    using nsp assms(2) by (cases rest) auto
  have dw: "dropWhile (Not \<circ> py_isspace) (w @ rest) = rest"
    using nsp assms(2) by (cases rest) auto
  have "dropWhile py_isspace (w @ rest) = w @ rest"
    using w nsp by simp
  then show ?thesis
    using tw dw w by (subst py_split.simps) (simp add: Let_def)
qed

lemma py_split_single_word [pylib_simps]: "py_word w \<Longrightarrow> py_split w = [w]"
  using py_split_word_rest [of w "[]"] by simp

text \<open>Every element \<^verbatim>\<open>str.split()\<close> returns is a word.\<close>

lemma py_split_words: "w \<in> set (py_split s) \<Longrightarrow> py_word w"
proof (induction s rule: py_split.induct)
  case (1 s)
  let ?s' = "dropWhile py_isspace s"
  show ?case
  proof (cases "?s' = []")
    case True
    with "1.prems" show ?thesis by (simp add: py_split.simps [of s])
  next
    case False
    then obtain c cs where cs: "?s' = c # cs"
      by (cases ?s') auto
    then have c: "\<not> py_isspace c"
      by (rule dropWhile_Cons_not)
    have hd_word: "py_word (takeWhile (Not \<circ> py_isspace) ?s')"
      using cs c by (auto simp: py_word_def dest: set_takeWhileD)
    from "1.prems" consider
        "w = takeWhile (Not \<circ> py_isspace) ?s'"
      | "w \<in> set (py_split (dropWhile (Not \<circ> py_isspace) ?s'))"
      using py_split_unfold [OF cs] cs by auto
    then show ?thesis
      using hd_word "1.IH" [OF refl False] by cases auto
  qed
qed

text \<open>Round trip: splitting the space-joined words gives the words back.\<close>

lemma py_split_join:
  "\<forall>w \<in> set ws. py_word w \<Longrightarrow> py_split (py_join '' '' ws) = ws"
proof (induction ws)
  case (Cons w ws)
  show ?case
  proof (cases ws)
    case Nil
    with Cons.prems show ?thesis by (simp add: py_split_single_word)
  next
    case (Cons v vs)
    with Cons.IH Cons.prems show ?thesis
      using py_split_word_rest [of w "CHR '' '' # py_join '' '' ws"]
      by (simp add: py_split_space)
  qed
qed simp

lemma py_slice_nat [pylib_simps]:
  "j \<le> length xs \<Longrightarrow> py_slice xs (int i) (int j) = take (j - i) (drop i xs)"
  by (simp add: py_slice_def py_slice_index_def min_def)

subsection \<open>Clean absolute paths\<close>

lemma split_on_not_Nil [simp]: "split_on c s \<noteq> []"
  by (induction s) (auto simp: Let_def)

lemma split_on_no_sep: "c \<notin> set s \<Longrightarrow> split_on c s = [s]"
  by (induction s) (auto simp: Let_def)

lemma split_on_append_sep: "split_on c (xs @ c # ys) = split_on c xs @ split_on c ys"
proof (induction xs)
  case Nil
  then show ?case by simp
next
  case (Cons x xs)
  obtain r rs where r: "split_on c xs = r # rs" by (cases "split_on c xs") auto
  with Cons show ?case by (simp add: Let_def)
qed

lemma abs_path_Cons: "abs_path (x # xs) = CHR ''/'' # x @ abs_path xs"
  by (simp add: abs_path_def)

lemma abs_path_append: "abs_path (xs @ ys) = abs_path xs @ abs_path ys"
  by (simp add: abs_path_def)

lemma split_on_abs_path:
  "\<forall>x \<in> set xs. CHR ''/'' \<notin> set x \<Longrightarrow> split_on (CHR ''/'') (abs_path xs) = [] # xs"
proof (induction xs)
  case Nil
  then show ?case by (simp add: abs_path_def)
next
  case (Cons x xs)
  then have ih: "split_on (CHR ''/'') (abs_path xs) = [] # xs" and x: "CHR ''/'' \<notin> set x" by simp_all
  show ?case
  proof (cases xs)
    case Nil
    with x show ?thesis by (simp add: abs_path_def split_on_no_sep)
  next
    case (Cons y ys)
    then have "abs_path xs = CHR ''/'' # y @ abs_path ys" by (simp add: abs_path_Cons)
    then have "split_on (CHR ''/'') (x @ abs_path xs) = split_on (CHR ''/'') x @ split_on (CHR ''/'') (y @ abs_path ys)"
      by (simp add: split_on_append_sep)
    moreover have "split_on (CHR ''/'') (abs_path xs) = [] # split_on (CHR ''/'') (y @ abs_path ys)"
      using \<open>abs_path xs = CHR ''/'' # y @ abs_path ys\<close> by simp
    ultimately show ?thesis
      using ih x by (simp add: abs_path_Cons split_on_no_sep)
  qed
qed

lemma norm_comps_clean:
  "\<forall>x \<in> set xs. clean_component x \<Longrightarrow> norm_comps absolute acc xs = acc @ xs"
  by (induction xs arbitrary: acc) (auto simp: clean_component_def)

lemma py_join_abs_path: "xs \<noteq> [] \<Longrightarrow> CHR ''/'' # py_join ''/'' xs = abs_path xs"
proof (induction xs)
  case (Cons x xs)
  then show ?case by (cases xs) (simp_all add: abs_path_Cons abs_path_def)
qed simp


lemma norm_comps_append:
  "norm_comps absolute acc (xs @ ys) = norm_comps absolute (norm_comps absolute acc xs) ys"
  by (induction absolute acc xs rule: norm_comps.induct) auto

lemma clean_no_slash: "\<forall>x \<in> set xs. clean_component x \<Longrightarrow> \<forall>x \<in> set xs. CHR ''/'' \<notin> set x"
  by (simp add: clean_component_def)

lemma abs_path_shape:
  assumes "xs \<noteq> []" and "\<forall>x \<in> set xs. clean_component x"
  shows "take 1 (abs_path xs) = ''/''" and "take 2 (abs_path xs) \<noteq> ''//''" and "abs_path xs \<noteq> []"
    and "2 \<le> length (abs_path xs)"
proof -
  obtain x xs' where xs: "xs = x # xs'" using assms(1) by (cases xs) auto
  then have "x \<noteq> []" "CHR ''/'' \<notin> set x" using assms(2) by (auto simp: clean_component_def)
  then obtain y ys where "x = y # ys" "y \<noteq> CHR ''/''" by (cases x) auto
  with xs show "take 1 (abs_path xs) = ''/''" "take 2 (abs_path xs) \<noteq> ''//''" "abs_path xs \<noteq> []"
    "2 \<le> length (abs_path xs)"
    by (simp_all add: abs_path_Cons)
qed

lemma py_normpath_abs_path:
  assumes "xs \<noteq> []" and "\<forall>x \<in> set xs. clean_component x"
  shows "py_normpath (abs_path xs) = abs_path xs"
proof -
  have "norm_comps True [] ([] # xs) = xs"
    using norm_comps_clean [OF assms(2), of True "[]"] by simp
  then show ?thesis
    using abs_path_shape [OF assms] split_on_abs_path [OF clean_no_slash [OF assms(2)]]
      py_join_abs_path [OF assms(1)]
    by (simp add: py_normpath_def Let_def)
qed

lemma py_normpath_abs_path_slash:
  assumes "xs \<noteq> []" and "\<forall>x \<in> set xs. clean_component x"
  shows "py_normpath (abs_path xs @ ''/'') = abs_path xs"
proof -
  have e: "abs_path xs @ ''/'' = abs_path (xs @ [[]])" by (simp add: abs_path_def)
  have sp: "split_on (CHR ''/'') (abs_path (xs @ [[]])) = [] # xs @ [[]]"
    using clean_no_slash [OF assms(2)] by (intro split_on_abs_path) auto
  have "norm_comps True [] ([] # xs @ [[]]) = xs"
    using norm_comps_clean [OF assms(2), of True "[]"] by (simp add: norm_comps_append)
  moreover have "take 1 (abs_path (xs @ [[]])) = ''/''" "take 2 (abs_path (xs @ [[]])) \<noteq> ''//''"
    using abs_path_shape [OF assms] by (simp_all add: abs_path_append)
  moreover have "abs_path (xs @ [[]]) \<noteq> []" by (simp add: abs_path_def)
  ultimately show ?thesis
    using e sp py_join_abs_path [OF assms(1)]
    by (simp add: py_normpath_def Let_def)
qed


lemma common_prefix_len_append: "common_prefix_len xs (xs @ ys) = length xs + common_prefix_len [] ys"
  by (induction xs) simp_all

lemma split_on_py_join:
  assumes "ys \<noteq> []" and "\<forall>y \<in> set ys. clean_component y"
  shows "split_on (CHR ''/'') (py_join ''/'' ys) = ys"
proof -
  have "split_on (CHR ''/'') (CHR ''/'' # py_join ''/'' ys) = [] # ys"
    using py_join_abs_path [OF assms(1)] split_on_abs_path [OF clean_no_slash [OF assms(2)]] by simp
  then show ?thesis by simp
qed

lemma filter_nonempty_clean: "\<forall>y \<in> set ys. clean_component y \<Longrightarrow> filter (\<lambda>x. x \<noteq> []) ys = ys"
  by (auto simp: clean_component_def)

lemma py_relpath_below:
  assumes "rs \<noteq> []" and "ys \<noteq> []" and clean: "\<forall>c \<in> set (rs @ ys). clean_component c"
  shows "py_relpath cwd_dir (abs_path (rs @ ys)) (abs_path rs @ ''/'') = Some (py_join ''/'' ys)"
proof -
  have cr: "\<forall>c \<in> set rs. clean_component c" and cy: "\<forall>c \<in> set ys. clean_component c"
    using clean by simp_all
  have ne: "rs @ ys \<noteq> []" using assms(1) by simp
  have a1: "py_abspath cwd_dir (abs_path rs @ ''/'') = abs_path rs"
    using py_normpath_abs_path_slash [OF assms(1) cr] abs_path_shape(1,4) [OF assms(1) cr]
    by (simp add: py_abspath_def py_startswith_def)
  have a2: "py_abspath cwd_dir (abs_path (rs @ ys)) = abs_path (rs @ ys)"
    using py_normpath_abs_path [OF ne clean] abs_path_shape(1) [OF ne clean]
    by (simp add: py_abspath_def py_startswith_def)
  have s1: "filter (\<lambda>x. x \<noteq> []) (split_on (CHR ''/'') (abs_path rs)) = rs"
    using split_on_abs_path [OF clean_no_slash [OF cr]] filter_nonempty_clean [OF cr] by simp
  have s2: "filter (\<lambda>x. x \<noteq> []) (split_on (CHR ''/'') (abs_path (rs @ ys))) = rs @ ys"
    using split_on_abs_path [OF clean_no_slash [OF clean]] filter_nonempty_clean [OF clean] by simp
  have "abs_path (rs @ ys) \<noteq> []" using abs_path_shape(3) [OF ne clean] .
  then show ?thesis
    using a1 a2 s1 s2 assms(2) common_prefix_len_append [of rs ys]
    by (simp add: py_relpath_def Let_def)
qed

lemma abs_path_not_endswith_slash:
  assumes "rs \<noteq> []" and "\<forall>c \<in> set rs. clean_component c"
  shows "\<not> py_endswith (abs_path rs) ''/''"
proof -
  obtain rs' r where rs: "rs = rs' @ [r]" using assms(1) by (cases rs rule: rev_cases) auto
  then have "r \<noteq> []" "CHR ''/'' \<notin> set r" using assms(2) by (auto simp: clean_component_def)
  then obtain r' x where r: "r = r' @ [x]" and x: "x \<noteq> CHR ''/''" by (cases r rule: rev_cases) auto
  have "abs_path rs = (abs_path rs' @ CHR ''/'' # r') @ [x]"
    using rs r by (simp add: abs_path_append abs_path_def)
  with x show ?thesis by (simp add: py_endswith_def)
qed

subsection \<open>Decimal rendering\<close>

lemma of_char_digit: "n < 10 \<Longrightarrow> of_char (char_of (48 + n) :: char) = (48 + n :: nat)"
  by (simp add: of_char_of)

lemma nat_str_roundtrip: "py_int_of_str (nat_str n) = n"
proof (induction n rule: nat_str.induct)
  case (1 n)
  show ?case
  proof (cases "n < 10")
    case True
    then show ?thesis by (simp add: nat_str.simps py_int_of_str_def of_char_digit)
  next
    case False
    then have "py_int_of_str (nat_str n) = 10 * py_int_of_str (nat_str (n div 10)) + n mod 10"
      by (simp add: nat_str.simps [of n] py_int_of_str_def of_char_digit)
    with 1 False show ?thesis by simp
  qed
qed

lemma nat_str_digits: "c \<in> set (nat_str n) \<Longrightarrow> c \<noteq> CHR ''_''"
proof (induction n rule: nat_str.induct)
  case (1 n)
  have d: "char_of (48 + k) \<noteq> CHR ''_''" if "k < 10" for k :: nat
  proof
    assume "char_of (48 + k) = CHR ''_''"
    then have "of_char (char_of (48 + k) :: char) = (of_char (CHR ''_'') :: nat)" by simp
    with that show False by (simp add: of_char_digit)
  qed
  have "n mod 10 < 10" by simp
  from 1 d [OF this] d [of n] show ?case
    by (cases "n < 10") (auto simp: nat_str.simps [of n])
qed

end
