(* ===== verification/Chunker.thy ===== *)
theory Chunker
  imports PyLib
begin

text \<open>
  The chunker of \<^verbatim>\<open>src/ingest.py\<close>, function \<^verbatim>\<open>chunk_text\<close> (lines 137--149):
  the text is split into whitespace-separated words and cut into windows of
  \<^verbatim>\<open>chunk_size\<close> words, each starting \<^verbatim>\<open>chunk_size - chunk_overlap\<close> words after
  the previous one. The \<^verbatim>\<open>while\<close> loop is \<open>chunk_loop\<close>, a
  \<^theory_text>\<open>partial_function (option)\<close> whose value \<open>None\<close> is the loop not
  terminating; the sizes are Python \<^verbatim>\<open>int\<close>s. \<open>windows\<close> is the reference
  windowing the spec describes; the theorems show the loop computes it whenever
  \<open>0 \<le> overlap < size\<close>, that it runs forever when \<open>size \<le> overlap\<close> and the
  text has more than \<open>size\<close> words, and the shape of the windows (bounds, count,
  overlap, reconstruction of the word sequence).
\<close>

section \<open>The loop of chunk_text\<close>

partial_function (option) chunk_loop ::
  "string list \<Rightarrow> int \<Rightarrow> int \<Rightarrow> int \<Rightarrow> string list \<Rightarrow> string list option" where
  "chunk_loop words chunk_size chunk_overlap start_idx chunks =
     (if start_idx < int (length words) then
        (let end_idx = min (start_idx + chunk_size) (int (length words));
             chunks' = chunks @ [py_join '' '' (py_slice words start_idx end_idx)]
         in if end_idx = int (length words) then Some chunks'
            else (let start_idx' = start_idx + (chunk_size - chunk_overlap)
                  in if int (length words) \<le> start_idx' then Some chunks'
                     else chunk_loop words chunk_size chunk_overlap start_idx' chunks'))
      else Some chunks)"

declare chunk_loop.simps [code]

definition chunk_text :: "string \<Rightarrow> int \<Rightarrow> int \<Rightarrow> string list option" where
  "chunk_text text chunk_size chunk_overlap =
     (if text = [] then Some []
      else chunk_loop (py_split text) chunk_size chunk_overlap 0 [])"

text \<open>\<^verbatim>\<open>process_file\<close> calls \<^verbatim>\<open>chunk_text(content)\<close> with the defaults 500 and 50.\<close>

definition chunk_text_default :: "string \<Rightarrow> string list option" where
  "chunk_text_default text = chunk_text text 500 50"

section \<open>Reference windowing\<close>

text \<open>
  Windows of \<open>size\<close> elements, each \<open>step\<close> after the previous one, until a
  window reaches the end. The \<open>step = 0\<close> guard only makes the function total;
  every theorem below assumes \<open>0 < step\<close>.
\<close>

function windows :: "nat \<Rightarrow> nat \<Rightarrow> 'a list \<Rightarrow> 'a list list" where
  "windows sz step ws =
     (if ws = [] then []
      else if length ws \<le> sz then [ws]
      else if length ws \<le> step \<or> step = 0 then [take sz ws]
      else take sz ws # windows sz step (drop step ws))"
  by pat_completeness auto
termination
  by (relation "measure (\<lambda>(sz, step, ws). length ws)") auto

declare windows.simps [simp del]

text \<open>Inverse of the windowing: the first \<open>step\<close> elements of each window, then the last window.\<close>

fun unwindow :: "nat \<Rightarrow> 'a list list \<Rightarrow> 'a list" where
  "unwindow step [] = []"
| "unwindow step [w] = w"
| "unwindow step (w # v # vs) = take step w @ unwindow step (v # vs)"

section \<open>Characteristic equations of the windowing\<close>

lemma windows_Nil [simp]: "windows sz step [] = []"
  by (simp add: windows.simps)

lemma windows_eq_Nil_iff [simp]: "windows sz step ws = [] \<longleftrightarrow> ws = []"
  by (subst windows.simps) auto

lemma windows_short: "ws \<noteq> [] \<Longrightarrow> length ws \<le> sz \<Longrightarrow> windows sz step ws = [ws]"
  by (simp add: windows.simps)

lemma windows_last:
  "\<not> length ws \<le> sz \<Longrightarrow> length ws \<le> step \<Longrightarrow> windows sz step ws = [take sz ws]"
  by (subst windows.simps) auto

lemma windows_step:
  "\<not> length ws \<le> sz \<Longrightarrow> \<not> length ws \<le> step \<Longrightarrow> 0 < step \<Longrightarrow>
   windows sz step ws = take sz ws # windows sz step (drop step ws)"
  by (subst windows.simps) auto

lemmas windows_simps = windows_short windows_last windows_step

section \<open>The loop computes the windowing\<close>

lemma chunk_loop_windows:
  assumes step: "0 < step" and sz: "chunk_size = int sz" and ov: "chunk_size - chunk_overlap = int step"
  shows "chunk_loop ws chunk_size chunk_overlap (int k) acc =
           Some (acc @ map (py_join '' '') (windows sz step (drop k ws)))"
proof (induction "length ws - k" arbitrary: k acc rule: less_induct)
  case less
  show ?case
  proof (cases "k < length ws")
    case False
    then show ?thesis by (simp add: chunk_loop.simps windows.simps)
  next
    case True
    let ?rest = "drop k ws"
    have rest_ne: "?rest \<noteq> []" and rest_len: "length ?rest = length ws - k"
      using True by simp_all
    show ?thesis
    proof (cases "length ws \<le> k + sz")
      case True
      then have "min (int k + chunk_size) (int (length ws)) = int (length ws)"
        using sz by simp
      moreover have "py_slice ws (int k) (int (length ws)) = ?rest"
        by (simp add: py_slice_nat)
      moreover have "windows sz step ?rest = [?rest]"
        using rest_ne rest_len True by (simp add: windows.simps)
      ultimately show ?thesis
        using \<open>k < length ws\<close> by (simp add: chunk_loop.simps)
    next
      case False
      then have end_eq: "min (int k + chunk_size) (int (length ws)) = int (k + sz)"
        using sz by simp
      have slice: "py_slice ws (int k) (int (k + sz)) = take sz ?rest"
        using False py_slice_nat [of "k + sz" ws k] by simp
      have end_ne: "int (k + sz) \<noteq> int (length ws)"
        using False by simp
      have start': "int k + (chunk_size - chunk_overlap) = int (k + step)"
        using ov by simp
      show ?thesis
      proof (cases "length ws \<le> k + step")
        case True
        then have "windows sz step ?rest = [take sz ?rest]"
          using rest_ne rest_len \<open>\<not> length ws \<le> k + sz\<close> by (simp add: windows.simps)
        then show ?thesis
          using \<open>k < length ws\<close> end_eq slice end_ne start' True
          by (simp add: chunk_loop.simps [of ws chunk_size chunk_overlap "int k"] Let_def)
      next
        case False
        have "\<not> length ?rest \<le> step" "\<not> length ?rest \<le> sz"
          using rest_len \<open>\<not> length ws \<le> k + sz\<close> False by linarith+
        then have "windows sz step ?rest = take sz ?rest # windows sz step (drop step ?rest)"
          using rest_ne step by (subst windows.simps [of sz step ?rest]) simp
        then have win: "windows sz step ?rest = take sz ?rest # windows sz step (drop (k + step) ws)"
          by (simp add: add.commute)
        have IH: "chunk_loop ws chunk_size chunk_overlap (int (k + step)) (acc @ [py_join '' '' (take sz ?rest)]) =
            Some ((acc @ [py_join '' '' (take sz ?rest)]) @ map (py_join '' '') (windows sz step (drop (k + step) ws)))"
          using less.hyps [of "k + step"] step \<open>k < length ws\<close> by simp
        show ?thesis
          using \<open>k < length ws\<close> end_eq slice end_ne start' False IH win
          by (simp add: chunk_loop.simps [of ws chunk_size chunk_overlap "int k"] Let_def)
      qed
    qed
  qed
qed

lemma chunk_text_eq_windows:
  assumes "0 \<le> chunk_size" and "chunk_overlap < chunk_size"
  shows "chunk_text text chunk_size chunk_overlap =
           Some (map (py_join '' '')
                   (windows (nat chunk_size) (nat (chunk_size - chunk_overlap)) (py_split text)))"
proof (cases "text = []")
  case True
  then show ?thesis by (simp add: chunk_text_def windows.simps)
next
  case False
  have "chunk_loop (py_split text) chunk_size chunk_overlap (int 0) [] =
          Some ([] @ map (py_join '' '')
                  (windows (nat chunk_size) (nat (chunk_size - chunk_overlap)) (drop 0 (py_split text))))"
    using assms by (intro chunk_loop_windows) simp_all
  with False show ?thesis by (simp add: chunk_text_def)
qed

lemma chunk_loop_diverges:
  assumes "chunk_size \<le> chunk_overlap" and "max 0 chunk_size < int (length words)"
    and "start_idx \<le> 0"
  shows "chunk_loop words chunk_size chunk_overlap start_idx acc = None"
proof (rule ccontr)
  assume "chunk_loop words chunk_size chunk_overlap start_idx acc \<noteq> None"
  then obtain r where ret: "chunk_loop words chunk_size chunk_overlap start_idx acc = Some r"
    by blast
  have "\<not> (chunk_size \<le> chunk_overlap \<and> max 0 chunk_size < int (length words) \<and> start_idx \<le> 0)"
  proof (rule chunk_loop.raw_induct [where P = "\<lambda>words chunk_size chunk_overlap start_idx acc r.
      \<not> (chunk_size \<le> chunk_overlap \<and> max 0 chunk_size < int (length words) \<and> start_idx \<le> 0)", OF _ ret])
    fix f words chunk_size chunk_overlap start_idx chunks r
    assume IH: "\<And>chunk_size chunk_overlap start_idx chunks b y. f chunk_size chunk_overlap start_idx chunks b = Some y \<Longrightarrow>
        \<not> (chunk_overlap \<le> start_idx \<and> max 0 chunk_overlap < int (length chunk_size) \<and> chunks \<le> 0)"
      and eq: "(if start_idx < int (length words)
      then let end_idx = min (start_idx + chunk_size) (int (length words));
               chunks' = chunks @ [py_join '' '' (py_slice words start_idx end_idx)]
           in if end_idx = int (length words) then Some chunks'
              else let start_idx' = start_idx + (chunk_size - chunk_overlap)
                   in if int (length words) \<le> start_idx' then Some chunks'
                      else f words chunk_size chunk_overlap start_idx' chunks'
      else Some chunks) = Some r"
    show "\<not> (chunk_size \<le> chunk_overlap \<and> max 0 chunk_size < int (length words) \<and> start_idx \<le> 0)"
    proof
      assume inv: "chunk_size \<le> chunk_overlap \<and> max 0 chunk_size < int (length words) \<and> start_idx \<le> 0"
      then have "start_idx < int (length words)"
        and "start_idx + chunk_size < int (length words)"
        and "\<not> int (length words) \<le> start_idx + (chunk_size - chunk_overlap)"
        by linarith+
      with eq have "f words chunk_size chunk_overlap (start_idx + (chunk_size - chunk_overlap))
          (chunks @ [py_join '' '' (py_slice words start_idx (start_idx + chunk_size))]) = Some r"
        by (simp add: Let_def min_def)
      from IH [OF this] inv show False by linarith
    qed
  qed
  with assms show False by blast
qed

text \<open>
  C24. When \<open>size \<le> overlap\<close> and the text has more than \<open>max 0 size\<close> words, the
  while loop of \<open>chunk_text\<close> never ends: the code does not defend against
  \<open>overlap \<ge> size\<close>.
\<close>

theorem chunk_text_diverges:
  assumes "chunk_size \<le> chunk_overlap" and "max 0 chunk_size < int (length (py_split text))"
  shows "chunk_text text chunk_size chunk_overlap = None"
proof -
  have "text \<noteq> []"
    using assms(2) by auto
  with assms show ?thesis
    by (simp add: chunk_text_def chunk_loop_diverges)
qed

section \<open>Shape of the windows\<close>

lemma windows_length_le: "w \<in> set (windows sz step ws) \<Longrightarrow> length w \<le> sz"
proof (induction sz step ws rule: windows.induct)
  case (1 sz step ws)
  then show ?case
    by (cases "ws = []"; cases "length ws \<le> sz"; cases "length ws \<le> step \<or> step = 0")
       (auto simp: windows.simps [of sz step ws])
qed

lemma windows_subset: "w \<in> set (windows sz step ws) \<Longrightarrow> set w \<subseteq> set ws"
proof (induction sz step ws rule: windows.induct)
  case (1 sz step ws)
  then show ?case
    by (cases "ws = []"; cases "length ws \<le> sz"; cases "length ws \<le> step \<or> step = 0")
       (auto simp: windows.simps [of sz step ws] dest: in_set_takeD in_set_dropD)
qed

lemma windows_nth:
  "0 < step \<Longrightarrow> i < length (windows sz step ws) \<Longrightarrow>
   windows sz step ws ! i = take sz (drop (i * step) ws)"
proof (induction sz step ws arbitrary: i rule: windows.induct)
  case (1 sz step ws)
  consider (nil) "ws = []" | (short) "ws \<noteq> []" "length ws \<le> sz"
    | (last) "\<not> length ws \<le> sz" "length ws \<le> step"
    | (step) "\<not> length ws \<le> sz" "\<not> length ws \<le> step"
    by fastforce
  then show ?case
  proof cases
    case step
    then have "ws \<noteq> []" by auto
    with step "1.prems" show ?thesis
      using "1.IH" [of "i - 1"]
      by (cases i) (auto simp: windows_step add.commute)
  qed (use "1.prems" in \<open>auto simp: windows_short windows_last\<close>)
qed

lemma windows_cases:
  obtains (nil) "ws = []" | (short) "ws \<noteq> []" "length ws \<le> sz"
    | (last) "\<not> length ws \<le> sz" "length ws \<le> step"
    | (step) "ws \<noteq> []" "\<not> length ws \<le> sz" "\<not> length ws \<le> step"
  by fastforce

lemma div_step_Suc:
  "0 < (b::nat) \<Longrightarrow> (a + b + b - Suc 0) div b = Suc ((a + b - Suc 0) div b)"
proof -
  assume b: "0 < b"
  then obtain c where c: "b = Suc c"
    using gr0_implies_Suc by blast
  have "(a + c + b) div b = Suc ((a + c) div b)"
    using b by (simp add: div_add_self2)
  then show ?thesis
    using c by simp
qed

lemma windows_count:
  assumes "0 < step" and "step \<le> sz"
  shows "length (windows sz step ws) =
           (if ws = [] then 0 else if length ws \<le> sz then 1
            else Suc ((length ws - sz + step - 1) div step))"
  using assms
proof (induction sz step ws rule: windows.induct)
  case (1 sz step ws)
  show ?case
  proof (cases rule: windows_cases [where ws = ws and sz = sz and step = step])
    case step
    let ?L = "length ws"
    have rec: "length (windows sz step ws) = Suc (length (windows sz step (drop step ws)))"
      using step "1.prems" by (simp add: windows_step)
    show ?thesis
    proof (cases "?L - step \<le> sz")
      case True
      then have "(?L - sz + step - 1) div step = 1"
        using step "1.prems" by (simp add: div_nat_eqI)
      with True step rec "1.IH" "1.prems" show ?thesis
        by (simp add: windows_short)
    next
      case False
      have L: "?L - sz + step - 1 = (?L - step - sz + step - 1) + step"
        using False step by linarith
      have "length (windows sz step ws) = Suc (Suc ((?L - step - sz + step - 1) div step))"
        using rec "1.IH" step "1.prems" False by simp
      also have "Suc ((?L - step - sz + step - 1) div step) = (?L - sz + step - 1) div step"
        unfolding L using "1.prems" by (simp add: div_step_Suc)
      finally show ?thesis
        using step by simp
    qed
  qed (use "1.prems" in \<open>simp_all add: windows_short\<close>)
qed

lemma windows_full:
  "0 < step \<Longrightarrow> Suc i < length (windows sz step ws) \<Longrightarrow> length (windows sz step ws ! i) = sz"
proof (induction sz step ws arbitrary: i rule: windows.induct)
  case (1 sz step ws)
  show ?case
  proof (cases rule: windows_cases [where ws = ws and sz = sz and step = step])
    case step
    with "1.prems" "1.IH" [of "i - 1"] show ?thesis
      by (cases i) (auto simp: windows_step)
  qed (use "1.prems" in \<open>auto simp: windows_short windows_last\<close>)
qed

lemma windows_overlap:
  assumes "0 < step" and "Suc i < length (windows sz step ws)"
  shows "drop step (windows sz step ws ! i) = take (sz - step) (windows sz step ws ! Suc i)"
proof -
  have "windows sz step ws ! i = take sz (drop (i * step) ws)"
    and "windows sz step ws ! Suc i = take sz (drop (i * step + step) ws)"
    using assms windows_nth [of step i sz ws] windows_nth [of step "Suc i" sz ws]
    by (simp_all add: add.commute)
  then show ?thesis
    by (simp add: drop_take min_def add.commute)
qed

lemma unwindow_Cons:
  "W \<noteq> [] \<Longrightarrow> unwindow step (w # W) = take step w @ unwindow step W"
  by (cases W) simp_all

lemma unwindow_windows:
  "0 < step \<Longrightarrow> step \<le> sz \<Longrightarrow> unwindow step (windows sz step ws) = ws"
proof (induction sz step ws rule: windows.induct)
  case (1 sz step ws)
  show ?case
  proof (cases rule: windows_cases [where ws = ws and sz = sz and step = step])
    case step
    then have "windows sz step (drop step ws) \<noteq> []"
      using "1.prems" by simp
    with step "1.prems" "1.IH" show ?thesis
      by (simp add: windows_step unwindow_Cons min_absorb1)
  qed (use "1.prems" in \<open>simp_all add: windows_short\<close>)
qed

section \<open>Properties of chunk_text\<close>

text \<open>
  C21. For \<open>0 \<le> overlap < size\<close>, \<open>chunk_text\<close> terminates on every text and returns the
  space-joined windows of \<open>size\<close> words, each starting \<open>size - overlap\<close> words after the
  previous one, the last ending at the last word.
\<close>

theorem chunk_text_windows:
  assumes "0 \<le> chunk_size" and "chunk_overlap < chunk_size"
  shows "chunk_text text chunk_size chunk_overlap =
           Some (map (py_join '' '')
                   (windows (nat chunk_size) (nat (chunk_size - chunk_overlap)) (py_split text)))"
  using assms by (rule chunk_text_eq_windows)

text \<open>
  With the parameters \<^verbatim>\<open>process_file\<close> uses (500 and 50), \<open>chunk_text\<close>
  terminates on every text.
\<close>

theorem chunk_text_default_terminates: "\<exists>chunks. chunk_text_default content = Some chunks"
  using chunk_text_eq_windows [of 500 50 content] by (simp add: chunk_text_default_def)

lemma windows_words:
  "\<forall>w \<in> set ws. py_word w \<Longrightarrow> v \<in> set (windows sz step ws) \<Longrightarrow> py_split (py_join '' '' v) = v"
  using windows_subset by (blast intro: py_split_join)

lemma chunk_text_split:
  assumes "0 \<le> chunk_size" and "chunk_overlap < chunk_size"
    and "chunk_text text chunk_size chunk_overlap = Some cs"
  shows "map py_split cs = windows (nat chunk_size) (nat (chunk_size - chunk_overlap)) (py_split text)"
proof -
  have "cs = map (py_join '' '') (windows (nat chunk_size) (nat (chunk_size - chunk_overlap)) (py_split text))"
    using assms chunk_text_eq_windows by simp
  moreover have "\<forall>w \<in> set (py_split text). py_word w"
    using py_split_words by blast
  ultimately show ?thesis
    by (simp add: windows_words map_idI)
qed

text \<open>
  C22. For \<open>0 \<le> overlap < size\<close>, \<open>chunk_text\<close> returns, and the words of the text
  are recovered from its chunks by taking the first \<open>size - overlap\<close> words of every
  chunk but the last and the whole last chunk.
\<close>

theorem chunk_text_roundtrip:
  assumes "0 \<le> chunk_overlap" and "chunk_overlap < chunk_size"
  shows "\<exists>cs. chunk_text text chunk_size chunk_overlap = Some cs \<and>
              unwindow (nat (chunk_size - chunk_overlap)) (map py_split cs) = py_split text"
proof -
  obtain cs where cs: "chunk_text text chunk_size chunk_overlap = Some cs"
    using assms chunk_text_eq_windows by fastforce
  then have "map py_split cs = windows (nat chunk_size) (nat (chunk_size - chunk_overlap)) (py_split text)"
    using assms by (intro chunk_text_split) simp_all
  then have "unwindow (nat (chunk_size - chunk_overlap)) (map py_split cs) = py_split text"
    using assms by (simp add: unwindow_windows)
  with cs show ?thesis by blast
qed

text \<open>
  C23. For \<open>0 \<le> overlap < size\<close>, every chunk has at most \<open>size\<close> words, every
  chunk but the last exactly \<open>size\<close>, and consecutive chunks share exactly
  \<open>overlap\<close> words.
\<close>

theorem chunk_text_shape:
  assumes "0 \<le> chunk_overlap" and "chunk_overlap < chunk_size"
    and "chunk_text text chunk_size chunk_overlap = Some cs"
  shows "(\<forall>c \<in> set cs. length (py_split c) \<le> nat chunk_size) \<and>
         (\<forall>i. Suc i < length cs \<longrightarrow>
              length (py_split (cs ! i)) = nat chunk_size \<and>
              drop (nat (chunk_size - chunk_overlap)) (py_split (cs ! i)) =
              take (nat chunk_overlap) (py_split (cs ! Suc i)))"
proof -
  let ?W = "windows (nat chunk_size) (nat (chunk_size - chunk_overlap)) (py_split text)"
  have W: "map py_split cs = ?W"
    using assms by (intro chunk_text_split) simp_all
  then have len: "length cs = length ?W" and nth: "\<And>i. i < length cs \<Longrightarrow> py_split (cs ! i) = ?W ! i"
    by (metis length_map, metis nth_map)
  have step: "0 < nat (chunk_size - chunk_overlap)"
    using assms by simp
  have ov: "nat chunk_size - nat (chunk_size - chunk_overlap) = nat chunk_overlap"
    using assms by simp
  have "\<forall>c \<in> set cs. length (py_split c) \<le> nat chunk_size"
    using W windows_length_le by (metis imageI list.set_map)
  moreover have "\<forall>i. Suc i < length cs \<longrightarrow>
              length (py_split (cs ! i)) = nat chunk_size \<and>
              drop (nat (chunk_size - chunk_overlap)) (py_split (cs ! i)) =
              take (nat chunk_overlap) (py_split (cs ! Suc i))"
    using len nth step windows_full windows_overlap ov by (metis Suc_lessD)
  ultimately show ?thesis by blast
qed

text \<open>
  The example of the specification: a text of 120 words chunked with size 50 and
  overlap 10 gives three chunks of 50, 50 and 40 words, the last 10 words of the
  first being the first 10 of the second.
\<close>

theorem chunk_text_spec_example:
  assumes "length (py_split text) = 120"
  shows "\<exists>c0 c1 c2. chunk_text text 50 10 = Some [c0, c1, c2] \<and>
           map (\<lambda>c. length (py_split c)) [c0, c1, c2] = [50, 50, 40] \<and>
           drop 40 (py_split c0) = take 10 (py_split c1)"
proof -
  let ?ws = "py_split text"
  have W: "windows 50 40 ?ws = [take 50 ?ws, take 50 (drop 40 ?ws), drop 80 ?ws]"
    using assms by (simp add: windows_simps)
  obtain cs where cs: "chunk_text text 50 10 = Some cs"
    using chunk_text_eq_windows [of 50 10 "text"] by simp
  then have "map py_split cs = windows 50 40 ?ws"
    using chunk_text_split [of 50 10 "text" cs] by simp
  with W obtain c0 c1 c2 where "cs = [c0, c1, c2]" and "py_split c0 = take 50 ?ws"
      and "py_split c1 = take 50 (drop 40 ?ws)" and "py_split c2 = drop 80 ?ws"
    by (auto simp: map_eq_Cons_conv)
  with cs assms show ?thesis
    by (auto simp: drop_take)
qed

lemma chunk_text_spec_example_witness:
  "length (py_split (py_join '' '' (replicate 120 ''w''))) = 120 \<and>
   (\<exists>c0 c1 c2. chunk_text (py_join '' '' (replicate 120 ''w'')) 50 10 = Some [c0, c1, c2] \<and>
       map (\<lambda>c. length (py_split c)) [c0, c1, c2] = [50, 50, 40] \<and>
       drop 40 (py_split c0) = take 10 (py_split c1))"
proof -
  have h: "length (py_split (py_join '' '' (replicate 120 ''w''))) = 120"
    by (simp add: py_split_join py_word_def py_isspace_def)
  show ?thesis
    using h chunk_text_spec_example [OF h] by blast
qed

lemma chunk_text_diverges_witness:
  "chunk_text ''a b'' 1 1 = None"
  using chunk_text_diverges [of 1 1 "''a b''"]
  by (simp add: py_split.simps py_isspace_def)

text \<open>
  An empty or whitespace-only text gives no chunks.
\<close>

lemma chunk_text_blank:
  "py_split text = [] \<Longrightarrow> chunk_text text chunk_size chunk_overlap = Some []"
  by (simp add: chunk_text_def chunk_loop.simps)

lemma chunk_text_blank_witness:
  "py_split '' \<newline> '' = [] \<and> chunk_text '' \<newline> '' 500 50 = Some []"
proof -
  have h: "py_split '' \<newline> '' = []"
    by (simp add: py_split.simps py_isspace_def)
  show ?thesis
    using h chunk_text_blank [OF h] by simp
qed

section \<open>Witnesses\<close>

lemma chunk_text_abc: "chunk_text ''a b c'' 2 1 = Some [''a b'', ''b c'']"
  by (simp add: chunk_text_def chunk_loop.simps py_split.simps py_isspace_def py_slice_def py_slice_index_def)

lemma chunk_text_windows_witness:
  "(0::int) \<le> 3 \<and> (1::int) < 3 \<and>
   chunk_text ''x y z w'' 3 1 = Some (map (py_join '' '') (windows 3 2 [''x'', ''y'', ''z'', ''w'']))"
proof -
  have h: "(0::int) \<le> 3" "(1::int) < 3" by simp_all
  have s: "py_split ''x y z w'' = [''x'', ''y'', ''z'', ''w'']"
    by (simp add: py_split.simps py_isspace_def)
  show ?thesis
    using h chunk_text_windows [OF h, of "''x y z w''"] s by simp
qed

lemma chunk_text_roundtrip_witness:
  "(0::int) \<le> 1 \<and> (1::int) < 2 \<and>
   (\<exists>cs. chunk_text ''a b c'' 2 1 = Some cs \<and> unwindow 1 (map py_split cs) = py_split ''a b c'')"
proof -
  have h: "(0::int) \<le> 1" "(1::int) < 2" by simp_all
  show ?thesis
    using h chunk_text_roundtrip [OF h, of "''a b c''"] by simp
qed

lemma chunk_text_shape_witness:
  "chunk_text ''a b c'' 2 1 = Some [''a b'', ''b c''] \<and>
   length (py_split ''a b'') = 2 \<and> drop 1 (py_split ''a b'') = take 1 (py_split ''b c'')"
proof -
  have h: "(0::int) \<le> 1" "(1::int) < 2" by simp_all
  have "length (py_split ([''a b'', ''b c''] ! 0)) = nat 2 \<and>
        drop (nat (2 - 1)) (py_split ([''a b'', ''b c''] ! 0)) =
        take (nat 1) (py_split ([''a b'', ''b c''] ! Suc 0))"
    using chunk_text_shape [OF h chunk_text_abc] by simp
  then show ?thesis
    using chunk_text_abc by simp
qed

end
