(* ===== verification/Metadata.thy ===== *)
theory Metadata
  imports PyLib
begin

text \<open>
  The configuration constants of \<^verbatim>\<open>src/ingest.py\<close> (lines 20--32) and the pure
  functions that derive a file's metadata and decide whether a path is indexed:
  \<^verbatim>\<open>get_file_language\<close> (106--119), \<^verbatim>\<open>get_project_name\<close> (121--135) and the
  extension and excluded-directory guards that open \<^verbatim>\<open>process_file\<close> (182--188).
  The source's module constants are one value of the record \<open>config\<close>, so that
  the engine's theorems hold for every configuration; \<open>cwd\<close> is the process's
  working directory, which \<^verbatim>\<open>os.path.relpath\<close> reads.
\<close>

section \<open>Configuration\<close>

record config =
  project_roots :: "path list"
  include_exts :: "string list"
  exclude_dirs :: "string list"
  cwd :: path

definition source_config :: config where
  "source_config =
     \<lparr>project_roots = [''/Path/To/Files''],
      include_exts =
        [''.php'', ''.js'', ''.jsx'', ''.ts'', ''.tsx'', ''.html'', ''.htm'', ''.css'',
         ''.scss'', ''.json'', ''.py'', ''.md'', ''.txt'', ''.xml'', ''.yml'', ''.yaml'',
         ''.sql'', ''.c'', ''.cpp'', ''.h'', ''.hpp''],
      exclude_dirs =
        [''node_modules'', ''.git'', ''vendor'', ''dist'', ''build'', ''cache'',
         ''__pycache__'', ''wp-admin'', ''wp-includes''],
      cwd = ''/''\<rparr>"

section \<open>Guards of process_file\<close>

text \<open>\<^verbatim>\<open>os.path.splitext(file_path)[1].lower() in INCLUDE_EXTENSIONS\<close>\<close>

definition has_included_ext :: "config \<Rightarrow> path \<Rightarrow> bool" where
  "has_included_ext cfg file_path \<longleftrightarrow>
     py_lower (py_splitext_ext file_path) \<in> set (include_exts cfg)"

text \<open>\<^verbatim>\<open>excluded_dir in os.path.normpath(file_path).split(os.sep)\<close> for some excluded name.\<close>

definition in_excluded_dir :: "config \<Rightarrow> path \<Rightarrow> bool" where
  "in_excluded_dir cfg file_path \<longleftrightarrow>
     (\<exists>d \<in> set (exclude_dirs cfg). d \<in> set (split_on (CHR ''/'') (py_normpath file_path)))"

definition is_indexable :: "config \<Rightarrow> path \<Rightarrow> bool" where
  "is_indexable cfg file_path \<longleftrightarrow>
     has_included_ext cfg file_path \<and> \<not> in_excluded_dir cfg file_path"

section \<open>Metadata\<close>

definition get_file_language :: "path \<Rightarrow> string" where
  "get_file_language file_path =
     (let ext = py_lower (py_splitext_ext file_path) in
      if ext \<in> {''.js'', ''.jsx'', ''.ts'', ''.tsx''} then ''javascript''
      else if ext = ''.php'' then ''php''
      else if ext = ''.py'' then ''python''
      else if ext \<in> {''.html'', ''.htm''} then ''html''
      else if ext \<in> {''.css'', ''.scss''} then ''css''
      else if ext \<in> {''.md'', ''.txt''} then ''markdown''
      else if ext = ''.json'' then ''json''
      else if ext = ''.xml'' then ''xml''
      else if ext \<in> {''.yml'', ''.yaml''} then ''yaml''
      else if ext = ''.sql'' then ''sql''
      else if ext \<in> {''.c'', ''.cpp'', ''.h'', ''.hpp''} then ''c_cpp''
      else ''unknown'')"

text \<open>
  \<^verbatim>\<open>get_project_name\<close>; \<open>None\<close> is the \<^verbatim>\<open>ValueError\<close> that \<^verbatim>\<open>os.path.relpath\<close>
  raises on an empty path.
\<close>

definition get_project_name :: "path \<Rightarrow> path \<Rightarrow> path list \<Rightarrow> string option" where
  "get_project_name cwd_dir file_path root_dirs =
     (if root_dirs = [] then Some ''unknown_project''
      else
        (let base_root0 = hd root_dirs;
             base_root = (if py_endswith base_root0 ''/'' then base_root0 else base_root0 @ ''/'')
         in if py_startswith file_path base_root then
              (case py_relpath cwd_dir file_path base_root of
                 None \<Rightarrow> None
               | Some relative_path \<Rightarrow>
                   Some (if CHR ''/'' \<in> set relative_path
                         then hd (split_on (CHR ''/'') relative_path)
                         else ''root_level_project''))
            else Some ''unknown_project''))"

section \<open>Properties of the metadata functions\<close>

theorem get_project_name_total:
  "get_project_name cwd_dir file_path root_dirs \<noteq> None"
proof -
  have "py_startswith file_path b \<Longrightarrow> py_endswith b ''/'' \<Longrightarrow> file_path \<noteq> []" for b
    by (auto simp: py_startswith_def py_endswith_def)
  then show ?thesis
    by (auto simp: get_project_name_def Let_def py_endswith_def py_startswith_def py_relpath_def
             split: option.splits)
qed

lemma in_excluded_dir_abs_path:
  assumes "xs \<noteq> []" and "\<forall>x \<in> set xs. clean_component x"
  shows "in_excluded_dir conf (abs_path xs) \<longleftrightarrow> (\<exists>d \<in> set (exclude_dirs conf). d = [] \<or> d \<in> set xs)"
  using py_normpath_abs_path [OF assms] split_on_abs_path [OF clean_no_slash [OF assms(2)]]
  by (simp add: in_excluded_dir_def)

text \<open>
  C36. The project name of a file below the first root, on a path of clean components,
  is the component that follows the root, or \<^verbatim>\<open>root_level_project\<close> for a file
  directly in the root; the working directory and the other roots do not matter.
\<close>

theorem get_project_name_clean:
  assumes "rs \<noteq> []" and clean: "\<forall>c \<in> set (rs @ proj # rest). clean_component c"
  shows "get_project_name cwd_dir (abs_path (rs @ proj # rest)) (abs_path rs # roots) =
           Some (if rest = [] then ''root_level_project'' else proj)"
proof -
  have cr: "\<forall>c \<in> set rs. clean_component c" using clean by simp
  have cy: "\<forall>c \<in> set (proj # rest). clean_component c" using clean by simp
  have base: "(if py_endswith (abs_path rs) ''/'' then abs_path rs else abs_path rs @ ''/'') = abs_path rs @ ''/''"
    using abs_path_not_endswith_slash [OF assms(1) cr] by simp
  have start: "py_startswith (abs_path (rs @ proj # rest)) (abs_path rs @ ''/'')"
    by (simp add: py_startswith_def abs_path_append abs_path_Cons)
  have rel: "py_relpath cwd_dir (abs_path (rs @ proj # rest)) (abs_path rs @ ''/'') =
             Some (py_join ''/'' (proj # rest))"
    using py_relpath_below [OF assms(1) _ clean] by simp
  have sp: "split_on (CHR ''/'') (py_join ''/'' (proj # rest)) = proj # rest"
    using split_on_py_join [OF _ cy] by simp
  have slash: "CHR ''/'' \<in> set (py_join ''/'' (proj # rest)) \<longleftrightarrow> rest \<noteq> []"
  proof
    assume "CHR ''/'' \<in> set (py_join ''/'' (proj # rest))"
    then show "rest \<noteq> []" using cy by (auto simp: clean_component_def)
  next
    assume "rest \<noteq> []"
    then show "CHR ''/'' \<in> set (py_join ''/'' (proj # rest))" by (cases rest) auto
  qed
  show ?thesis
    using base start rel sp slash by (simp add: get_project_name_def Let_def)
qed

text \<open>
  The metadata examples of the specification: with the root \<^verbatim>\<open>/proj\<close>, the file
  \<^verbatim>\<open>/proj/alpha/src/main.py\<close> belongs to project \<^verbatim>\<open>alpha\<close> and is Python,
  the file \<^verbatim>\<open>/proj/readme.md\<close> is a root-level project file in Markdown.
\<close>

theorem metadata_spec_examples:
  "get_project_name ''/'' ''/proj/alpha/src/main.py'' [''/proj''] = Some ''alpha'' \<and>
   get_file_language ''/proj/alpha/src/main.py'' = ''python'' \<and>
   get_project_name ''/'' ''/proj/readme.md'' [''/proj''] = Some ''root_level_project'' \<and>
   get_file_language ''/proj/readme.md'' = ''markdown''"
  by code_simp

lemma startswith_component_eq:
  assumes "CHR ''/'' \<notin> set x" "CHR ''/'' \<notin> set y" "take 1 v = [] \<or> take 1 v = ''/''"
    and "py_startswith (y @ v) (x @ CHR ''/'' # u)"
  shows "x = y"
  using assms
proof (induction x arbitrary: y)
  case Nil
  then show ?case by (cases y) (auto simp: py_startswith_def)
next
  case (Cons a x)
  then show ?case
  proof (cases y)
    case Nil
    with Cons.prems show ?thesis by (cases v) (auto simp: py_startswith_def)
  next
    case (Cons b ys)
    with Cons.prems Cons.IH [of ys] show ?thesis by (auto simp: py_startswith_def)
  qed
qed

lemma take1_abs_path: "take 1 (abs_path xs) = [] \<or> take 1 (abs_path xs) = ''/''"
  by (cases xs) (simp_all add: abs_path_Cons abs_path_def)

text \<open>
  C33. \<open>get_project_name\<close> consults only the first configured root: a file whose
  top-level directory differs from the first root's is an \<^verbatim>\<open>unknown_project\<close>,
  whatever the later roots are, also when one of them contains the file. The
  specification names the project as the directory below the root the file lives in.
\<close>

theorem get_project_name_first_root_only:
  assumes diff: "x \<noteq> y"
    and clean: "\<forall>c \<in> set (x # rs). clean_component c" "\<forall>c \<in> set (y # ys). clean_component c"
  shows "get_project_name cwd_dir (abs_path (y # ys)) (abs_path (x # rs) # later_roots) =
           Some ''unknown_project''"
proof -
  have cr: "\<forall>c \<in> set (x # rs). clean_component c" using clean by simp
  have base: "\<not> py_endswith (abs_path (x # rs)) ''/''"
    using abs_path_not_endswith_slash [OF _ cr] by simp
  have nx: "CHR ''/'' \<notin> set x" and ny: "CHR ''/'' \<notin> set y"
    using clean by (simp_all add: clean_component_def)
  have "\<not> py_startswith (abs_path (y # ys)) (abs_path (x # rs) @ ''/'')"
  proof
    assume "py_startswith (abs_path (y # ys)) (abs_path (x # rs) @ ''/'')"
    then have "py_startswith (y @ abs_path ys) (x @ CHR ''/'' # tl (abs_path rs @ ''/''))"
      using take1_abs_path [of rs]
      by (cases "abs_path rs") (auto simp: abs_path_Cons py_startswith_def)
    then show False
      using startswith_component_eq [OF nx ny take1_abs_path] diff by blast
  qed
  then show ?thesis using base by (simp add: get_project_name_def)
qed

text \<open>
  Every extension of the source's include list is mapped to a known language.
\<close>

theorem included_ext_known_language:
  "has_included_ext source_config file_path \<Longrightarrow> get_file_language file_path \<noteq> ''unknown''"
  by (auto simp: has_included_ext_def source_config_def get_file_language_def Let_def)

lemma included_ext_known_language_witness:
  "has_included_ext source_config ''/srv/app/main.py'' \<and>
   get_file_language ''/srv/app/main.py'' \<noteq> ''unknown''"
proof -
  have h: "has_included_ext source_config ''/srv/app/main.py''"
    by code_simp
  show ?thesis
    using h included_ext_known_language [OF h] by simp
qed

theorem get_project_name_first_root_only_witness:
  "''proj'' \<noteq> ''srv'' \<and>
   get_project_name ''/'' (abs_path [''srv'', ''beta'', ''main.py'']) [abs_path [''proj''], abs_path [''srv'']] =
     Some ''unknown_project''"
proof -
  have h: "''proj'' \<noteq> ''srv''" "\<forall>c \<in> set [''proj'']. clean_component c"
    "\<forall>c \<in> set [''srv'', ''beta'', ''main.py'']. clean_component c"
    by (simp_all add: clean_component_def)
  show ?thesis using h get_project_name_first_root_only [OF h, of "''/''" "[abs_path [''srv'']]"] by simp
qed

theorem get_project_name_clean_witness:
  "get_project_name ''/'' (abs_path [''proj'', ''alpha'', ''src'', ''main.py'']) [abs_path [''proj'']] = Some ''alpha''"
proof -
  have h: "[''proj''] \<noteq> []" "\<forall>c \<in> set ([''proj''] @ ''alpha'' # [''src'', ''main.py'']). clean_component c"
    by (simp_all add: clean_component_def)
  show ?thesis using get_project_name_clean [OF h, of "''/''" "[]"] by simp
qed

end
