(* ===== verification/Store.thy ===== *)
theory Store
  imports Prelude
begin

text \<open>
  The vector-store collaborator: the ChromaDB collection object that
  \<^verbatim>\<open>src/ingest.py\<close> holds in \<^verbatim>\<open>chroma_collection\<close> and calls through
  \<^verbatim>\<open>collection.delete(where={"file_path": p})\<close> and
  \<^verbatim>\<open>collection.add(documents=..., embeddings=..., metadatas=..., ids=...)\<close>.
  This is a library the repository only calls; it is modelled from its interface
  (the spec's section 6) and is not part of the map. A record stored in the
  collection carries the metadata the engine writes (ingest.py 225--231).

  The collection is a list of records in insertion order. Every call may fail
  with a network or server error: \<open>faults\<close> is the schedule of outcomes of
  the coming calls, \<open>True\<close> for a call that raises, consumed one per call; when
  it is empty every call succeeds. A failed call changes nothing on the server.
  \<open>log\<close> records the calls that succeeded, oldest first: the order in which the
  engine's deletions and insertions reached the store.
\<close>

record metadata =
  md_file_path :: path
  md_project_name :: string
  md_language :: string
  md_chunk_id :: string
  md_last_accessed :: string

record vrecord =
  vr_id :: string
  vr_embedding :: vector
  vr_document :: string
  vr_metadata :: metadata

datatype store_call = Delete path | Add "vrecord list"

record store =
  items :: "vrecord list"
  log :: "store_call list"
  faults :: "bool list"

definition record_path :: "vrecord \<Rightarrow> path" where
  "record_path r = md_file_path (vr_metadata r)"

definition records_of :: "path \<Rightarrow> vrecord list \<Rightarrow> vrecord list" where
  "records_of p rs = filter (\<lambda>r. record_path r = p) rs"

definition next_fault :: "store \<Rightarrow> bool \<times> store" where
  "next_fault s = (case faults s of [] \<Rightarrow> (False, s) | b # bs \<Rightarrow> (b, s\<lparr>faults := bs\<rparr>))"

text \<open>\<^verbatim>\<open>collection.delete(where={"file_path": p})\<close>; the flag is \<open>True\<close> when the call raised.\<close>

definition coll_delete :: "path \<Rightarrow> store \<Rightarrow> store \<times> bool" where
  "coll_delete p s =
     (let (err, s') = next_fault s in
      if err then (s', True)
      else (s'\<lparr>items := filter (\<lambda>r. record_path r \<noteq> p) (items s'),
               log := log s' @ [Delete p]\<rparr>, False))"

text \<open>\<^verbatim>\<open>collection.add(...)\<close>; an empty batch is rejected by the client.\<close>

definition coll_add :: "vrecord list \<Rightarrow> store \<Rightarrow> store \<times> bool" where
  "coll_add rs s =
     (let (err, s') = next_fault s in
      if err \<or> rs = [] then (s', True)
      else (s'\<lparr>items := items s' @ rs, log := log s' @ [Add rs]\<rparr>, False))"

text \<open>
  The records of \<open>p\<close> in the most recent successful \<^verbatim>\<open>add\<close> that stored any:
  the batch the spec calls the chunk set most recently ingested for \<open>p\<close>.
\<close>

fun last_add :: "path \<Rightarrow> store_call list \<Rightarrow> vrecord list" where
  "last_add p [] = []"
| "last_add p (x # xs) =
     (if last_add p xs \<noteq> [] then last_add p xs
      else (case x of Add rs \<Rightarrow> records_of p rs | Delete q \<Rightarrow> []))"

section \<open>Characteristic equations\<close>

lemma next_fault_frame:
  "next_fault s = (b, s') \<Longrightarrow> items s' = items s \<and> log s' = log s"
  by (auto simp: next_fault_def split: list.splits)

lemma coll_delete_ok [store_simps]:
  "coll_delete p s = (s', False) \<Longrightarrow>
   items s' = filter (\<lambda>r. record_path r \<noteq> p) (items s) \<and> log s' = log s @ [Delete p]"
  by (auto simp: coll_delete_def split: prod.splits if_splits dest: next_fault_frame)

lemma coll_delete_err [store_simps]:
  "coll_delete p s = (s', True) \<Longrightarrow> items s' = items s \<and> log s' = log s"
  by (auto simp: coll_delete_def split: prod.splits if_splits dest: next_fault_frame)

lemma coll_add_ok [store_simps]:
  "coll_add rs s = (s', False) \<Longrightarrow> items s' = items s @ rs \<and> log s' = log s @ [Add rs] \<and> rs \<noteq> []"
  by (auto simp: coll_add_def split: prod.splits if_splits dest: next_fault_frame)

lemma coll_add_err [store_simps]:
  "coll_add rs s = (s', True) \<Longrightarrow> items s' = items s \<and> log s' = log s"
  by (auto simp: coll_add_def split: prod.splits if_splits dest: next_fault_frame)

lemma coll_delete_healthy [store_simps]:
  "faults s = [] \<Longrightarrow>
   coll_delete p s = (s\<lparr>items := filter (\<lambda>r. record_path r \<noteq> p) (items s),
                       log := log s @ [Delete p]\<rparr>, False)"
  by (simp add: coll_delete_def next_fault_def)

lemma coll_add_healthy [store_simps]:
  "faults s = [] \<Longrightarrow> rs \<noteq> [] \<Longrightarrow>
   coll_add rs s = (s\<lparr>items := items s @ rs, log := log s @ [Add rs]\<rparr>, False)"
  by (simp add: coll_add_def next_fault_def)

lemma records_of_filter_other [simp]:
  "records_of q (filter (\<lambda>r. record_path r \<noteq> p) rs) = (if q = p then [] else records_of q rs)"
  by (induction rs) (auto simp: records_of_def)

lemma last_add_Delete [simp]: "last_add p (xs @ [Delete q]) = last_add p xs"
  by (induction xs) auto

lemma last_add_Add [simp]:
  "last_add p (xs @ [Add rs]) = (if records_of p rs \<noteq> [] then records_of p rs else last_add p xs)"
  by (induction xs) auto

lemma records_of_append [simp]:
  "records_of q (xs @ ys) = records_of q xs @ records_of q ys"
  by (simp add: records_of_def)

end
