(* ===== verification/Ledger.thy ===== *)
theory Ledger
  imports Prelude
begin

text \<open>
  The change ledger of \<^verbatim>\<open>src/ingest.py\<close>: the module dictionary
  \<^verbatim>\<open>processed_files_state\<close> (line 38), mapping a file path to
  \<^verbatim>\<open>{"mtime": ..., "hash": ...}\<close> (line 244), its persistence by
  \<^verbatim>\<open>save_processed_files_state\<close> (86--93) and its load in
  \<^verbatim>\<open>initialize_components\<close> (75--82).

  A Python \<^verbatim>\<open>dict\<close> is an association list with distinct keys in insertion
  order: assigning an existing key keeps its position, a new key goes last,
  \<^verbatim>\<open>del\<close> removes the key. The abstraction to a map is \<^const>\<open>map_of\<close>;
  the lemmas of the last section are the refinement of the map operations by the
  dictionary operations. The state file on disk is \<open>Missing\<close>, \<open>Corrupt\<close>
  (any content \<^verbatim>\<open>json.load\<close> rejects) or the JSON text of a dictionary, which
  is represented by the dictionary it encodes.
\<close>

record file_state =
  fs_mtime :: timestamp
  fs_hash :: string

type_synonym ledger = "(path \<times> file_state) list"

section \<open>Dictionary operations\<close>

definition dict_get :: "('k \<times> 'v) list \<Rightarrow> 'k \<Rightarrow> 'v option" where
  "dict_get d = map_of d"

definition dict_set :: "('k \<times> 'v) list \<Rightarrow> 'k \<Rightarrow> 'v \<Rightarrow> ('k \<times> 'v) list" where
  "dict_set d k v =
     (if k \<in> set (map fst d) then map (\<lambda>(k', v'). if k' = k then (k', v) else (k', v')) d
      else d @ [(k, v)])"

text \<open>\<^verbatim>\<open>del d[k]\<close>; the source only deletes a key it has just found in the dictionary.\<close>

definition dict_del :: "('k \<times> 'v) list \<Rightarrow> 'k \<Rightarrow> ('k \<times> 'v) list" where
  "dict_del d k = filter (\<lambda>(k', _). k' \<noteq> k) d"

definition dict_wf :: "('k \<times> 'v) list \<Rightarrow> bool" where
  "dict_wf d \<longleftrightarrow> distinct (map fst d)"

section \<open>Persistence\<close>

datatype state_file = Missing | Corrupt | Stored ledger

text \<open>
  \<^verbatim>\<open>initialize_components\<close>, lines 75--82: when the file does not exist the
  dictionary keeps its value (the empty initial value of line 38 at startup); a file
  that cannot be read or that \<^verbatim>\<open>json.load\<close> rejects is caught and gives the
  empty dictionary.
\<close>

definition load_processed_files_state :: "state_file \<Rightarrow> ledger \<Rightarrow> ledger" where
  "load_processed_files_state f current =
     (case f of Missing \<Rightarrow> current | Corrupt \<Rightarrow> [] | Stored d \<Rightarrow> d)"

definition save_processed_files_state :: "ledger \<Rightarrow> state_file" where
  "save_processed_files_state d = Stored d"

text \<open>
  How the save of lines 86--93 can end. \<^verbatim>\<open>open(..., 'w')\<close> may raise, leaving the
  file as it was. Or the open truncates the file and \<^verbatim>\<open>json.dump\<close> raises part way
  (a full disk, a lost mount): the file then holds a proper prefix of a JSON object,
  which \<^verbatim>\<open>json.load\<close> rejects. The \<^verbatim>\<open>except\<close> of line 92 only prints.
\<close>

datatype save_fault = Save_ok | Open_error | Write_error

definition save_processed_files_state_io :: "save_fault \<Rightarrow> ledger \<Rightarrow> state_file \<Rightarrow> state_file" where
  "save_processed_files_state_io fault d old =
     (case fault of
        Save_ok \<Rightarrow> save_processed_files_state d
      | Open_error \<Rightarrow> old
      | Write_error \<Rightarrow> Corrupt)"

section \<open>Refinement of maps by dictionaries\<close>

lemma dict_get_set [ledger_simps]: "dict_get (dict_set d k v) = (dict_get d)(k \<mapsto> v)"
proof (cases "k \<in> set (map fst d)")
  case True
  show ?thesis
  proof
    fix x
    show "dict_get (dict_set d k v) x = ((dict_get d)(k \<mapsto> v)) x"
      using True by (cases "x = k")
        (simp_all add: dict_get_def dict_set_def map_of_update_other map_of_update_key)
  qed
next
  case False
  then show ?thesis
    unfolding dict_get_def dict_set_def using map_of_snoc_new [OF False] by simp
qed

lemma dict_get_del [ledger_simps]: "dict_get (dict_del d k) = (dict_get d)(k := None)"
  by (simp add: dict_get_def dict_del_def)

lemma dict_wf_set [ledger_simps]: "dict_wf d \<Longrightarrow> dict_wf (dict_set d k v)"
  by (simp add: dict_wf_def dict_set_def)

lemma dict_wf_del [ledger_simps]: "dict_wf d \<Longrightarrow> dict_wf (dict_del d k)"
  by (auto simp: dict_wf_def dict_del_def)

lemma dict_keys_set:
  "map fst (dict_set d k v) = (if k \<in> set (map fst d) then map fst d else map fst d @ [k])"
  by (simp add: dict_set_def)

lemma load_save [ledger_simps]:
  "load_processed_files_state (save_processed_files_state d) current = d"
  by (simp add: load_processed_files_state_def save_processed_files_state_def)

text \<open>
  The dictionary operations the engine uses refine the map operations: on a
  well-formed dictionary, assignment and deletion keep the keys distinct and act on
  lookup as map update and removal.
\<close>

theorem ledger_dict_refines_map:
  assumes "dict_wf d"
  shows "dict_wf (dict_set d k v) \<and> dict_get (dict_set d k v) = (dict_get d)(k \<mapsto> v) \<and>
         dict_wf (dict_del d k) \<and> dict_get (dict_del d k) = (dict_get d)(k := None)"
  using assms by (simp add: ledger_simps)

theorem ledger_dict_refines_map_witness:
  "dict_get (dict_set [(''/a'', \<lparr>fs_mtime = 1, fs_hash = ''h''\<rparr>)] ''/b'' \<lparr>fs_mtime = 2, fs_hash = ''k''\<rparr>) ''/a'' =
     Some \<lparr>fs_mtime = 1, fs_hash = ''h''\<rparr>"
proof -
  have h: "dict_wf [(''/a'', \<lparr>fs_mtime = 1, fs_hash = ''h''\<rparr>)]" by (simp add: dict_wf_def)
  show ?thesis
    using ledger_dict_refines_map [OF h, of "''/b''" "\<lparr>fs_mtime = 2, fs_hash = ''k''\<rparr>"]
    by (simp add: dict_get_def)
qed

end
