(* ===== verification/Engine.thy ===== *)
theory Engine
  imports Chunker Metadata Store Ledger
begin

text \<open>
  The synchronisation engine of \<^verbatim>\<open>src/ingest.py\<close>: the fingerprint of a file
  (\<^verbatim>\<open>os.path.getmtime\<close> and \<^verbatim>\<open>calculate_file_hash\<close>, 164--174), its text
  (\<^verbatim>\<open>get_file_content\<close>, 151--162), the embedding call (\<^verbatim>\<open>get_embedding\<close>,
  95--104), and the two operations \<^verbatim>\<open>process_file\<close> (176--250) and
  \<^verbatim>\<open>remove_deleted_file_from_chroma\<close> (252--264).

  The module globals become explicit state. \<open>ctx\<close> holds what
  \<^verbatim>\<open>initialize_components\<close> sets once: the configuration, the digest function
  (MD5's hex digest, a parameter), the embedding model (\<open>None\<close> when it failed to
  load; for a loaded model, \<open>None\<close> on a text whose \<^verbatim>\<open>encode\<close> raises) and
  whether the collection handle exists. \<open>world\<close> holds what the operations change
  or read: the file system, the collection, \<^verbatim>\<open>processed_files_state\<close>, the
  state file on disk, the source of fresh \<^verbatim>\<open>uuid4()\<close> values (a counter) and
  the values \<^verbatim>\<open>datetime.now().isoformat()\<close> returns. \<^verbatim>\<open>now()\<close> and
  \<^verbatim>\<open>uuid4()\<close> are called together, once per kept chunk (lines 230 and 235), so
  the uuid counter also counts the calls of \<^verbatim>\<open>now()\<close>, and \<open>clock k\<close> is the
  reading of its \<open>k\<close>-th call. A ghost counter \<open>ledger_writes\<close> counts the writes
  of the ledger file, which a watcher of its directory observes. The \<^verbatim>\<open>try/except Exception\<close> around the body of
  \<^verbatim>\<open>process_file\<close> is the rule that an error ends the operation with the
  changes made so far: every error branch below returns the world as it is at
  that point. Text is read as latin-1, whose decoding is the identity on the
  model's 8-bit characters.
\<close>

section \<open>State\<close>

record fentry =
  f_content :: string
  f_mtime :: timestamp
  f_readable :: bool

record ctx =
  cfg :: config
  md5 :: "string \<Rightarrow> string"
  embed_model :: "(string \<Rightarrow> vector option) option"
  collection_ready :: bool

record world =
  files :: "path \<rightharpoonup> fentry"
  coll :: store
  state :: ledger
  state_file :: state_file
  uuid_next :: nat
  clock :: "nat \<Rightarrow> string"
  ledger_writes :: nat

section \<open>Fingerprint and content\<close>

text \<open>\<^verbatim>\<open>os.path.getmtime\<close>: \<open>None\<close> is \<^verbatim>\<open>FileNotFoundError\<close>; it needs no read permission.\<close>

definition os_getmtime :: "world \<Rightarrow> path \<Rightarrow> timestamp option" where
  "os_getmtime w p = map_option f_mtime (files w p)"

text \<open>\<^verbatim>\<open>calculate_file_hash\<close>: the empty string when the file cannot be opened.\<close>

definition calculate_file_hash :: "ctx \<Rightarrow> world \<Rightarrow> path \<Rightarrow> string" where
  "calculate_file_hash c w p =
     (case files w p of
        Some f \<Rightarrow> if f_readable f then md5 c (f_content f) else []
      | None \<Rightarrow> [])"

definition get_file_content :: "world \<Rightarrow> path \<Rightarrow> string option" where
  "get_file_content w p =
     (case files w p of
        Some f \<Rightarrow> if f_readable f then Some (f_content f) else None
      | None \<Rightarrow> None)"

section \<open>Embeddings and records\<close>

definition get_embedding :: "ctx \<Rightarrow> string \<Rightarrow> vector option" where
  "get_embedding c text_chunk =
     (case embed_model c of None \<Rightarrow> None | Some encode \<Rightarrow> encode text_chunk)"

text \<open>\<^verbatim>\<open>if embedding:\<close> is Python truthiness: \<open>None\<close> and the empty list are false.\<close>

definition embedding_ok :: "ctx \<Rightarrow> string \<Rightarrow> bool" where
  "embedding_ok c text_chunk \<longleftrightarrow>
     (case get_embedding c text_chunk of None \<Rightarrow> False | Some e \<Rightarrow> e \<noteq> [])"

definition uuid_str :: "nat \<Rightarrow> string" where
  "uuid_str u = nat_str u"

definition make_record ::
  "path \<Rightarrow> string \<Rightarrow> string \<Rightarrow> string \<Rightarrow> nat \<Rightarrow> nat \<Rightarrow> string \<Rightarrow> vector \<Rightarrow> vrecord" where
  "make_record file_path project_name language ts i u chunk embedding =
     \<lparr>vr_id = file_path @ ''_'' @ nat_str i @ ''_'' @ uuid_str u,
      vr_embedding = embedding,
      vr_document = chunk,
      vr_metadata = \<lparr>md_file_path = file_path, md_project_name = project_name,
                     md_language = language, md_chunk_id = nat_str i,
                     md_last_accessed = ts\<rparr>\<rparr>"

text \<open>
  The loop \<^verbatim>\<open>for i, chunk in enumerate(chunks)\<close> (lines 222--235): a chunk whose
  embedding fails is skipped; a fresh uuid is drawn only for a chunk that is kept.
  The source collects four parallel lists; their zip is the list of records.
\<close>

fun embed_chunks ::
  "ctx \<Rightarrow> path \<Rightarrow> string \<Rightarrow> string \<Rightarrow> (nat \<Rightarrow> string) \<Rightarrow> nat \<Rightarrow> nat \<Rightarrow> string list \<Rightarrow>
   vrecord list \<times> nat" where
  "embed_chunks c p project_name language ts i u [] = ([], u)"
| "embed_chunks c p project_name language ts i u (chunk # chunks) =
     (case get_embedding c chunk of
        Some e \<Rightarrow>
          if e \<noteq> [] then
            (let (rs, u') = embed_chunks c p project_name language ts (Suc i) (Suc u) chunks
             in (make_record p project_name language (ts u) i u chunk e # rs, u'))
          else embed_chunks c p project_name language ts (Suc i) u chunks
      | None \<Rightarrow> embed_chunks c p project_name language ts (Suc i) u chunks)"

section \<open>process_file\<close>

text \<open>
  Lines 205--235: read the text, chunk it, derive the metadata and embed every
  chunk. \<open>None\<close> is an early \<^verbatim>\<open>return\<close> (unreadable text, no chunks) or the
  unreachable branches of \<open>chunk_text_default\<close> (it never diverges,
  \<open>chunk_text_default_terminates\<close>) and of \<open>get_project_name\<close> (it never raises,
  \<open>get_project_name_total\<close>). The result depends on the files, the clock and the
  uuid source only.
\<close>

definition prepare_records :: "ctx \<Rightarrow> path \<Rightarrow> world \<Rightarrow> (vrecord list \<times> nat) option" where
  "prepare_records c p w =
     (case get_file_content w p of
        None \<Rightarrow> None
      | Some content \<Rightarrow>
          (case chunk_text_default content of
             None \<Rightarrow> None
           | Some chunks \<Rightarrow>
               if chunks = [] then None
               else
                 (case get_project_name (cwd (cfg c)) p (project_roots (cfg c)) of
                    None \<Rightarrow> None
                  | Some project_name \<Rightarrow>
                      Some (embed_chunks c p project_name (get_file_language p) (clock w) 0
                              (uuid_next w) chunks))))"

text \<open>Lines 237--247: one \<^verbatim>\<open>add\<close> call for the kept chunks, then the new fingerprint.\<close>

definition ingest_content :: "ctx \<Rightarrow> path \<Rightarrow> file_state \<Rightarrow> world \<Rightarrow> world" where
  "ingest_content c p current w =
     (case prepare_records c p w of
        None \<Rightarrow> w
      | Some (recs, u') \<Rightarrow>
          if recs = [] then w\<lparr>uuid_next := u'\<rparr>
          else
            (let (s', err) = coll_add recs (coll w)
             in if err then w\<lparr>coll := s', uuid_next := u'\<rparr>
                else w\<lparr>coll := s', uuid_next := u', state := dict_set (state w) p current\<rparr>))"

definition process_file :: "ctx \<Rightarrow> path \<Rightarrow> world \<Rightarrow> world" where
  "process_file c p w =
     (if \<not> collection_ready c \<or> embed_model c = None then w
      else if \<not> has_included_ext (cfg c) p then w
      else if in_excluded_dir (cfg c) p then w
      else
        (case os_getmtime w p of
           None \<Rightarrow> w
         | Some current_mtime \<Rightarrow>
             (let current_hash = calculate_file_hash c w p;
                  current = \<lparr>fs_mtime = current_mtime, fs_hash = current_hash\<rparr>
              in case dict_get (state w) p of
                   Some old_state \<Rightarrow>
                     if fs_mtime old_state = current_mtime \<and> fs_hash old_state = current_hash
                     then w
                     else
                       (let (s', err) = coll_delete p (coll w)
                        in if err then w\<lparr>coll := s'\<rparr>
                           else ingest_content c p current (w\<lparr>coll := s'\<rparr>))
                 | None \<Rightarrow> ingest_content c p current w)))"

section \<open>remove_deleted_file_from_chroma\<close>

definition remove_deleted_file :: "ctx \<Rightarrow> path \<Rightarrow> world \<Rightarrow> world" where
  "remove_deleted_file c p w =
     (if \<not> collection_ready c then w
      else if dict_get (state w) p = None then w
      else
        (let (s', err) = coll_delete p (coll w)
         in if err then w\<lparr>coll := s'\<rparr>
            else w\<lparr>coll := s', state := dict_del (state w) p\<rparr>))"

definition save_state :: "world \<Rightarrow> world" where
  "save_state w = w\<lparr>state_file := save_processed_files_state (state w), ledger_writes := Suc (ledger_writes w)\<rparr>"

section \<open>The synchronisation invariant\<close>

text \<open>
  What the engine keeps true between operations, in the terms of the ghost log of
  the store (\<open>Store\<close>): the ledger is a dictionary, every stored chunk belongs to a
  file the ledger tracks, and the chunks of a file are exactly the records of the
  latest \<^verbatim>\<open>add\<close> call for it (never a mix of two versions). It is the
  specification's VectorRecord invariant and the direction \<open>chunks \<Longrightarrow> entry\<close> of its
  FileRecord invariant; the converse direction does not hold (see the findings).
\<close>

definition sync_inv :: "world \<Rightarrow> bool" where
  "sync_inv w \<longleftrightarrow>
     dict_wf (state w) \<and>
     (\<forall>r \<in> set (items (coll w)).
        dict_get (state w) (record_path r) \<noteq> None \<and>
        records_of (record_path r) (items (coll w)) = last_add (record_path r) (log (coll w)))"

text \<open>
  Record ids are \<^verbatim>\<open>f"{file_path}_{i}_{uuid.uuid4()}"\<close>; the uuid source is a
  counter, so a fresh uuid is one not drawn before. \<open>uuid_of_id\<close> reads the uuid
  back from the last field of an id; \<open>ids_fresh\<close> says the stored ids are distinct
  and every uuid in them was drawn before the current value of the counter.
\<close>

definition uuid_of_id :: "string \<Rightarrow> nat" where
  "uuid_of_id rid = py_int_of_str (rev (takeWhile (\<lambda>c. c \<noteq> CHR ''_'') (rev rid)))"

definition ids_fresh :: "world \<Rightarrow> bool" where
  "ids_fresh w \<longleftrightarrow>
     distinct (map vr_id (items (coll w))) \<and>
     (\<forall>r \<in> set (items (coll w)). uuid_of_id (vr_id r) < uuid_next w)"

text \<open>
  A stored record is well formed when its embedding is non-empty, its
  \<^verbatim>\<open>chunk_id\<close> is a decimal numeral, and its id is the file path, the chunk id and
  the uuid joined by underscores, as line 235 builds it.
\<close>

definition wf_record :: "vrecord \<Rightarrow> bool" where
  "wf_record r \<longleftrightarrow>
     vr_embedding r \<noteq> [] \<and>
     md_chunk_id (vr_metadata r) = nat_str (py_int_of_str (md_chunk_id (vr_metadata r))) \<and>
     vr_id r = md_file_path (vr_metadata r) @ ''_'' @ md_chunk_id (vr_metadata r) @ ''_'' @
               uuid_str (uuid_of_id (vr_id r))"

definition records_wf :: "world \<Rightarrow> bool" where
  "records_wf w \<longleftrightarrow> (\<forall>r \<in> set (items (coll w)). wf_record r)"

section \<open>A concrete deployment\<close>

text \<open>
  The inputs the witnesses run on: the source's configuration with the single root
  \<^verbatim>\<open>/proj\<close>, a digest function (the identity stands in for MD5), a model that
  embeds every chunk, and a file system with one Python file.
\<close>

definition example_ctx :: ctx where
  "example_ctx = \<lparr>cfg = source_config\<lparr>project_roots := [''/proj'']\<rparr>, md5 = (\<lambda>s. s),
                   embed_model = Some (\<lambda>s. Some [1]), collection_ready = True\<rparr>"

definition example_file :: fentry where
  "example_file = \<lparr>f_content = ''hello world'', f_mtime = 1, f_readable = True\<rparr>"

definition example_world :: world where
  "example_world =
     \<lparr>files = [''/proj/a/x.py'' \<mapsto> example_file], coll = \<lparr>items = [], log = [], faults = []\<rparr>,
      state = [], state_file = Missing, uuid_next = 0, clock = (\<lambda>k. ''t'' @ nat_str k),
      ledger_writes = 0\<rparr>"

abbreviation example_path :: path where
  "example_path \<equiv> ''/proj/a/x.py''"

text \<open>
  The example file after its first ingestion; then touched (same content, new
  mtime), blanked (whitespace only), and touched under a store whose \<^verbatim>\<open>delete\<close>
  succeeds and whose next \<^verbatim>\<open>add\<close> raises.
\<close>

definition example_synced :: world where
  "example_synced = process_file example_ctx example_path example_world"

definition example_touched :: world where
  "example_touched = example_synced\<lparr>files := [example_path \<mapsto> example_file\<lparr>f_mtime := 2\<rparr>]\<rparr>"

definition example_blanked :: world where
  "example_blanked =
     example_synced\<lparr>files := [example_path \<mapsto> \<lparr>f_content = '' '', f_mtime = 2, f_readable = True\<rparr>]\<rparr>"

definition example_add_fails :: world where
  "example_add_fails = example_touched\<lparr>coll := (coll example_touched)\<lparr>faults := [False, True]\<rparr>\<rparr>"


section \<open>Records, uuids and the outcome of one ingestion\<close>

lemma embed_chunks_facts:
  "embed_chunks c p pn la ts i u chs = (rs, u') \<Longrightarrow>
   (\<forall>r \<in> set rs. record_path r = p) \<and> map vr_document rs = filter (embedding_ok c) chs \<and>
   u' = u + length rs"
proof (induction chs arbitrary: i u rs u')
  case Nil
  then show ?case by simp
next
  case (Cons ch chs)
  show ?case
  proof (cases "embedding_ok c ch")
    case True
    then obtain e where e: "get_embedding c ch = Some e" "e \<noteq> []"
      by (auto simp: embedding_ok_def split: option.splits)
    obtain rs' where rs': "embed_chunks c p pn la ts (Suc i) (Suc u) chs = (rs', u')"
      and rs: "rs = make_record p pn la (ts u) i u ch e # rs'"
      using Cons.prems e by (auto split: prod.splits)
    from Cons.IH [OF rs'(1)] rs True show ?thesis
      by (simp add: make_record_def record_path_def)
  next
    case False
    then have "embed_chunks c p pn la ts (Suc i) u chs = (rs, u')"
      using Cons.prems by (auto simp: embedding_ok_def split: option.splits if_splits)
    from Cons.IH [OF this] False show ?thesis by simp
  qed
qed

lemma prepare_records_facts:
  "prepare_records c p w = Some (recs, u') \<Longrightarrow>
   (\<forall>r \<in> set recs. record_path r = p) \<and> u' = uuid_next w + length recs"
  by (auto simp: prepare_records_def split: option.splits if_splits dest: embed_chunks_facts)

lemma prepare_records_cong:
  assumes "files w' = files w" and "clock w' = clock w" and "uuid_next w' = uuid_next w"
  shows "prepare_records c p w' = prepare_records c p w"
  by (simp only: prepare_records_def get_file_content_def assms)

lemma ingest_content_outcome:
  assumes "ingest_content c p cur w = w'"
  shows "files w' = files w \<and> clock w' = clock w \<and> state_file w' = state_file w \<and>
    ((items (coll w') = items (coll w) \<and> log (coll w') = log (coll w) \<and> state w' = state w) \<or>
     (\<exists>recs. recs \<noteq> [] \<and> (\<forall>r \<in> set recs. record_path r = p) \<and>
        items (coll w') = items (coll w) @ recs \<and> log (coll w') = log (coll w) @ [Add recs] \<and>
        state w' = dict_set (state w) p cur))"
proof (cases "prepare_records c p w")
  case None
  with assms show ?thesis by (simp add: ingest_content_def)
next
  case (Some a)
  obtain recs u' where a: "a = (recs, u')" by fastforce
  have paths: "\<forall>r \<in> set recs. record_path r = p"
    using prepare_records_facts Some a by blast
  obtain s' err where add: "coll_add recs (coll w) = (s', err)" by fastforce
  show ?thesis
  proof (cases "recs = [] \<or> err")
    case True
    with assms Some a add show ?thesis
      using coll_add_err [of recs "coll w" s'] by (auto simp: ingest_content_def)
  next
    case False
    with assms Some a add paths show ?thesis
      using coll_add_ok [of recs "coll w" s'] by (auto simp: ingest_content_def)
  qed
qed

section \<open>The branches of process_file\<close>

lemma process_file_cases:
  obtains (same) "process_file c p w = w"
  | (del_fail) s' where "coll_delete p (coll w) = (s', True)" "process_file c p w = w\<lparr>coll := s'\<rparr>"
  | (del_ingest) s' f where "dict_get (state w) p \<noteq> None" "files w p = Some f"
      "coll_delete p (coll w) = (s', False)"
      "process_file c p w =
         ingest_content c p \<lparr>fs_mtime = f_mtime f, fs_hash = calculate_file_hash c w p\<rparr> (w\<lparr>coll := s'\<rparr>)"
  | (ingest) f where "dict_get (state w) p = None" "files w p = Some f"
      "process_file c p w =
         ingest_content c p \<lparr>fs_mtime = f_mtime f, fs_hash = calculate_file_hash c w p\<rparr> w"
proof -
  consider (guard) "\<not> collection_ready c \<or> embed_model c = None \<or> \<not> has_included_ext (cfg c) p \<or>
                    in_excluded_dir (cfg c) p \<or> files w p = None"
    | (run) f m where "collection_ready c" "embed_model c = Some m" "has_included_ext (cfg c) p"
        "\<not> in_excluded_dir (cfg c) p" "files w p = Some f"
    by fastforce
  then show thesis
  proof cases
    case guard
    then have "process_file c p w = w"
      by (auto simp: process_file_def os_getmtime_def)
    then show thesis by (rule same)
  next
    case run
    let ?cur = "\<lparr>fs_mtime = f_mtime f, fs_hash = calculate_file_hash c w p\<rparr>"
    have pf: "process_file c p w =
        (case dict_get (state w) p of
           Some old_state \<Rightarrow>
             if fs_mtime old_state = f_mtime f \<and> fs_hash old_state = calculate_file_hash c w p then w
             else (let (s', err) = coll_delete p (coll w)
                   in if err then w\<lparr>coll := s'\<rparr> else ingest_content c p ?cur (w\<lparr>coll := s'\<rparr>))
         | None \<Rightarrow> ingest_content c p ?cur w)"
      using run by (simp add: process_file_def os_getmtime_def Let_def)
    show thesis
    proof (cases "dict_get (state w) p")
      case None
      with pf run show thesis by (intro ingest) simp_all
    next
      case (Some old_state)
      obtain s' err where del: "coll_delete p (coll w) = (s', err)" by fastforce
      consider "fs_mtime old_state = f_mtime f \<and> fs_hash old_state = calculate_file_hash c w p"
        | "\<not> (fs_mtime old_state = f_mtime f \<and> fs_hash old_state = calculate_file_hash c w p)" "err"
        | "\<not> (fs_mtime old_state = f_mtime f \<and> fs_hash old_state = calculate_file_hash c w p)" "\<not> err"
        by blast
      then show thesis
      proof cases
        case 1
        with pf Some show thesis by (intro same) simp
      next
        case 2
        with pf Some del show thesis by (intro del_fail [where s' = s']) simp_all
      next
        case 3
        with pf Some del run show thesis by (intro del_ingest [where s' = s' and f = f]) simp_all
      qed
    qed
  qed
qed

section \<open>Preservation of the invariant\<close>

lemma records_of_Nil_iff: "records_of p rs = [] \<longleftrightarrow> (\<forall>r \<in> set rs. record_path r \<noteq> p)"
  by (auto simp: records_of_def filter_empty_conv)

lemma records_of_all: "\<forall>r \<in> set rs. record_path r = p \<Longrightarrow> records_of p rs = rs"
  by (simp add: records_of_def)

lemma records_of_none: "\<forall>r \<in> set rs. record_path r = p \<Longrightarrow> q \<noteq> p \<Longrightarrow> records_of q rs = []"
  by (auto simp: records_of_Nil_iff)

lemma sync_inv_store_frame:
  "sync_inv w \<Longrightarrow> items s' = items (coll w) \<Longrightarrow> log s' = log (coll w) \<Longrightarrow> sync_inv (w\<lparr>coll := s'\<rparr>)"
  by (simp add: sync_inv_def)

lemma sync_inv_delete:
  assumes "sync_inv w" and "coll_delete p (coll w) = (s', False)"
  shows "sync_inv (w\<lparr>coll := s'\<rparr>)" and "records_of p (items s') = []"
proof -
  from assms(2) have s': "items s' = filter (\<lambda>r. record_path r \<noteq> p) (items (coll w))"
    "log s' = log (coll w) @ [Delete p]"
    using coll_delete_ok by blast+
  with assms(1) show "sync_inv (w\<lparr>coll := s'\<rparr>)"
    by (auto simp: sync_inv_def)
  from s' show "records_of p (items s') = []" by simp
qed

lemma sync_inv_add:
  assumes inv: "sync_inv w" and none: "records_of p (items (coll w)) = []"
    and ne: "recs \<noteq> []" and paths: "\<forall>r \<in> set recs. record_path r = p"
    and items': "items (coll w') = items (coll w) @ recs"
    and log': "log (coll w') = log (coll w) @ [Add recs]"
    and state': "state w' = dict_set (state w) p cur"
  shows "sync_inv w'"
proof -
  have recs_p: "records_of p recs = recs"
    using paths by (rule records_of_all)
  have "records_of q (items (coll w')) = last_add q (log (coll w'))"
    if "q \<in> record_path ` set (items (coll w'))" for q
  proof (cases "q = p")
    case True
    with none recs_p ne items' log' show ?thesis by simp
  next
    case False
    then have "records_of q recs = []" using records_of_none [OF paths] by blast
    moreover from that False paths items' obtain r where "r \<in> set (items (coll w))" "record_path r = q"
      by auto
    ultimately show ?thesis
      using inv items' log' by (auto simp: sync_inv_def)
  qed
  moreover have "dict_get (state w') (record_path r) \<noteq> None" if "r \<in> set (items (coll w'))" for r
    using that inv items' state' paths by (auto simp: sync_inv_def ledger_simps)
  ultimately show ?thesis
    using inv state' by (auto simp: sync_inv_def ledger_simps)
qed

lemma sync_inv_ingest:
  assumes "sync_inv w" and "records_of p (items (coll w)) = []"
  shows "sync_inv (ingest_content c p cur w)"
proof -
  let ?w' = "ingest_content c p cur w"
  from ingest_content_outcome [OF refl, of c p cur w] consider
      "items (coll ?w') = items (coll w)" "log (coll ?w') = log (coll w)" "state ?w' = state w"
    | recs where "recs \<noteq> []" "\<forall>r \<in> set recs. record_path r = p"
      "items (coll ?w') = items (coll w) @ recs" "log (coll ?w') = log (coll w) @ [Add recs]"
      "state ?w' = dict_set (state w) p cur"
    by blast
  then show ?thesis
  proof cases
    case 1
    with assms(1) show ?thesis by (simp add: sync_inv_def)
  next
    case (2 recs)
    show ?thesis
      by (rule sync_inv_add [OF assms 2])
  qed
qed

lemma sync_inv_untracked:
  "sync_inv w \<Longrightarrow> dict_get (state w) p = None \<Longrightarrow> records_of p (items (coll w)) = []"
  unfolding sync_inv_def records_of_Nil_iff by metis

lemma sync_inv_process_file:
  assumes inv: "sync_inv w"
  shows "sync_inv (process_file c p w)"
proof (cases rule: process_file_cases [of c p w])
  case same
  then show ?thesis using inv by simp
next
  case (del_fail s')
  then have "items s' = items (coll w) \<and> log s' = log (coll w)"
    by (simp add: coll_delete_err)
  with del_fail(2) inv show ?thesis
    by (simp add: sync_inv_store_frame)
next
  case (del_ingest s' f)
  have "sync_inv (w\<lparr>coll := s'\<rparr>)" and "records_of p (items s') = []"
    using sync_inv_delete [OF inv del_ingest(3)] by simp_all
  then have "sync_inv (ingest_content c p \<lparr>fs_mtime = f_mtime f, fs_hash = calculate_file_hash c w p\<rparr>
                        (w\<lparr>coll := s'\<rparr>))"
    by (simp add: sync_inv_ingest)
  with del_ingest(4) show ?thesis by simp
next
  case (ingest f)
  have "records_of p (items (coll w)) = []"
    using sync_inv_untracked [OF inv ingest(1)] .
  with inv ingest(3) show ?thesis
    by (simp add: sync_inv_ingest)
qed

text \<open>
  C3. \<open>process_file\<close> preserves the synchronisation invariant, whatever the
  file system, the model and the failures of the store: every stored chunk stays
  tracked, and the chunks of a file are never a mix of two versions.
\<close>

theorem process_file_preserves_inv: "sync_inv w \<Longrightarrow> sync_inv (process_file c p w)"
  by (rule sync_inv_process_file)

lemma sync_inv_drop_entry:
  assumes "sync_inv w" and "records_of p (items (coll w)) = []"
  shows "sync_inv (w\<lparr>state := dict_del (state w) p\<rparr>)"
proof -
  have "record_path r \<noteq> p" if "r \<in> set (items (coll w))" for r
    using assms(2) that by (auto simp: records_of_Nil_iff)
  with assms(1) show ?thesis
    by (auto simp: sync_inv_def ledger_simps)
qed

lemma sync_inv_remove:
  assumes inv: "sync_inv w"
  shows "sync_inv (remove_deleted_file c p w)"
proof -
  obtain s' err where del: "coll_delete p (coll w) = (s', err)" by fastforce
  show ?thesis
  proof (cases "\<not> collection_ready c \<or> dict_get (state w) p = None")
    case True
    with inv show ?thesis by (auto simp: remove_deleted_file_def)
  next
    case False
    then obtain old where ready: "collection_ready c" and tracked: "dict_get (state w) p = Some old"
      by auto
    show ?thesis
    proof (cases err)
      case True
      with del have "items s' = items (coll w) \<and> log s' = log (coll w)"
        by (simp add: coll_delete_err)
      with ready tracked True del inv show ?thesis
        by (simp add: remove_deleted_file_def sync_inv_store_frame)
    next
      case err: False
      with del have "sync_inv (w\<lparr>coll := s'\<rparr>)" and "records_of p (items s') = []"
        using sync_inv_delete [OF inv] by simp_all
      then have "sync_inv ((w\<lparr>coll := s'\<rparr>)\<lparr>state := dict_del (state (w\<lparr>coll := s'\<rparr>)) p\<rparr>)"
        by (intro sync_inv_drop_entry) simp_all
      with ready tracked err del show ?thesis
        by (simp add: remove_deleted_file_def)
    qed
  qed
qed

text \<open>
  C4. \<open>remove_deleted_file_from_chroma\<close> preserves the synchronisation invariant,
  also when the store's \<^verbatim>\<open>delete\<close> raises.
\<close>

theorem remove_preserves_inv: "sync_inv w \<Longrightarrow> sync_inv (remove_deleted_file c p w)"
  by (rule sync_inv_remove)

section \<open>Idempotence and call order\<close>

lemma remove_untracked_noop:
  "dict_get (state w) p = None \<Longrightarrow> remove_deleted_file c p w = w"
  by (simp add: remove_deleted_file_def)

text \<open>
  C13. On a store whose calls succeed, removing a file twice is removing it once.
\<close>

theorem remove_idempotent:
  assumes "faults (coll w) = []"
  shows "remove_deleted_file c p (remove_deleted_file c p w) = remove_deleted_file c p w"
proof (cases "\<not> collection_ready c \<or> dict_get (state w) p = None")
  case True
  then show ?thesis by (auto simp: remove_deleted_file_def)
next
  case False
  with assms have "dict_get (state (remove_deleted_file c p w)) p = None"
    by (simp add: remove_deleted_file_def coll_delete_healthy ledger_simps)
  then show ?thesis by (rule remove_untracked_noop)
qed

lemma process_file_not_indexable:
  "\<not> is_indexable (cfg c) p \<Longrightarrow> process_file c p w = w"
  by (auto simp: process_file_def is_indexable_def)

lemma process_file_vanished:
  "files w p = None \<Longrightarrow> process_file c p w = w"
  by (simp add: process_file_def os_getmtime_def)

lemma process_file_same_fingerprint:
  "files w p = Some f \<Longrightarrow>
   dict_get (state w) p = Some \<lparr>fs_mtime = f_mtime f, fs_hash = calculate_file_hash c w p\<rparr> \<Longrightarrow>
   process_file c p w = w"
  by (simp add: process_file_def os_getmtime_def Let_def)

lemma ingest_content_log:
  "\<exists>ds. log (coll (ingest_content c p cur w)) = log (coll w) @ ds \<and>
        (ds = [] \<or> (\<exists>rs. ds = [Add rs]))"
  using ingest_content_outcome [OF refl, of c p cur w] by auto

text \<open>
  C11. One \<open>process_file\<close> makes at most two store calls, in this order: a
  \<^verbatim>\<open>delete\<close> of the file's chunks, then one \<^verbatim>\<open>add\<close>; an \<^verbatim>\<open>add\<close> without a
  \<^verbatim>\<open>delete\<close> before it happens only for a file the ledger does not track.
\<close>

theorem process_file_call_order:
  "\<exists>ds. log (coll (process_file c p w)) = log (coll w) @ ds \<and>
        (ds = [] \<or> ds = [Delete p] \<or> (\<exists>rs. ds = [Add rs] \<and> dict_get (state w) p = None) \<or>
         (\<exists>rs. ds = [Delete p, Add rs]))"
proof (cases rule: process_file_cases [of c p w])
  case same
  then show ?thesis by simp
next
  case (del_fail s')
  then show ?thesis by (simp add: coll_delete_err)
next
  case (del_ingest s' f)
  then have "log s' = log (coll w) @ [Delete p]"
    by (simp add: coll_delete_ok)
  with del_ingest(4) show ?thesis
    using ingest_content_log [of c p "\<lparr>fs_mtime = f_mtime f, fs_hash = calculate_file_hash c w p\<rparr>"
                                "w\<lparr>coll := s'\<rparr>"]
    by auto
next
  case (ingest f)
  with ingest_content_log [of c p "\<lparr>fs_mtime = f_mtime f, fs_hash = calculate_file_hash c w p\<rparr>" w]
  show ?thesis by auto
qed

section \<open>Convergence and idempotence of process_file\<close>

lemma prepare_records_Some:
  assumes "get_file_content w p = Some content" and "chunk_text_default content = Some chunks"
    and "chunks \<noteq> []"
  shows "\<exists>recs u'. prepare_records c p w = Some (recs, u') \<and>
                   map vr_document recs = filter (embedding_ok c) chunks"
proof -
  obtain pn where pn: "get_project_name (cwd (cfg c)) p (project_roots (cfg c)) = Some pn"
    using get_project_name_total by blast
  obtain recs u' where e: "embed_chunks c p pn (get_file_language p) (clock w) 0 (uuid_next w) chunks = (recs, u')"
    by fastforce
  with assms pn show ?thesis
    using embed_chunks_facts [OF e] by (simp add: prepare_records_def)
qed

text \<open>A readable file with an embeddable chunk yields a non-empty batch of its records.\<close>

lemma prepare_records_batch:
  assumes "get_file_content w p = Some content" and "chunk_text_default content = Some chunks"
    and some_ok: "\<exists>ch \<in> set chunks. embedding_ok c ch"
  obtains recs u' where "prepare_records c p w = Some (recs, u')"
    "map vr_document recs = filter (embedding_ok c) chunks" "recs \<noteq> []" "records_of p recs = recs"
proof -
  have "chunks \<noteq> []" using some_ok by auto
  then obtain recs u' where prep: "prepare_records c p w = Some (recs, u')"
    and docs: "map vr_document recs = filter (embedding_ok c) chunks"
    using prepare_records_Some [OF assms(1,2)] by blast
  have "recs \<noteq> []"
  proof
    assume "recs = []"
    with docs have "filter (embedding_ok c) chunks = []" by simp
    with some_ok show False by (auto simp: filter_empty_conv)
  qed
  moreover have "records_of p recs = recs"
    using prepare_records_facts [OF prep] by (simp add: records_of_all)
  ultimately show thesis using that prep docs by blast
qed

lemma ingest_content_adds:
  assumes "prepare_records c p w = Some (recs, u')" and "recs \<noteq> []" and "faults (coll w) = []"
  shows "items (coll (ingest_content c p cur w)) = items (coll w) @ recs \<and>
         state (ingest_content c p cur w) = dict_set (state w) p cur"
  using assms by (simp add: ingest_content_def coll_add_healthy)

lemma process_file_reprocess:
  assumes "collection_ready c" and "embed_model c = Some m" and "is_indexable (cfg c) p"
    and "files w p = Some f" and "dict_get (state w) p \<noteq> Some (\<lparr>fs_mtime = f_mtime f, fs_hash = calculate_file_hash c w p\<rparr>)"
  shows "process_file c p w =
           (case dict_get (state w) p of
              None \<Rightarrow> ingest_content c p (\<lparr>fs_mtime = f_mtime f, fs_hash = calculate_file_hash c w p\<rparr>) w
            | Some old \<Rightarrow>
                (let (s', err) = coll_delete p (coll w)
                 in if err then w\<lparr>coll := s'\<rparr>
                    else ingest_content c p (\<lparr>fs_mtime = f_mtime f, fs_hash = calculate_file_hash c w p\<rparr>) (w\<lparr>coll := s'\<rparr>)))"
  using assms
  by (auto simp: process_file_def os_getmtime_def Let_def is_indexable_def
           split: option.splits)

lemma prepare_records_nothing:
  assumes "get_file_content w p = Some content" and "chunk_text_default content = Some chunks"
    and "filter (embedding_ok c) chunks = []"
  shows "prepare_records c p w = None \<or> (\<exists>u. prepare_records c p w = Some ([], u))"
proof (cases "chunks = []")
  case True
  with assms(1,2) show ?thesis by (simp add: prepare_records_def)
next
  case False
  then obtain recs u' where "prepare_records c p w = Some (recs, u')"
    and "map vr_document recs = []"
    using prepare_records_Some [OF assms(1,2)] assms(3) by fastforce
  then show ?thesis by simp
qed


lemma process_file_syncs:
  assumes inv: "sync_inv w" and healthy: "faults (coll w) = []"
    and ready: "collection_ready c" "embed_model c = Some m" and idx: "is_indexable (cfg c) p"
    and present: "files w p = Some f" "f_readable f"
    and changed: "dict_get (state w) p \<noteq> Some \<lparr>fs_mtime = f_mtime f, fs_hash = md5 c (f_content f)\<rparr>"
    and chunks: "chunk_text_default (f_content f) = Some chunks"
    and some_ok: "\<exists>ch \<in> set chunks. embedding_ok c ch"
  shows "map vr_document (records_of p (items (coll (process_file c p w)))) =
           filter (embedding_ok c) chunks \<and>
         dict_get (state (process_file c p w)) p =
           Some \<lparr>fs_mtime = f_mtime f, fs_hash = md5 c (f_content f)\<rparr>"
proof -
  let ?cur = "\<lparr>fs_mtime = f_mtime f, fs_hash = calculate_file_hash c w p\<rparr>"
  have cur: "?cur = \<lparr>fs_mtime = f_mtime f, fs_hash = md5 c (f_content f)\<rparr>"
    using present by (simp add: calculate_file_hash_def)
  have content: "get_file_content w p = Some (f_content f)"
    using present by (simp add: get_file_content_def)
  obtain recs u' where prep: "prepare_records c p w = Some (recs, u')"
    and docs: "map vr_document recs = filter (embedding_ok c) chunks" and ne: "recs \<noteq> []"
    and paths: "records_of p recs = recs"
    using prepare_records_batch [OF content chunks some_ok] by blast
  have pf: "process_file c p w =
           (case dict_get (state w) p of
              None \<Rightarrow> ingest_content c p ?cur w
            | Some old \<Rightarrow>
                (let (s', err) = coll_delete p (coll w)
                 in if err then w\<lparr>coll := s'\<rparr> else ingest_content c p ?cur (w\<lparr>coll := s'\<rparr>)))"
    using process_file_reprocess [OF ready idx present(1)] changed cur by simp
  show ?thesis
  proof (cases "dict_get (state w) p")
    case None
    have "records_of p (items (coll w)) = []"
      using sync_inv_untracked [OF inv None] .
    with pf None prep ne healthy paths docs cur show ?thesis
      using ingest_content_adds [OF prep ne healthy, of ?cur] by (simp add: ledger_simps)
  next
    case (Some old)
    let ?w1 = "w\<lparr>coll := (coll w)\<lparr>items := filter (\<lambda>r. record_path r \<noteq> p) (items (coll w)),
                                     log := log (coll w) @ [Delete p]\<rparr>\<rparr>"
    have prep1: "prepare_records c p ?w1 = Some (recs, u')"
      using prep prepare_records_cong [of ?w1 w c p] by simp
    have "process_file c p w = ingest_content c p ?cur ?w1"
      using pf Some healthy by (simp add: coll_delete_healthy)
    with prep1 ne healthy paths docs cur show ?thesis
      using ingest_content_adds [OF prep1 ne, of ?cur] by (simp add: ledger_simps)
  qed
qed

text \<open>
  C5. After \<open>process_file\<close> on a new or changed readable file with at least one
  embeddable chunk (healthy store), the file's stored chunks are exactly its chunks
  whose embedding succeeded, in order, and the ledger holds its current
  fingerprint.
\<close>

theorem process_file_converges:
  assumes inv: "sync_inv w" and healthy: "faults (coll w) = []"
    and ready: "collection_ready c" "embed_model c = Some m" and idx: "is_indexable (cfg c) p"
    and present: "files w p = Some f" "f_readable f"
    and changed: "dict_get (state w) p \<noteq> Some \<lparr>fs_mtime = f_mtime f, fs_hash = md5 c (f_content f)\<rparr>"
    and chunks: "chunk_text_default (f_content f) = Some chunks"
    and some_ok: "\<exists>ch \<in> set chunks. embedding_ok c ch"
  shows "map vr_document (records_of p (items (coll (process_file c p w)))) =
           filter (embedding_ok c) chunks \<and>
         dict_get (state (process_file c p w)) p =
           Some \<lparr>fs_mtime = f_mtime f, fs_hash = md5 c (f_content f)\<rparr>"
  by (rule process_file_syncs [OF assms])

lemma ingest_content_no_records:
  "prepare_records c p w = None \<or> (\<exists>u. prepare_records c p w = Some ([], u)) \<Longrightarrow>
   ingest_content c p cur w = w"
proof (elim disjE exE)
  assume "prepare_records c p w = None"
  then show ?thesis by (simp add: ingest_content_def)
next
  fix u
  assume prep: "prepare_records c p w = Some ([], u)"
  then have "u = uuid_next w"
    using prepare_records_facts by fastforce
  with prep show ?thesis by (simp add: ingest_content_def)
qed

lemma calculate_file_hash_cong:
  "files w' = files w \<Longrightarrow> calculate_file_hash c w' p = calculate_file_hash c w p"
  by (simp add: calculate_file_hash_def)

lemma process_file_run_cases:
  obtains (noop) "process_file c p w = w"
  | (run) m f where "collection_ready c" "embed_model c = Some m" "is_indexable (cfg c) p"
      "files w p = Some f"
      "dict_get (state w) p \<noteq> Some \<lparr>fs_mtime = f_mtime f, fs_hash = calculate_file_hash c w p\<rparr>"
proof (cases "collection_ready c \<and> embed_model c \<noteq> None \<and> is_indexable (cfg c) p \<and> files w p \<noteq> None")
  case False
  then have "process_file c p w = w"
    by (auto simp: process_file_def is_indexable_def os_getmtime_def)
  then show thesis by (rule noop)
next
  case True
  then obtain m f where g: "collection_ready c" "embed_model c = Some m" "is_indexable (cfg c) p"
    "files w p = Some f" by auto
  show thesis
  proof (cases "dict_get (state w) p = Some \<lparr>fs_mtime = f_mtime f, fs_hash = calculate_file_hash c w p\<rparr>")
    case True
    with g(4) show thesis by (intro noop process_file_same_fingerprint)
  next
    case False
    with g show thesis by (rule run)
  qed
qed

text \<open>Under a healthy store, the world \<open>ingest_content\<close> starts from.\<close>

lemma process_file_healthy_run:
  assumes healthy: "faults (coll w) = []"
    and run: "collection_ready c" "embed_model c = Some m" "is_indexable (cfg c) p"
      "files w p = Some f"
      "dict_get (state w) p \<noteq> Some \<lparr>fs_mtime = f_mtime f, fs_hash = calculate_file_hash c w p\<rparr>"
  shows "process_file c p w =
           ingest_content c p \<lparr>fs_mtime = f_mtime f, fs_hash = calculate_file_hash c w p\<rparr>
             (if dict_get (state w) p = None then w
              else w\<lparr>coll := (coll w)\<lparr>items := filter (\<lambda>r. record_path r \<noteq> p) (items (coll w)),
                                      log := log (coll w) @ [Delete p]\<rparr>\<rparr>)"
  using process_file_reprocess [OF run] healthy
  by (auto simp: coll_delete_healthy split: option.splits)

text \<open>
  C12. On a store whose calls succeed, running \<open>process_file\<close> twice on a path leaves
  the collection and the ledger as one run does.
\<close>

theorem process_file_idempotent:
  assumes healthy: "faults (coll w) = []"
  shows "items (coll (process_file c p (process_file c p w))) = items (coll (process_file c p w)) \<and>
         state (process_file c p (process_file c p w)) = state (process_file c p w)"
proof (cases rule: process_file_run_cases [of c p w])
  case noop
  then show ?thesis by simp
next
  case (run m f)
  let ?cur = "\<lparr>fs_mtime = f_mtime f, fs_hash = calculate_file_hash c w p\<rparr>"
  let ?w0 = "if dict_get (state w) p = None then w
             else w\<lparr>coll := (coll w)\<lparr>items := filter (\<lambda>r. record_path r \<noteq> p) (items (coll w)),
                                     log := log (coll w) @ [Delete p]\<rparr>\<rparr>"
  have pf: "process_file c p w = ingest_content c p ?cur ?w0"
    using process_file_healthy_run [OF healthy run] .
  have prep0: "prepare_records c p ?w0 = prepare_records c p w"
    by (rule prepare_records_cong) simp_all
  show ?thesis
  proof (cases "prepare_records c p w = None \<or> (\<exists>u. prepare_records c p w = Some ([], u))")
    case True
    then have w1: "process_file c p w = ?w0"
      using pf prep0 by (simp only: ingest_content_no_records)
    show ?thesis
    proof (cases "dict_get (state w) p = None")
      case True
      with w1 show ?thesis by simp
    next
      case tracked: False
      define wd where "wd = w\<lparr>coll := (coll w)\<lparr>items := filter (\<lambda>r. record_path r \<noteq> p) (items (coll w)),
                                     log := log (coll w) @ [Delete p]\<rparr>\<rparr>"
      have w1': "process_file c p w = wd" using w1 tracked by (simp add: wd_def)
      have healthy0: "faults (coll wd) = []" using healthy by (simp add: wd_def)
      have fd: "files wd = files w" and sd: "state wd = state w" by (simp_all add: wd_def)
      have hd: "calculate_file_hash c wd p = calculate_file_hash c w p"
        by (rule calculate_file_hash_cong [OF fd])
      define wdd where "wdd = wd\<lparr>coll := (coll wd)\<lparr>items := filter (\<lambda>r. record_path r \<noteq> p) (items (coll wd)),
                                     log := log (coll wd) @ [Delete p]\<rparr>\<rparr>"
      have "process_file c p wd = ingest_content c p \<lparr>fs_mtime = f_mtime f, fs_hash = calculate_file_hash c wd p\<rparr> wdd"
        using process_file_healthy_run [OF healthy0 run(1-3), of f] run(4,5) fd sd hd tracked
        by (simp add: wdd_def)
      also have "\<dots> = wdd"
      proof (rule ingest_content_no_records)
        have "prepare_records c p wdd = prepare_records c p w"
          by (rule prepare_records_cong) (simp_all add: wdd_def wd_def)
        with True show "prepare_records c p wdd = None \<or> (\<exists>u. prepare_records c p wdd = Some ([], u))"
          by simp
      qed
      finally show ?thesis
        using w1' by (simp add: wdd_def wd_def)
    qed
  next
    case False
    then obtain recs u' where prep: "prepare_records c p w = Some (recs, u')" and ne: "recs \<noteq> []"
      by (cases "prepare_records c p w") auto
    have st: "state (process_file c p w) = dict_set (state w) p ?cur"
      using ingest_content_adds [of c p ?w0 recs u' ?cur] pf prep0 prep ne healthy by simp
    have fl: "files (process_file c p w) = files w"
      using pf ingest_content_outcome [OF refl, of c p ?cur ?w0] by simp
    have "process_file c p (process_file c p w) = process_file c p w"
    proof (rule process_file_same_fingerprint)
      show "files (process_file c p w) p = Some f" using fl run(4) by simp
      show "dict_get (state (process_file c p w)) p =
            Some \<lparr>fs_mtime = f_mtime f, fs_hash = calculate_file_hash c (process_file c p w) p\<rparr>"
        using st fl calculate_file_hash_cong [of "process_file c p w" w c p] by (simp add: ledger_simps)
    qed
    then show ?thesis by simp
  qed
qed


section \<open>Record ids and chunk positions\<close>

lemma uuid_of_make_record: "uuid_of_id (vr_id (make_record p pn la ts i u ch e)) = u"
proof -
  have "takeWhile (\<lambda>c. c \<noteq> CHR ''_'') (rev (nat_str u) @ CHR ''_'' # rest) = rev (nat_str u)" for rest
    by (subst takeWhile_append2) (auto dest: nat_str_digits)
  then show ?thesis
    by (simp add: uuid_of_id_def make_record_def uuid_str_def nat_str_roundtrip)
qed

lemma embed_chunks_records:
  "embed_chunks c p pn la ts i u chunks = (rs, u') \<Longrightarrow>
   map (uuid_of_id \<circ> vr_id) rs = [u..<u'] \<and>
   map (\<lambda>r. (md_chunk_id (vr_metadata r), vr_document r)) rs =
     map (\<lambda>(k, ch). (nat_str k, ch)) (filter (\<lambda>(k, ch). embedding_ok c ch) (enumerate i chunks)) \<and>
   (\<forall>r \<in> set rs. md_file_path (vr_metadata r) = p \<and> md_project_name (vr_metadata r) = pn \<and>
                  md_language (vr_metadata r) = la \<and> md_last_accessed (vr_metadata r) = ts (uuid_of_id (vr_id r)))"
proof (induction chunks arbitrary: i u rs u')
  case Nil
  then show ?case by simp
next
  case (Cons ch chs)
  show ?case
  proof (cases "embedding_ok c ch")
    case True
    then obtain e where e: "get_embedding c ch = Some e" "e \<noteq> []"
      by (auto simp: embedding_ok_def split: option.splits)
    obtain rs' where rs': "embed_chunks c p pn la ts (Suc i) (Suc u) chs = (rs', u')"
      and rs: "rs = make_record p pn la (ts u) i u ch e # rs'"
      using Cons.prems e by (auto split: prod.splits)
    have "u' = Suc u + length rs'" using embed_chunks_facts [OF rs'] by simp
    then have "[u..<u'] = u # [Suc u..<u']" by (simp add: upt_rec)
    with Cons.IH [OF rs'] rs True show ?thesis
      by (simp add: uuid_of_make_record enumerate_Suc_eq) (simp add: make_record_def)
  next
    case False
    then have "embed_chunks c p pn la ts (Suc i) u chs = (rs, u')"
      using Cons.prems by (auto simp: embedding_ok_def split: option.splits if_splits)
    from Cons.IH [OF this] False show ?thesis by (simp add: enumerate_Suc_eq)
  qed
qed


lemma prepare_records_uuids:
  "prepare_records c p w = Some (recs, u') \<Longrightarrow> map (uuid_of_id \<circ> vr_id) recs = [uuid_next w..<u']"
  by (auto simp: prepare_records_def split: option.splits if_splits dest: embed_chunks_records)

lemma ids_fresh_add:
  assumes fresh: "ids_fresh w"
    and uu: "map (uuid_of_id \<circ> vr_id) recs = [uuid_next w..<u']" and ne: "recs \<noteq> []"
  shows "distinct (map vr_id (items (coll w) @ recs)) \<and>
         (\<forall>r \<in> set (items (coll w) @ recs). uuid_of_id (vr_id r) < u')"
proof -
  have d: "distinct (map vr_id recs)"
  proof -
    have "distinct (map (uuid_of_id \<circ> vr_id) recs)" using uu by simp
    then show ?thesis by (metis distinct_map map_map)
  qed
  have new: "uuid_next w \<le> uuid_of_id (vr_id r) \<and> uuid_of_id (vr_id r) < u'" if "r \<in> set recs" for r
  proof -
    have "uuid_of_id (vr_id r) \<in> set (map (uuid_of_id \<circ> vr_id) recs)" using that by simp
    then show ?thesis using uu by simp
  qed
  have le: "uuid_next w \<le> u'"
    using new ne by (meson le_less_trans less_imp_le_nat list.set_sel(1))
  have disj: "set (map vr_id (items (coll w))) \<inter> set (map vr_id recs) = {}"
  proof -
    have "uuid_of_id x < uuid_next w" if "x \<in> set (map vr_id (items (coll w)))" for x
      using that fresh by (auto simp: ids_fresh_def)
    moreover have "uuid_next w \<le> uuid_of_id x" if "x \<in> set (map vr_id recs)" for x
      using that new by auto
    ultimately show ?thesis by force
  qed
  have old: "uuid_of_id (vr_id r) < u'" if "r \<in> set (items (coll w))" for r
    using that fresh le by (auto simp: ids_fresh_def)
  show ?thesis
    using fresh d disj new old by (auto simp: ids_fresh_def)
qed

lemma ids_fresh_ingest:
  assumes "ids_fresh w"
  shows "ids_fresh (ingest_content c p cur w)"
proof (cases "prepare_records c p w")
  case None
  with assms show ?thesis by (simp add: ingest_content_def)
next
  case (Some a)
  obtain recs u' where a: "a = (recs, u')" by fastforce
  have uu: "map (uuid_of_id \<circ> vr_id) recs = [uuid_next w..<u']"
    using prepare_records_uuids Some a by simp
  have u': "u' = uuid_next w + length recs"
    using prepare_records_facts Some a by blast
  obtain s' err where add: "coll_add recs (coll w) = (s', err)" by fastforce
  have frame: "ids_fresh (w\<lparr>coll := s'', uuid_next := u'\<rparr>)" if "items s'' = items (coll w)" for s''
    using assms that u' by (auto simp: ids_fresh_def)
  consider "recs = []" | "recs \<noteq> []" "err" | "recs \<noteq> []" "\<not> err" by blast
  then show ?thesis
  proof cases
    case 1
    with Some a u' assms show ?thesis by (simp add: ingest_content_def)
  next
    case 2
    then have "items s' = items (coll w)" using add coll_add_err [of recs "coll w" s'] by simp
    with Some a add 2 frame [of s'] show ?thesis by (auto simp: ingest_content_def)
  next
    case 3
    then have "items s' = items (coll w) @ recs" using add coll_add_ok [of recs "coll w" s'] by simp
    with ids_fresh_add [OF assms uu 3(1)] Some a add 3 show ?thesis
      by (simp add: ingest_content_def ids_fresh_def)
  qed
qed

lemma ids_fresh_process_file:
  assumes that: "ids_fresh w"
  shows "ids_fresh (process_file c p w)"
proof (cases rule: process_file_cases [of c p w])
  case same
  then show ?thesis using that by simp
next
  case (del_fail s')
  then show ?thesis using that by (simp add: ids_fresh_def coll_delete_err)
next
  case (del_ingest s' f)
  have "ids_fresh (w\<lparr>coll := s'\<rparr>)"
    using that del_ingest(3) by (auto simp: ids_fresh_def distinct_map_filter dest!: coll_delete_ok)
  then show ?thesis using del_ingest(4) by (simp add: ids_fresh_ingest)
next
  case (ingest f)
  then show ?thesis using that by (simp add: ids_fresh_ingest)
qed

lemma ids_fresh_remove: "ids_fresh w \<Longrightarrow> ids_fresh (remove_deleted_file c p w)"
proof -
  assume fresh: "ids_fresh w"
  obtain s' err where del: "coll_delete p (coll w) = (s', err)" by fastforce
  with fresh show ?thesis
    by (cases err)
      (auto simp: remove_deleted_file_def ids_fresh_def distinct_map_filter dest!: coll_delete_ok coll_delete_err)
qed

lemma ids_fresh_save [simp]: "ids_fresh (save_state w) = ids_fresh w"
  by (simp add: ids_fresh_def save_state_def)

text \<open>
  C20. The records of one \<^verbatim>\<open>add\<close> call carry, in order, the chunks whose
  embedding succeeded, each with its position in the file as \<^verbatim>\<open>chunk_id\<close> (with gaps
  where embeddings failed), the file's path, project and language, and consecutive
  fresh uuids. Each record's timestamp is the reading of its own call of
  \<^verbatim>\<open>datetime.now()\<close>, the call made with the \<^verbatim>\<open>uuid4()\<close> of its id.
\<close>

theorem embed_chunks_metadata:
  "embed_chunks c p pn la ts i u chunks = (rs, u') \<Longrightarrow>
   map (uuid_of_id \<circ> vr_id) rs = [u..<u'] \<and>
   map (\<lambda>r. (md_chunk_id (vr_metadata r), vr_document r)) rs =
     map (\<lambda>(k, ch). (nat_str k, ch)) (filter (\<lambda>(k, ch). embedding_ok c ch) (enumerate i chunks)) \<and>
   (\<forall>r \<in> set rs. md_file_path (vr_metadata r) = p \<and> md_project_name (vr_metadata r) = pn \<and>
                  md_language (vr_metadata r) = la \<and> md_last_accessed (vr_metadata r) = ts (uuid_of_id (vr_id r)))"
  by (rule embed_chunks_records)

section \<open>Well-formed records\<close>

lemma make_record_wf: "e \<noteq> [] \<Longrightarrow> wf_record (make_record p pn la ts i u ch e)"
proof -
  assume "e \<noteq> []"
  moreover have "uuid_of_id (vr_id (make_record p pn la ts i u ch e)) = u" by (rule uuid_of_make_record)
  ultimately show ?thesis
    by (simp add: wf_record_def make_record_def nat_str_roundtrip)
qed

lemma embed_chunks_wf:
  "embed_chunks c p pn la ts i u chunks = (rs, u') \<Longrightarrow> \<forall>r \<in> set rs. wf_record r"
proof (induction chunks arbitrary: i u rs u')
  case (Cons ch chs)
  then show ?case
    by (auto simp: make_record_wf split: option.splits if_splits prod.splits)
qed simp

lemma ingest_content_items:
  "items (coll (ingest_content c p cur w)) = items (coll w) \<or>
   (\<exists>recs u'. prepare_records c p w = Some (recs, u') \<and>
              items (coll (ingest_content c p cur w)) = items (coll w) @ recs)"
proof (cases "prepare_records c p w")
  case (Some a)
  obtain recs u' where a: "a = (recs, u')" by fastforce
  obtain s' err where add: "coll_add recs (coll w) = (s', err)" by fastforce
  show ?thesis
    using Some a add coll_add_ok [of recs "coll w" s'] coll_add_err [of recs "coll w" s']
    by (cases err) (auto simp: ingest_content_def)
qed (simp add: ingest_content_def)

lemma prepare_records_wf: "prepare_records c p w = Some (recs, u') \<Longrightarrow> \<forall>r \<in> set recs. wf_record r"
  by (auto simp: prepare_records_def split: option.splits if_splits dest: embed_chunks_wf)

lemma records_wf_ingest:
  assumes "records_wf w"
  shows "records_wf (ingest_content c p cur w)"
  using ingest_content_items [of c p cur w]
proof (elim disjE exE conjE)
  assume "items (coll (ingest_content c p cur w)) = items (coll w)"
  then show ?thesis using assms by (simp add: records_wf_def)
next
  fix recs u'
  assume p: "prepare_records c p w = Some (recs, u')"
    and i: "items (coll (ingest_content c p cur w)) = items (coll w) @ recs"
  then show ?thesis using assms prepare_records_wf [OF p] by (auto simp: records_wf_def)
qed

lemma records_wf_process_file:
  assumes that: "records_wf w"
  shows "records_wf (process_file c p w)"
proof (cases rule: process_file_cases [of c p w])
  case (del_fail s')
  then show ?thesis using that by (simp add: records_wf_def coll_delete_err)
next
  case (del_ingest s' f)
  have "records_wf (w\<lparr>coll := s'\<rparr>)"
    using that del_ingest(3) by (auto simp: records_wf_def dest!: coll_delete_ok)
  then show ?thesis using del_ingest(4) by (simp add: records_wf_ingest)
next
  case (ingest f)
  then show ?thesis using that by (simp add: records_wf_ingest)
qed (use that in simp)
lemma records_wf_remove: "records_wf w \<Longrightarrow> records_wf (remove_deleted_file c p w)"
  by (auto simp: records_wf_def remove_deleted_file_def split: prod.splits dest!: coll_delete_ok coll_delete_err)

lemma records_wf_save [simp]: "records_wf (save_state w) = records_wf w"
  by (simp add: records_wf_def save_state_def)

section \<open>Store faults are consumed\<close>

lemma coll_delete_faults: "coll_delete p s = (s', err) \<Longrightarrow> faults s' = tl (faults s)"
  by (auto simp: coll_delete_def next_fault_def split: list.splits prod.splits if_splits)

lemma coll_add_faults: "coll_add rs s = (s', err) \<Longrightarrow> faults s' = tl (faults s)"
  by (auto simp: coll_add_def next_fault_def split: list.splits prod.splits if_splits)

lemma ingest_content_faults:
  "faults (coll (ingest_content c p cur w)) =
     (case prepare_records c p w of
        Some (recs, u') \<Rightarrow> if recs = [] then faults (coll w) else tl (faults (coll w))
      | None \<Rightarrow> faults (coll w))"
  by (auto simp: ingest_content_def split: option.splits prod.splits dest: coll_add_faults)

lemma process_file_faults_le:
  "length (faults (coll (process_file c p w))) \<le> length (faults (coll w))"
proof (cases rule: process_file_cases [of c p w])
  case (del_fail s')
  then show ?thesis by (simp add: coll_delete_faults)
next
  case (del_ingest s' f)
  have "faults s' = tl (faults (coll w))" using del_ingest(3) by (rule coll_delete_faults)
  then show ?thesis using del_ingest(4)
    by (simp add: ingest_content_faults split: option.splits prod.splits)
next
  case (ingest f)
  then show ?thesis by (simp add: ingest_content_faults split: option.splits prod.splits)
qed simp

lemma process_file_progress:
  assumes ready: "collection_ready c" "embed_model c = Some m" and idx: "is_indexable (cfg c) p"
    and present: "files w p = Some f" "f_readable f"
    and chunks: "chunk_text_default (f_content f) = Some chunks"
    and some_ok: "\<exists>ch \<in> set chunks. embedding_ok c ch"
    and changed: "dict_get (state w) p \<noteq> Some \<lparr>fs_mtime = f_mtime f, fs_hash = md5 c (f_content f)\<rparr>"
    and faulty: "faults (coll w) \<noteq> []"
  shows "length (faults (coll (process_file c p w))) < length (faults (coll w))"
proof -
  let ?cur = "\<lparr>fs_mtime = f_mtime f, fs_hash = calculate_file_hash c w p\<rparr>"
  have h: "calculate_file_hash c w p = md5 c (f_content f)"
    using present by (simp add: calculate_file_hash_def)
  have content: "get_file_content w p = Some (f_content f)"
    using present by (simp add: get_file_content_def)
  obtain recs u' where prep: "prepare_records c p w = Some (recs, u')"
    and docs: "map vr_document recs = filter (embedding_ok c) chunks" and ne: "recs \<noteq> []"
    and paths: "records_of p recs = recs"
    using prepare_records_batch [OF content chunks some_ok] by blast
  have pf: "process_file c p w =
           (case dict_get (state w) p of
              None \<Rightarrow> ingest_content c p ?cur w
            | Some old \<Rightarrow>
                (let (s', err) = coll_delete p (coll w)
                 in if err then w\<lparr>coll := s'\<rparr> else ingest_content c p ?cur (w\<lparr>coll := s'\<rparr>)))"
    using process_file_reprocess [OF ready idx present(1)] changed h by simp
  show ?thesis
  proof (cases "dict_get (state w) p")
    case None
    with pf prep ne faulty show ?thesis by (simp add: ingest_content_faults)
  next
    case (Some old)
    obtain s' err where del: "coll_delete p (coll w) = (s', err)" by fastforce
    have s': "faults s' = tl (faults (coll w))" using del by (rule coll_delete_faults)
    have "length (faults (coll (process_file c p w))) \<le> length (faults s')"
    proof (cases err)
      case True
      with pf Some del show ?thesis by simp
    next
      case False
      with pf Some del show ?thesis
        by (simp add: ingest_content_faults split: option.splits prod.splits)
    qed
    with s' faulty show ?thesis by (cases "faults (coll w)") simp_all
  qed
qed

lemma ingest_content_changed_state:
  assumes "prepare_records c p w = Some (recs, u')" and "state (ingest_content c p cur w) \<noteq> state w"
  shows "items (coll (ingest_content c p cur w)) = items (coll w) @ recs"
proof -
  obtain s' err where add: "coll_add recs (coll w) = (s', err)" by fastforce
  with assms show ?thesis
    using coll_add_ok [of recs "coll w" s'] by (cases err) (auto simp: ingest_content_def)
qed

text \<open>
  Whatever the store failures, a run of \<open>process_file\<close> that records the current
  fingerprint of a changed file has stored exactly its embeddable chunks: the
  ledger entry is only written after a successful \<^verbatim>\<open>add\<close>.
\<close>

lemma process_file_sync_records:
  assumes inv: "sync_inv w"
    and ready: "collection_ready c" "embed_model c = Some m" and idx: "is_indexable (cfg c) p"
    and present: "files w p = Some f" "f_readable f"
    and chunks: "chunk_text_default (f_content f) = Some chunks"
    and some_ok: "\<exists>ch \<in> set chunks. embedding_ok c ch"
    and changed: "dict_get (state w) p \<noteq> Some \<lparr>fs_mtime = f_mtime f, fs_hash = md5 c (f_content f)\<rparr>"
    and synced: "dict_get (state (process_file c p w)) p = Some \<lparr>fs_mtime = f_mtime f, fs_hash = md5 c (f_content f)\<rparr>"
  shows "map vr_document (records_of p (items (coll (process_file c p w)))) = filter (embedding_ok c) chunks"
proof -
  let ?cur = "\<lparr>fs_mtime = f_mtime f, fs_hash = calculate_file_hash c w p\<rparr>"
  have h: "calculate_file_hash c w p = md5 c (f_content f)"
    using present by (simp add: calculate_file_hash_def)
  have content: "get_file_content w p = Some (f_content f)"
    using present by (simp add: get_file_content_def)
  obtain recs u' where prep: "prepare_records c p w = Some (recs, u')"
    and docs: "map vr_document recs = filter (embedding_ok c) chunks" and ne: "recs \<noteq> []"
    and paths: "records_of p recs = recs"
    using prepare_records_batch [OF content chunks some_ok] by blast
  have moved: "state (process_file c p w) \<noteq> state w" using changed synced by auto
  have pf: "process_file c p w =
           (case dict_get (state w) p of
              None \<Rightarrow> ingest_content c p ?cur w
            | Some old \<Rightarrow>
                (let (s', err) = coll_delete p (coll w)
                 in if err then w\<lparr>coll := s'\<rparr> else ingest_content c p ?cur (w\<lparr>coll := s'\<rparr>)))"
    using process_file_reprocess [OF ready idx present(1)] changed h by simp
  show ?thesis
  proof (cases "dict_get (state w) p")
    case None
    have "records_of p (items (coll w)) = []" using sync_inv_untracked [OF inv None] .
    moreover have "items (coll (process_file c p w)) = items (coll w) @ recs"
      using pf None moved ingest_content_changed_state [OF prep, of ?cur] by simp
    ultimately show ?thesis using paths docs by simp
  next
    case (Some old)
    obtain s' err where del: "coll_delete p (coll w) = (s', err)" by fastforce
    show ?thesis
    proof (cases err)
      case True
      with pf Some del moved show ?thesis by simp
    next
      case False
      have prep1: "prepare_records c p (w\<lparr>coll := s'\<rparr>) = Some (recs, u')"
        using prep prepare_records_cong [of "w\<lparr>coll := s'\<rparr>" w c p] by simp
      have pf1: "process_file c p w = ingest_content c p ?cur (w\<lparr>coll := s'\<rparr>)"
        using pf Some del False by simp
      have "records_of p (items s') = []"
        using coll_delete_ok [of p "coll w" s'] del False by simp
      moreover have "items (coll (process_file c p w)) = items s' @ recs"
        using pf1 moved ingest_content_changed_state [OF prep1, of ?cur] by simp
      ultimately show ?thesis using paths docs by simp
    qed
  qed
qed

section \<open>Operations on one path leave the others alone\<close>

lemma ingest_content_frame:
  assumes "q \<noteq> p"
  shows "records_of q (items (coll (ingest_content c p cur w))) = records_of q (items (coll w)) \<and>
         dict_get (state (ingest_content c p cur w)) q = dict_get (state w) q \<and>
         files (ingest_content c p cur w) = files w"
proof -
  from ingest_content_outcome [OF refl, of c p cur w] assms show ?thesis
    by (auto simp: ledger_simps dest: records_of_none)
qed

lemma process_file_frame:
  assumes "q \<noteq> p"
  shows "records_of q (items (coll (process_file c p w))) = records_of q (items (coll w)) \<and>
         dict_get (state (process_file c p w)) q = dict_get (state w) q \<and>
         files (process_file c p w) = files w"
proof (cases rule: process_file_cases [of c p w])
  case same
  then show ?thesis by simp
next
  case (del_fail s')
  then show ?thesis by (simp add: coll_delete_err)
next
  case (del_ingest s' f)
  with ingest_content_frame [OF assms, of c _ "w\<lparr>coll := s'\<rparr>"] assms show ?thesis
    by (simp add: coll_delete_ok)
next
  case (ingest f)
  with ingest_content_frame [OF assms, of c _ w] show ?thesis by simp
qed

lemma remove_frame:
  assumes "q \<noteq> p"
  shows "records_of q (items (coll (remove_deleted_file c p w))) = records_of q (items (coll w)) \<and>
         dict_get (state (remove_deleted_file c p w)) q = dict_get (state w) q \<and>
         files (remove_deleted_file c p w) = files w"
proof -
  obtain s' err where del: "coll_delete p (coll w) = (s', err)" by fastforce
  with assms show ?thesis
    by (cases err) (auto simp: remove_deleted_file_def coll_delete_ok coll_delete_err ledger_simps)
qed

lemma healthy_process_file:
  assumes "faults (coll w) = []"
  shows "faults (coll (process_file c p w)) = []"
proof (cases rule: process_file_cases [of c p w])
  case same then show ?thesis using assms by simp
next
  case (del_fail s') then show ?thesis using assms by (simp add: coll_delete_healthy)
next
  case (del_ingest s' f)
  have "s' = (coll w)\<lparr>items := filter (\<lambda>r. record_path r \<noteq> p) (items (coll w)),
                            log := log (coll w) @ [Delete p]\<rparr>"
    using del_ingest(3) assms by (simp add: coll_delete_healthy)
  then have s': "faults s' = []" using assms by simp
  show ?thesis using del_ingest(4) s'
    by (auto simp: ingest_content_def coll_add_healthy split: option.splits prod.splits)
next
  case (ingest f)
  then show ?thesis using assms
    by (auto simp: ingest_content_def coll_add_healthy split: option.splits prod.splits)
qed

lemma healthy_remove:
  "faults (coll w) = [] \<Longrightarrow> faults (coll (remove_deleted_file c p w)) = []"
  by (simp add: remove_deleted_file_def coll_delete_healthy)


lemma sync_inv_save [simp]: "sync_inv (save_state w) = sync_inv w"
  by (simp add: save_state_def sync_inv_def)

lemma save_state_fields [simp]:
  "state (save_state w) = state w" "coll (save_state w) = coll w" "files (save_state w) = files w"
  by (simp_all add: save_state_def)

lemma process_file_disk:
  "files (process_file c p w) = files w \<and> state_file (process_file c p w) = state_file w"
proof (cases rule: process_file_cases [of c p w])
  case (del_ingest s' f)
  then show ?thesis using ingest_content_outcome [OF refl, of c p _ "w\<lparr>coll := s'\<rparr>"] by simp
next
  case (ingest f)
  then show ?thesis using ingest_content_outcome [OF refl, of c p _ w] by simp
qed simp_all

lemmas files_process_file [simp] = process_file_disk [THEN conjunct1]
lemmas state_file_process_file [simp] = process_file_disk [THEN conjunct2]

lemma files_remove [simp]: "files (remove_deleted_file c p w) = files w"
  by (simp add: remove_deleted_file_def split: prod.splits)


text \<open>
  C16. The operations on one path leave every other path alone: its chunks in the
  collection and its ledger entry are those before the operation.
\<close>

theorem operations_isolated:
  assumes "q \<noteq> p"
  shows "records_of q (items (coll (process_file c p w))) = records_of q (items (coll w)) \<and>
         dict_get (state (process_file c p w)) q = dict_get (state w) q \<and>
         records_of q (items (coll (remove_deleted_file c p w))) = records_of q (items (coll w)) \<and>
         dict_get (state (remove_deleted_file c p w)) q = dict_get (state w) q"
  using process_file_frame [OF assms] remove_frame [OF assms] by simp

section \<open>Skipped events and removal\<close>

text \<open>
  C18. \<open>process_file\<close> changes nothing when the engine is not initialised, the path
  is not indexable, the file no longer exists, or its fingerprint is the one the
  ledger holds.
\<close>

theorem process_file_skips:
  assumes "\<not> collection_ready c \<or> embed_model c = None \<or> \<not> is_indexable (cfg c) p \<or> files w p = None \<or>
     (\<exists>f. files w p = Some f \<and>
          dict_get (state w) p = Some \<lparr>fs_mtime = f_mtime f, fs_hash = calculate_file_hash c w p\<rparr>)"
  shows "process_file c p w = w"
  using assms
proof (elim disjE exE conjE)
  fix f
  assume "files w p = Some f"
    and "dict_get (state w) p = Some \<lparr>fs_mtime = f_mtime f, fs_hash = calculate_file_hash c w p\<rparr>"
  then show ?thesis by (rule process_file_same_fingerprint)
qed (auto simp: process_file_def is_indexable_def os_getmtime_def)

theorem process_file_skips_witness:
  "files example_synced example_path = Some example_file \<and>
   dict_get (state example_synced) example_path =
     Some \<lparr>fs_mtime = f_mtime example_file, fs_hash = calculate_file_hash example_ctx example_synced example_path\<rparr> \<and>
   process_file example_ctx example_path example_synced = example_synced"
proof -
  have f: "files example_synced example_path = Some example_file"
    by code_simp
  have d: "dict_get (state example_synced) example_path =
     Some \<lparr>fs_mtime = f_mtime example_file, fs_hash = calculate_file_hash example_ctx example_synced example_path\<rparr>"
    by code_simp
  show ?thesis
    using f d process_file_skips [of example_ctx example_path example_synced] by blast
qed


lemma remove_deleted_file_clears:
  assumes inv: "sync_inv w" and healthy: "faults (coll w) = []" and ready: "collection_ready c"
  shows "records_of p (items (coll (remove_deleted_file c p w))) = [] \<and>
         dict_get (state (remove_deleted_file c p w)) p = None"
proof (cases "dict_get (state w) p = None")
  case True
  with inv show ?thesis
    by (simp add: remove_untracked_noop sync_inv_untracked)
next
  case False
  then obtain old where "dict_get (state w) p = Some old" by auto
  with ready healthy show ?thesis
    by (simp add: remove_deleted_file_def coll_delete_healthy ledger_simps)
qed

text \<open>
  C19. After \<open>remove_deleted_file_from_chroma\<close> with a healthy store, the file has no
  chunks in the collection and no ledger entry.
\<close>

theorem remove_deleted_file_removes:
  assumes inv: "sync_inv w" and healthy: "faults (coll w) = []" and ready: "collection_ready c"
  shows "records_of p (items (coll (remove_deleted_file c p w))) = [] \<and>
         dict_get (state (remove_deleted_file c p w)) p = None"
  by (rule remove_deleted_file_clears [OF assms])

theorem remove_deleted_file_removes_witness:
  "sync_inv example_synced \<and> faults (coll example_synced) = [] \<and> collection_ready example_ctx \<and>
   records_of example_path (items (coll (remove_deleted_file example_ctx example_path example_synced))) = [] \<and>
   dict_get (state (remove_deleted_file example_ctx example_path example_synced)) example_path = None"
proof -
  have h: "sync_inv example_synced" "faults (coll example_synced) = []" "collection_ready example_ctx"
    by code_simp+
  show ?thesis
    using h remove_deleted_file_removes [OF h] by blast
qed


lemma prepare_records_blank:
  assumes "get_file_content w p = Some content" and "py_split content = []"
  shows "prepare_records c p w = None"
proof -
  have "chunk_text_default content = Some []"
    using chunk_text_eq_windows [of 500 50 content] assms(2) by (simp add: chunk_text_default_def)
  with assms(1) show ?thesis by (simp add: prepare_records_def)
qed

text \<open>
  A new file whose text is empty or whitespace only is not indexed: \<open>process_file\<close>
  makes no store call and creates no ledger entry.
\<close>

theorem process_file_blank_untracked:
  assumes "get_file_content w p = Some content" and "py_split content = []"
    and "dict_get (state w) p = None"
  shows "process_file c p w = w"
proof (cases rule: process_file_run_cases [of c p w])
  case noop
  then show ?thesis .
next
  case (run m f)
  have "prepare_records c p w = None" using prepare_records_blank [OF assms(1,2)] .
  with process_file_reprocess [OF run] assms(3) show ?thesis
    by (simp add: ingest_content_def)
qed

text \<open>
  Removing a path the ledger does not track makes no store call and changes
  nothing.
\<close>

theorem remove_untracked_no_calls:
  "dict_get (state w) p = None \<Longrightarrow> remove_deleted_file c p w = w"
  by (rule remove_untracked_noop)

text \<open>
  A file on a path with a component named like an excluded directory, at any
  depth, is never processed: \<open>process_file\<close> changes nothing.
\<close>

theorem excluded_path_never_processed:
  assumes "xs \<noteq> []" and "\<forall>x \<in> set xs. clean_component x"
    and "d \<in> set (exclude_dirs (cfg c))" and "d \<in> set xs"
  shows "process_file c (abs_path xs) w = w"
proof (rule process_file_not_indexable)
  show "\<not> is_indexable (cfg c) (abs_path xs)"
    using in_excluded_dir_abs_path [OF assms(1,2), of "cfg c"] assms(3,4)
    by (auto simp: is_indexable_def)
qed

section \<open>Divergences from the specification\<close>

text \<open>
  C25. A file whose modification time changed but whose content hash did not is
  still reprocessed: its chunks are deleted and re-embedded, although the
  specification says an mtime-only change must not be reprocessed.
\<close>

theorem touch_reprocesses:
  assumes healthy: "faults (coll w) = []"
    and ready: "collection_ready c" "embed_model c = Some m" and idx: "is_indexable (cfg c) p"
    and present: "files w p = Some f" and tracked: "dict_get (state w) p = Some old"
    and same_hash: "fs_hash old = calculate_file_hash c w p" and touched: "fs_mtime old \<noteq> f_mtime f"
  shows "\<exists>ds. log (coll (process_file c p w)) = log (coll w) @ Delete p # ds"
proof -
  let ?cur = "\<lparr>fs_mtime = f_mtime f, fs_hash = calculate_file_hash c w p\<rparr>"
  let ?w0 = "w\<lparr>coll := (coll w)\<lparr>items := filter (\<lambda>r. record_path r \<noteq> p) (items (coll w)),
                                     log := log (coll w) @ [Delete p]\<rparr>\<rparr>"
  have "dict_get (state w) p \<noteq> Some ?cur"
    using tracked touched by auto
  then have "process_file c p w = ingest_content c p ?cur ?w0"
    using process_file_healthy_run [OF healthy ready idx present] tracked by simp
  then show ?thesis
    using ingest_content_log [of c p ?cur ?w0] by auto
qed

text \<open>
  C26. When a tracked file changes to a text with no embeddable chunk (whitespace
  only, or every embedding failing), its old chunks are deleted but its old ledger
  entry stays: the specification's invariant \<^emph>\<open>entry iff chunks\<close> is broken.
\<close>

theorem change_without_chunks_keeps_entry:
  assumes healthy: "faults (coll w) = []"
    and ready: "collection_ready c" "embed_model c = Some m" and idx: "is_indexable (cfg c) p"
    and present: "files w p = Some f" and tracked: "dict_get (state w) p = Some old"
    and changed: "old \<noteq> \<lparr>fs_mtime = f_mtime f, fs_hash = calculate_file_hash c w p\<rparr>"
    and content: "get_file_content w p = Some content"
    and chunks: "chunk_text_default content = Some chunks"
    and none_kept: "filter (embedding_ok c) chunks = []"
  shows "dict_get (state (process_file c p w)) p = Some old \<and>
         records_of p (items (coll (process_file c p w))) = []"
proof -
  let ?cur = "\<lparr>fs_mtime = f_mtime f, fs_hash = calculate_file_hash c w p\<rparr>"
  let ?w0 = "w\<lparr>coll := (coll w)\<lparr>items := filter (\<lambda>r. record_path r \<noteq> p) (items (coll w)),
                                     log := log (coll w) @ [Delete p]\<rparr>\<rparr>"
  have "dict_get (state w) p \<noteq> Some ?cur"
    using tracked changed by simp
  then have pf: "process_file c p w = ingest_content c p ?cur ?w0"
    using process_file_healthy_run [OF healthy ready idx present] tracked by simp
  have "prepare_records c p ?w0 = prepare_records c p w"
    by (rule prepare_records_cong) simp_all
  then have "ingest_content c p ?cur ?w0 = ?w0"
    using prepare_records_nothing [OF content chunks none_kept] by (simp only: ingest_content_no_records)
  with pf tracked show ?thesis by simp
qed


text \<open>
  C27. When the \<^verbatim>\<open>delete\<close> of a changed tracked file succeeds and the next
  \<^verbatim>\<open>add\<close> raises, the file is left with no chunks and its old ledger entry. If
  the file is then restored to the recorded version, \<open>process_file\<close> finds the
  fingerprint unchanged and does nothing, so the file is never indexed again.
\<close>

theorem add_failure_keeps_entry:
  assumes ready: "collection_ready c" "embed_model c = Some m" and idx: "is_indexable (cfg c) p"
    and present: "files w p = Some f" "f_readable f"
    and chunks: "chunk_text_default (f_content f) = Some chunks"
    and some_ok: "\<exists>ch \<in> set chunks. embedding_ok c ch"
    and tracked: "dict_get (state w) p = Some old"
    and changed: "old \<noteq> \<lparr>fs_mtime = f_mtime f, fs_hash = md5 c (f_content f)\<rparr>"
    and faults: "faults (coll w) = False # True # fl"
  shows "records_of p (items (coll (process_file c p w))) = [] \<and>
         dict_get (state (process_file c p w)) p = Some old \<and>
         (\<forall>f0. f_readable f0 \<and> old = \<lparr>fs_mtime = f_mtime f0, fs_hash = md5 c (f_content f0)\<rparr> \<longrightarrow>
            process_file c p ((process_file c p w)\<lparr>files := (files w)(p \<mapsto> f0)\<rparr>) =
              (process_file c p w)\<lparr>files := (files w)(p \<mapsto> f0)\<rparr>)"
proof -
  let ?cur = "\<lparr>fs_mtime = f_mtime f, fs_hash = calculate_file_hash c w p\<rparr>"
  let ?s' = "(coll w)\<lparr>faults := True # fl, items := filter (\<lambda>r. record_path r \<noteq> p) (items (coll w)),
                       log := log (coll w) @ [Delete p]\<rparr>"
  have h: "calculate_file_hash c w p = md5 c (f_content f)"
    using present by (simp add: calculate_file_hash_def)
  have content: "get_file_content w p = Some (f_content f)"
    using present by (simp add: get_file_content_def)
  obtain recs u' where prep: "prepare_records c p w = Some (recs, u')" and ne: "recs \<noteq> []"
    using prepare_records_batch [OF content chunks some_ok] by blast
  have prep1: "prepare_records c p (w\<lparr>coll := ?s'\<rparr>) = Some (recs, u')"
    using prep prepare_records_cong [of "w\<lparr>coll := ?s'\<rparr>" w c p] by simp
  have del: "coll_delete p (coll w) = (?s', False)"
    using faults by (simp add: coll_delete_def next_fault_def)
  have add: "coll_add recs ?s' = (?s'\<lparr>faults := fl\<rparr>, True)"
    by (simp add: coll_add_def next_fault_def)
  have pf: "process_file c p w = w\<lparr>coll := ?s'\<lparr>faults := fl\<rparr>, uuid_next := u'\<rparr>"
    using process_file_reprocess [OF ready idx present(1)] changed h tracked del
    by (simp add: ingest_content_def prep1 add ne)
  have restored: "process_file c p ((process_file c p w)\<lparr>files := (files w)(p \<mapsto> f0)\<rparr>) =
                    (process_file c p w)\<lparr>files := (files w)(p \<mapsto> f0)\<rparr>"
    if "f_readable f0" "old = \<lparr>fs_mtime = f_mtime f0, fs_hash = md5 c (f_content f0)\<rparr>" for f0
    using that tracked
    by (intro process_file_same_fingerprint) (simp_all add: pf calculate_file_hash_def)
  show ?thesis using pf tracked restored by (simp add: records_of_def)
qed

section \<open>Witnesses\<close>

theorem change_without_chunks_keeps_entry_witness:
  "dict_get (state example_blanked) example_path = Some \<lparr>fs_mtime = 1, fs_hash = ''hello world''\<rparr> \<and>
   dict_get (state (process_file example_ctx example_path example_blanked)) example_path =
     Some \<lparr>fs_mtime = 1, fs_hash = ''hello world''\<rparr> \<and>
   records_of example_path (items (coll (process_file example_ctx example_path example_blanked))) = []"
proof -
  have h: "faults (coll example_blanked) = []" "collection_ready example_ctx"
    "is_indexable (cfg example_ctx) example_path"
    "files example_blanked example_path = Some \<lparr>f_content = '' '', f_mtime = 2, f_readable = True\<rparr>"
    "dict_get (state example_blanked) example_path = Some \<lparr>fs_mtime = 1, fs_hash = ''hello world''\<rparr>"
    "\<lparr>fs_mtime = 1, fs_hash = ''hello world''\<rparr> \<noteq>
       \<lparr>fs_mtime = f_mtime \<lparr>f_content = '' '', f_mtime = 2, f_readable = True\<rparr>,
        fs_hash = calculate_file_hash example_ctx example_blanked example_path\<rparr>"
    "get_file_content example_blanked example_path = Some '' ''"
    "chunk_text_default '' '' = Some []"
    "filter (embedding_ok example_ctx) [] = []"
    by code_simp+
  have m: "embed_model example_ctx = Some (\<lambda>s. Some [1])"
    by (simp add: example_ctx_def)
  show ?thesis
    using h(5) change_without_chunks_keeps_entry [OF h(1,2) m h(3-)] by blast
qed


theorem touch_reprocesses_witness:
  "\<exists>ds. log (coll (process_file example_ctx example_path example_touched)) =
        log (coll example_touched) @ Delete example_path # ds"
proof -
  have h: "faults (coll example_touched) = []" "collection_ready example_ctx"
    "is_indexable (cfg example_ctx) example_path"
    "files example_touched example_path = Some (example_file\<lparr>f_mtime := 2\<rparr>)"
    "dict_get (state example_touched) example_path = Some \<lparr>fs_mtime = 1, fs_hash = ''hello world''\<rparr>"
    "fs_hash \<lparr>fs_mtime = 1, fs_hash = ''hello world''\<rparr> =
       calculate_file_hash example_ctx example_touched example_path"
    "fs_mtime \<lparr>fs_mtime = 1, fs_hash = ''hello world''\<rparr> \<noteq> f_mtime (example_file\<lparr>f_mtime := 2\<rparr>)"
    by code_simp+
  have m: "embed_model example_ctx = Some (\<lambda>s. Some [1])"
    by (simp add: example_ctx_def)
  show ?thesis
    using touch_reprocesses [OF h(1,2) m h(3-)] .
qed


theorem process_file_preserves_inv_witness:
  "sync_inv example_world \<and> sync_inv (process_file example_ctx example_path example_world)"
proof -
  have h: "sync_inv example_world" by code_simp
  show ?thesis using h process_file_preserves_inv [OF h] by blast
qed

theorem remove_preserves_inv_witness:
  "sync_inv example_synced \<and> sync_inv (remove_deleted_file example_ctx example_path example_synced)"
proof -
  have h: "sync_inv example_synced" by code_simp
  show ?thesis using h remove_preserves_inv [OF h] by blast
qed

theorem remove_idempotent_witness:
  "faults (coll example_synced) = [] \<and>
   remove_deleted_file example_ctx example_path (remove_deleted_file example_ctx example_path example_synced) =
   remove_deleted_file example_ctx example_path example_synced"
proof -
  have h: "faults (coll example_synced) = []" by code_simp
  show ?thesis using h remove_idempotent [OF h] by blast
qed

theorem process_file_idempotent_witness:
  "faults (coll example_world) = [] \<and>
   items (coll (process_file example_ctx example_path (process_file example_ctx example_path example_world))) =
     items (coll (process_file example_ctx example_path example_world))"
proof -
  have h: "faults (coll example_world) = []" by code_simp
  show ?thesis using h process_file_idempotent [OF h] by blast
qed

theorem process_file_converges_witness:
  "map vr_document (records_of example_path (items (coll (process_file example_ctx example_path example_world)))) =
     [''hello world''] \<and>
   dict_get (state (process_file example_ctx example_path example_world)) example_path =
     Some \<lparr>fs_mtime = 1, fs_hash = ''hello world''\<rparr>"
proof -
  have h: "sync_inv example_world" "faults (coll example_world) = []" "collection_ready example_ctx"
    by code_simp+
  have m: "embed_model example_ctx = Some (\<lambda>s. Some [1])"
    by (simp add: example_ctx_def)
  have h2: "is_indexable (cfg example_ctx) example_path"
    "files example_world example_path = Some example_file" "f_readable example_file"
    "dict_get (state example_world) example_path \<noteq>
       Some \<lparr>fs_mtime = f_mtime example_file, fs_hash = md5 example_ctx (f_content example_file)\<rparr>"
    "chunk_text_default (f_content example_file) = Some [''hello world'']"
    "\<exists>ch \<in> set [''hello world'']. embedding_ok example_ctx ch"
    "filter (embedding_ok example_ctx) [''hello world''] = [''hello world'']"
    "md5 example_ctx (f_content example_file) = ''hello world''" "f_mtime example_file = 1"
    by code_simp+
  show ?thesis
    using process_file_converges [OF h m h2(1-6)] h2(7-9) by simp
qed


theorem operations_isolated_witness:
  "''/proj/b.py'' \<noteq> example_path \<and>
   records_of ''/proj/b.py'' (items (coll (process_file example_ctx example_path example_world))) =
     records_of ''/proj/b.py'' (items (coll example_world)) \<and>
   dict_get (state (remove_deleted_file example_ctx example_path example_synced)) ''/proj/b.py'' =
     dict_get (state example_synced) ''/proj/b.py''"
proof -
  have h: "''/proj/b.py'' \<noteq> example_path" by simp
  show ?thesis using h operations_isolated [OF h] by blast
qed

theorem process_file_blank_untracked_witness:
  "process_file example_ctx example_path
     (example_world\<lparr>files := [example_path \<mapsto> \<lparr>f_content = '' \<newline> '', f_mtime = 1, f_readable = True\<rparr>]\<rparr>) =
   example_world\<lparr>files := [example_path \<mapsto> \<lparr>f_content = '' \<newline> '', f_mtime = 1, f_readable = True\<rparr>]\<rparr>"
proof -
  let ?w = "example_world\<lparr>files := [example_path \<mapsto> \<lparr>f_content = '' \<newline> '', f_mtime = 1, f_readable = True\<rparr>]\<rparr>"
  have h: "get_file_content ?w example_path = Some '' \<newline> ''" "py_split '' \<newline> '' = []"
    "dict_get (state ?w) example_path = None"
    by (simp_all add: get_file_content_def py_split.simps py_isspace_def example_world_def dict_get_def)
  show ?thesis using process_file_blank_untracked [OF h] .
qed

theorem remove_untracked_no_calls_witness:
  "remove_deleted_file example_ctx example_path example_world = example_world"
proof -
  have h: "dict_get (state example_world) example_path = None" by code_simp
  show ?thesis using remove_untracked_no_calls [OF h] .
qed

theorem excluded_path_never_processed_witness:
  "process_file example_ctx (abs_path [''proj'', ''node_modules'', ''x.js'']) example_world = example_world"
proof -
  have h: "[''proj'', ''node_modules'', ''x.js''] \<noteq> []"
    "\<forall>x \<in> set [''proj'', ''node_modules'', ''x.js'']. clean_component x"
    "''node_modules'' \<in> set (exclude_dirs (cfg example_ctx))"
    "''node_modules'' \<in> set [''proj'', ''node_modules'', ''x.js'']"
    by (simp_all add: clean_component_def example_ctx_def source_config_def)
  show ?thesis using excluded_path_never_processed [OF h] .
qed

theorem embed_chunks_metadata_witness:
  "map (\<lambda>r. (md_chunk_id (vr_metadata r), vr_document r))
     (fst (embed_chunks (example_ctx\<lparr>embed_model := Some (\<lambda>s. if s = ''b'' then None else Some [1])\<rparr>)
             ''/proj/a/x.py'' ''a'' ''python'' (\<lambda>k. ''t'' @ nat_str k) 0 5 [''a'', ''b'', ''c''])) = [(''0'', ''a''), (''2'', ''c'')]"
proof -
  let ?c = "example_ctx\<lparr>embed_model := Some (\<lambda>s. if s = ''b'' then None else Some [1])\<rparr>"
  let ?e = "embed_chunks ?c ''/proj/a/x.py'' ''a'' ''python'' (\<lambda>k. ''t'' @ nat_str k) 0 5 [''a'', ''b'', ''c'']"
  have h: "?e = (fst ?e, snd ?e)" by simp
  have ok: "embedding_ok ?c ''a''" "\<not> embedding_ok ?c ''b''" "embedding_ok ?c ''c''"
    by (simp_all add: embedding_ok_def get_embedding_def)
  have n: "nat_str 0 = ''0''" "nat_str (Suc (Suc 0)) = ''2''" by code_simp+
  show ?thesis
    using embed_chunks_metadata [OF h] ok n by (simp add: enumerate_eq_zip del: embed_chunks.simps)
qed


theorem add_failure_keeps_entry_witness:
  "records_of example_path (items (coll (process_file example_ctx example_path example_add_fails))) = [] \<and>
   dict_get (state (process_file example_ctx example_path example_add_fails)) example_path =
     Some \<lparr>fs_mtime = 1, fs_hash = ''hello world''\<rparr> \<and>
   records_of example_path (items (coll example_add_fails)) \<noteq> []"
proof -
  have h: "collection_ready example_ctx" "is_indexable (cfg example_ctx) example_path"
    "files example_add_fails example_path = Some (example_file\<lparr>f_mtime := 2\<rparr>)"
    "f_readable (example_file\<lparr>f_mtime := 2\<rparr>)"
    "chunk_text_default (f_content (example_file\<lparr>f_mtime := 2\<rparr>)) = Some [''hello world'']"
    "\<exists>ch \<in> set [''hello world'']. embedding_ok example_ctx ch"
    "dict_get (state example_add_fails) example_path = Some \<lparr>fs_mtime = 1, fs_hash = ''hello world''\<rparr>"
    "\<lparr>fs_mtime = 1, fs_hash = ''hello world''\<rparr> \<noteq>
       \<lparr>fs_mtime = f_mtime (example_file\<lparr>f_mtime := 2\<rparr>),
        fs_hash = md5 example_ctx (f_content (example_file\<lparr>f_mtime := 2\<rparr>))\<rparr>"
    "faults (coll example_add_fails) = False # True # []"
    "records_of example_path (items (coll example_add_fails)) \<noteq> []"
    by code_simp+
  have m: "embed_model example_ctx = Some (\<lambda>s. Some [1])" by (simp add: example_ctx_def)
  show ?thesis using add_failure_keeps_entry [OF h(1) m h(2-9)] h(10) by blast
qed

end
