(* ===== verification/Dispatcher.thy ===== *)
theory Dispatcher
  imports Engine
begin

text \<open>
  The event handler \<^verbatim>\<open>CodeChangeHandler\<close> of \<^verbatim>\<open>src/ingest.py\<close> (lines 266--286)
  and the stream of events the watchdog observer delivers to it. An event carries its
  source path, the destination path of a move, and \<^verbatim>\<open>is_directory\<close>; the kinds the
  handler does not override (watchdog's opened and closed events) reach the no-op
  methods of \<^verbatim>\<open>FileSystemEventHandler\<close>. The observer calls the handler from one
  thread, one event at a time, in arrival order: a run is a left fold over the list
  of events.
\<close>

section \<open>Events and handlers\<close>

datatype event =
    Modified path bool
  | Created path bool
  | Deleted path bool
  | Moved path path bool
  | Closed path bool

definition on_modified :: "ctx \<Rightarrow> path \<Rightarrow> bool \<Rightarrow> world \<Rightarrow> world" where
  "on_modified c src_path is_directory w =
     (if \<not> is_directory then save_state (process_file c src_path w) else w)"

definition on_created :: "ctx \<Rightarrow> path \<Rightarrow> bool \<Rightarrow> world \<Rightarrow> world" where
  "on_created c src_path is_directory w =
     (if \<not> is_directory then save_state (process_file c src_path w) else w)"

definition on_deleted :: "ctx \<Rightarrow> path \<Rightarrow> bool \<Rightarrow> world \<Rightarrow> world" where
  "on_deleted c src_path is_directory w =
     (if \<not> is_directory then save_state (remove_deleted_file c src_path w) else w)"

definition on_moved :: "ctx \<Rightarrow> path \<Rightarrow> path \<Rightarrow> bool \<Rightarrow> world \<Rightarrow> world" where
  "on_moved c src_path dest_path is_directory w =
     (if \<not> is_directory
      then save_state (process_file c dest_path (remove_deleted_file c src_path w))
      else w)"

text \<open>\<^verbatim>\<open>FileSystemEventHandler.dispatch\<close>: the method named after the event's kind.\<close>

fun dispatch :: "ctx \<Rightarrow> event \<Rightarrow> world \<Rightarrow> world" where
  "dispatch c (Modified p d) w = on_modified c p d w"
| "dispatch c (Created p d) w = on_created c p d w"
| "dispatch c (Deleted p d) w = on_deleted c p d w"
| "dispatch c (Moved p q d) w = on_moved c p q d w"
| "dispatch c (Closed p d) w = w"

primrec run_events :: "ctx \<Rightarrow> event list \<Rightarrow> world \<Rightarrow> world" where
  "run_events c [] w = w"
| "run_events c (e # es) w = run_events c es (dispatch c e w)"

text \<open>
  The ledger on disk is the one in memory: a process started now would load exactly
  the dictionary the running one holds.
\<close>

definition ledger_persisted :: "world \<Rightarrow> bool" where
  "ledger_persisted w \<longleftrightarrow> load_processed_files_state (state_file w) [] = state w"

section \<open>Properties of the handlers\<close>

lemma ledger_persisted_save [simp]: "ledger_persisted (save_state w)"
  by (simp add: ledger_persisted_def save_state_def load_save)

lemma sync_inv_dispatch: "sync_inv w \<Longrightarrow> sync_inv (dispatch c e w)"
  by (cases e)
    (simp_all add: on_modified_def on_created_def on_deleted_def on_moved_def
                   sync_inv_process_file sync_inv_remove)

lemma sync_inv_run: "sync_inv w \<Longrightarrow> sync_inv (run_events c es w)"
  by (induction es arbitrary: w) (simp_all add: sync_inv_dispatch)

lemma persisted_dispatch: "ledger_persisted w \<Longrightarrow> ledger_persisted (dispatch c e w)"
  by (cases e) (simp_all add: on_modified_def on_created_def on_deleted_def on_moved_def)

lemma persisted_run: "ledger_persisted w \<Longrightarrow> ledger_persisted (run_events c es w)"
  by (induction es arbitrary: w) (simp_all add: persisted_dispatch)

lemma ids_fresh_dispatch: "ids_fresh w \<Longrightarrow> ids_fresh (dispatch c e w)"
  by (cases e)
    (simp_all add: on_modified_def on_created_def on_deleted_def on_moved_def
                   ids_fresh_process_file ids_fresh_remove)

lemma ids_fresh_run: "ids_fresh w \<Longrightarrow> ids_fresh (run_events c es w)"
  by (induction es arbitrary: w) (simp_all add: ids_fresh_dispatch)

lemma dispatch_preserves:
  assumes "P w"
    and pf: "\<And>w p. P w \<Longrightarrow> P (process_file c p w)"
    and rm: "\<And>w p. P w \<Longrightarrow> P (remove_deleted_file c p w)"
    and sv: "\<And>w. P w \<Longrightarrow> P (save_state w)"
  shows "P (dispatch c e w)"
  using assms(1)
  by (cases e) (auto simp: on_modified_def on_created_def on_deleted_def on_moved_def intro: pf rm sv)

lemma run_events_append: "run_events c (es @ fs) w = run_events c fs (run_events c es w)"
  by (induction es arbitrary: w) simp_all

lemma files_run_modified: "files (run_events c (replicate k (Modified p False)) w) = files w"
  by (induction k arbitrary: w) (simp_all add: on_modified_def)

lemma synced_stays:
  assumes present: "files w p = Some f" "f_readable f"
    and synced: "dict_get (state w) p = Some \<lparr>fs_mtime = f_mtime f, fs_hash = md5 c (f_content f)\<rparr>"
  shows "coll (run_events c (replicate k (Modified p False)) w) = coll w \<and>
         state (run_events c (replicate k (Modified p False)) w) = state w"
  using present(1) synced
proof (induction k arbitrary: w)
  case 0
  then show ?case by simp
next
  case (Suc k)
  have "calculate_file_hash c w p = md5 c (f_content f)"
    using Suc.prems(1) present(2) by (simp add: calculate_file_hash_def)
  then have "process_file c p w = w"
    using process_file_same_fingerprint [OF Suc.prems(1)] Suc.prems(2) by simp
  then have "dispatch c (Modified p False) w = save_state w" by (simp add: on_modified_def)
  moreover have "files (save_state w) p = Some f" "dict_get (state (save_state w)) p =
      Some \<lparr>fs_mtime = f_mtime f, fs_hash = md5 c (f_content f)\<rparr>"
    using Suc.prems by simp_all
  ultimately show ?case using Suc.IH by simp
qed

text \<open>
  The retry argument. The file is indexed when the ledger holds its current
  fingerprint and the store its embeddable chunks. Starting from a world where the
  fingerprint is only recorded together with the chunks, every
  \<^verbatim>\<open>on_modified\<close> either indexes the file or consumes a store failure and
  leaves such a world again; once indexed, the file stays so.
\<close>

lemma retries_index:
  assumes inv: "sync_inv w"
    and ready: "collection_ready c" "embed_model c = Some m" and idx: "is_indexable (cfg c) p"
    and present: "files w p = Some f" "f_readable f"
    and chunks: "chunk_text_default (f_content f) = Some chunks"
    and some_ok: "\<exists>ch \<in> set chunks. embedding_ok c ch"
    and consistent: "dict_get (state w) p = Some \<lparr>fs_mtime = f_mtime f, fs_hash = md5 c (f_content f)\<rparr> \<Longrightarrow>
                     map vr_document (records_of p (items (coll w))) = filter (embedding_ok c) chunks"
  shows "map vr_document (records_of p (items (coll (run_events c (replicate (Suc (length (faults (coll w))))
                                                              (Modified p False)) w)))) =
           filter (embedding_ok c) chunks \<and>
         dict_get (state (run_events c (replicate (Suc (length (faults (coll w)))) (Modified p False)) w)) p =
           Some \<lparr>fs_mtime = f_mtime f, fs_hash = md5 c (f_content f)\<rparr>"
  using inv present(1) consistent
proof (induction "length (faults (coll w))" arbitrary: w rule: less_induct)
  case less
  let ?cur = "\<lparr>fs_mtime = f_mtime f, fs_hash = md5 c (f_content f)\<rparr>"
  let ?n = "length (faults (coll w))"
  let ?w1 = "save_state (process_file c p w)"
  let ?goal = "\<lambda>w'. map vr_document (records_of p (items (coll w'))) = filter (embedding_ok c) chunks \<and>
                     dict_get (state w') p = Some ?cur"
  have run: "run_events c (replicate (Suc ?n) (Modified p False)) w =
             run_events c (replicate ?n (Modified p False)) ?w1"
    by (simp add: on_modified_def)
  have files1: "files ?w1 p = Some f" using less.prems(2) by simp
  have stays: "?goal (run_events c (replicate k (Modified p False)) w')"
    if "files w' p = Some f" "?goal w'" for k w'
    using synced_stays [OF that(1) present(2), of c k] that(2) by simp
  show ?case
  proof (cases "dict_get (state w) p = Some ?cur")
    case True
    then show ?thesis using stays [OF less.prems(2)] less.prems(3) by blast
  next
    case changed: False
    show ?thesis
    proof (cases "faults (coll w) = []")
      case True
      have "?goal ?w1"
        using process_file_syncs [OF less.prems(1) True ready idx less.prems(2) present(2) changed chunks some_ok]
        by simp
      with run True show ?thesis by simp
    next
      case False
      have lt: "length (faults (coll ?w1)) < ?n"
        using process_file_progress [OF ready idx less.prems(2) present(2) chunks some_ok changed False] by simp
      have inv1: "sync_inv ?w1" using less.prems(1) by (simp add: sync_inv_process_file)
      have cons1: "map vr_document (records_of p (items (coll ?w1))) = filter (embedding_ok c) chunks"
        if "dict_get (state ?w1) p = Some ?cur"
        using process_file_sync_records [OF less.prems(1) ready idx less.prems(2) present(2) chunks some_ok changed]
          that by simp
      have synced: "?goal (run_events c (replicate (Suc (length (faults (coll ?w1)))) (Modified p False)) ?w1)"
        using less.hyps [OF lt inv1 files1 cons1] by blast
      obtain k where k: "?n = Suc (length (faults (coll ?w1))) + k" using lt less_imp_Suc_add by blast
      have "run_events c (replicate ?n (Modified p False)) ?w1 =
            run_events c (replicate k (Modified p False))
              (run_events c (replicate (Suc (length (faults (coll ?w1)))) (Modified p False)) ?w1)"
        by (simp only: k replicate_add run_events_append)
      moreover have "files (run_events c (replicate (Suc (length (faults (coll ?w1)))) (Modified p False)) ?w1) p = Some f"
        using files1 files_run_modified [of c _ p ?w1] by (simp del: replicate_Suc)
      ultimately show ?thesis
        using run stays [OF _ synced, of k] by simp
    qed
  qed
qed

text \<open>
  C6. Every event preserves the synchronisation invariant, and so does every run of
  events in arrival order.
\<close>

theorem run_events_preserves_inv: "sync_inv w \<Longrightarrow> sync_inv (run_events c es w)"
  by (rule sync_inv_run)

text \<open>
  After every file event the handler persists the ledger: a crash between two
  events loses nothing, and a restart loads exactly the ledger in memory.
\<close>

theorem dispatch_persists:
  assumes "e \<in> {Modified p False, Created p False, Deleted p False, Moved p q False}"
  shows "load_processed_files_state (state_file (dispatch c e w)) current = state (dispatch c e w)"
  using assms
  by (auto simp: on_modified_def on_created_def on_deleted_def on_moved_def save_state_def load_save)

text \<open>
  C17. A move with a healthy store and distinct paths leaves no chunk and no ledger
  entry under the old path; the new path is processed like a created file.
\<close>

theorem move_clears_source:
  assumes inv: "sync_inv w" and healthy: "faults (coll w) = []" and ready: "collection_ready c"
    and ne: "dest \<noteq> src"
  shows "records_of src (items (coll (dispatch c (Moved src dest False) w))) = [] \<and>
         dict_get (state (dispatch c (Moved src dest False) w)) src = None \<and>
         dispatch c (Moved src dest False) w =
           save_state (process_file c dest (remove_deleted_file c src w))"
proof -
  have "records_of src (items (coll (remove_deleted_file c src w))) = [] \<and>
        dict_get (state (remove_deleted_file c src w)) src = None"
    by (rule remove_deleted_file_clears [OF inv healthy ready])
  with process_file_frame [of src dest c "remove_deleted_file c src w"] ne show ?thesis
    by (simp add: on_moved_def)
qed


text \<open>
  C7. Retries converge: take a readable file with an embeddable chunk that stays
  unchanged, in a world where its current fingerprint is recorded only together with
  its chunks. If the store fails on a finite schedule of \<open>n\<close> calls, then
  \<open>n + 1\<close> modification events on the file leave it indexed: the store holds
  exactly its embeddable chunks and the ledger its current fingerprint.
\<close>

theorem modified_events_eventually_index:
  assumes inv: "sync_inv w"
    and ready: "collection_ready c" "embed_model c = Some m" and idx: "is_indexable (cfg c) p"
    and present: "files w p = Some f" "f_readable f"
    and chunks: "chunk_text_default (f_content f) = Some chunks"
    and some_ok: "\<exists>ch \<in> set chunks. embedding_ok c ch"
    and consistent: "dict_get (state w) p = Some \<lparr>fs_mtime = f_mtime f, fs_hash = md5 c (f_content f)\<rparr> \<longrightarrow>
                     map vr_document (records_of p (items (coll w))) = filter (embedding_ok c) chunks"
  shows "map vr_document (records_of p (items (coll (run_events c (replicate (Suc (length (faults (coll w))))
                                                              (Modified p False)) w)))) =
           filter (embedding_ok c) chunks \<and>
         dict_get (state (run_events c (replicate (Suc (length (faults (coll w)))) (Modified p False)) w)) p =
           Some \<lparr>fs_mtime = f_mtime f, fs_hash = md5 c (f_content f)\<rparr>"
  using retries_index [OF inv ready idx present chunks some_ok] consistent by blast

section \<open>Witnesses\<close>

theorem run_events_preserves_inv_witness:
  "sync_inv example_world \<and>
   sync_inv (run_events example_ctx
     [Created example_path False, Moved example_path ''/proj/a/y.py'' False, Deleted ''/proj/a'' True]
     example_world)"
proof -
  have h: "sync_inv example_world" by code_simp
  show ?thesis using h run_events_preserves_inv [OF h] by blast
qed

theorem dispatch_persists_witness:
  "load_processed_files_state (state_file (dispatch example_ctx (Modified example_path False) example_world)) [] =
   state (dispatch example_ctx (Modified example_path False) example_world)"
  by (rule dispatch_persists) simp

theorem move_clears_source_witness:
  "records_of example_path
     (items (coll (dispatch example_ctx (Moved example_path ''/proj/a/y.py'' False) example_synced))) = [] \<and>
   dict_get (state (dispatch example_ctx (Moved example_path ''/proj/a/y.py'' False) example_synced))
     example_path = None"
proof -
  have h: "sync_inv example_synced" "faults (coll example_synced) = []" "collection_ready example_ctx"
    by code_simp+
  have ne: "''/proj/a/y.py'' \<noteq> example_path" by simp
  show ?thesis using move_clears_source [OF h ne] by blast
qed

theorem modified_events_eventually_index_witness:
  "map vr_document (records_of example_path (items (coll (run_events example_ctx
      (replicate 3 (Modified example_path False))
      (example_world\<lparr>coll := (coll example_world)\<lparr>faults := [True, True]\<rparr>\<rparr>))))) = [''hello world''] \<and>
   dict_get (state (run_events example_ctx (replicate 3 (Modified example_path False))
      (example_world\<lparr>coll := (coll example_world)\<lparr>faults := [True, True]\<rparr>\<rparr>))) example_path =
   Some \<lparr>fs_mtime = 1, fs_hash = ''hello world''\<rparr>"
proof -
  let ?w = "example_world\<lparr>coll := (coll example_world)\<lparr>faults := [True, True]\<rparr>\<rparr>"
  have h: "sync_inv ?w" "collection_ready example_ctx" "is_indexable (cfg example_ctx) example_path"
    "files ?w example_path = Some example_file" "f_readable example_file"
    "chunk_text_default (f_content example_file) = Some [''hello world'']"
    "\<exists>ch \<in> set [''hello world'']. embedding_ok example_ctx ch"
    "dict_get (state ?w) example_path = Some \<lparr>fs_mtime = f_mtime example_file,
        fs_hash = md5 example_ctx (f_content example_file)\<rparr> \<longrightarrow>
     map vr_document (records_of example_path (items (coll ?w))) =
       filter (embedding_ok example_ctx) [''hello world'']"
    "Suc (length (faults (coll ?w))) = 3" "f_mtime example_file = 1"
    "md5 example_ctx (f_content example_file) = ''hello world''"
    "filter (embedding_ok example_ctx) [''hello world''] = [''hello world'']"
    by code_simp+
  have m: "embed_model example_ctx = Some (\<lambda>s. Some [1])" by (simp add: example_ctx_def)
  show ?thesis
    using modified_events_eventually_index [OF h(1,2) m h(3-8)] by (simp only: h(9-12))
qed

end
