(* ===== verification/Scanner.thy ===== *)
theory Scanner
  imports Engine
begin

text \<open>
  The initial full ingestion of \<^verbatim>\<open>initial_ingestion_and_start_watching\<close>
  (\<^verbatim>\<open>src/ingest.py\<close>, lines 293--333): the walk of every project root, pruning
  the excluded directory names, then one pass over the files found that reprocesses
  the new and changed ones and counts them.

  The walk is a function of a listing of the files on disk, in the order
  \<^verbatim>\<open>os.walk\<close> meets them (the order of the directory entries is the file
  system's, so it is a parameter and the theorems hold for every order). A root that
  is not a directory has no file below it, which is the \<^verbatim>\<open>continue\<close> of line 299.
  The listing holds the paths as \<^verbatim>\<open>os.path.join(dirpath, filename)\<close> builds them
  from a root written as in the listing.
\<close>

section \<open>The walk\<close>

definition root_prefix :: "path \<Rightarrow> path" where
  "root_prefix root_dir = (if py_endswith root_dir ''/'' then root_dir else root_dir @ ''/'')"

text \<open>
  \<^verbatim>\<open>os.walk(root_dir)\<close> with \<^verbatim>\<open>dirnames[:] = [d for d in dirnames if d not in
  EXCLUDE_DIRS]\<close>: a file is reached when it lies below the root and no directory
  between the root and the file has an excluded name.
\<close>

definition walk_root :: "config \<Rightarrow> path list \<Rightarrow> path \<Rightarrow> path list" where
  "walk_root conf listing root_dir =
     [p \<leftarrow> listing. py_startswith p (root_prefix root_dir) \<and>
        (\<forall>d \<in> set (butlast (split_on (CHR ''/'') (drop (length (root_prefix root_dir)) p))).
           d \<notin> set (exclude_dirs conf))]"

definition files_to_scan :: "config \<Rightarrow> path list \<Rightarrow> path list" where
  "files_to_scan conf listing = concat (map (walk_root conf listing) (project_roots conf))"

section \<open>The pass over the files\<close>

text \<open>
  One iteration of lines 306--331, on the world and \<^verbatim>\<open>initial_processed_count\<close>.
  For a tracked file, \<^verbatim>\<open>FileNotFoundError\<close> from \<^verbatim>\<open>os.path.getmtime\<close> removes it;
  \<^verbatim>\<open>calculate_file_hash\<close> catches its own errors.
\<close>

definition scan_one :: "ctx \<Rightarrow> path \<Rightarrow> world \<times> nat \<Rightarrow> world \<times> nat" where
  "scan_one c file_path wn =
     (let (w, n) = wn in
      if has_included_ext (cfg c) file_path then
        if in_excluded_dir (cfg c) file_path then (w, n)
        else
          (let (w', needs_processing) =
             (case dict_get (state w) file_path of
                None \<Rightarrow> (w, True)
              | Some old_state \<Rightarrow>
                  (case os_getmtime w file_path of
                     None \<Rightarrow> (remove_deleted_file c file_path w, False)
                   | Some current_mtime \<Rightarrow>
                       (w, \<not> (fs_mtime old_state = current_mtime \<and>
                               fs_hash old_state = calculate_file_hash c w file_path))))
           in if needs_processing then (process_file c file_path w', Suc n) else (w', n))
      else (w, n))"

primrec scan_files :: "ctx \<Rightarrow> path list \<Rightarrow> world \<times> nat \<Rightarrow> world \<times> nat" where
  "scan_files c [] wn = wn"
| "scan_files c (p # ps) wn = scan_files c ps (scan_one c p wn)"

text \<open>Lines 293--332: the walk, the pass, and the save that closes it.\<close>

definition initial_scan :: "ctx \<Rightarrow> path list \<Rightarrow> world \<Rightarrow> world \<times> nat" where
  "initial_scan c listing w =
     (let (w', n) = scan_files c (files_to_scan (cfg c) listing) (w, 0)
      in (save_state w', n))"


section \<open>The pass, one file at a time\<close>

lemma scan_one_cases:
  obtains (skip) "scan_one c p (w, n) = (w, n)"
  | (remove) "scan_one c p (w, n) = (remove_deleted_file c p w, n)"
  | (process) "scan_one c p (w, n) = (process_file c p w, Suc n)"
proof -
  consider "\<not> has_included_ext (cfg c) p \<or> in_excluded_dir (cfg c) p"
    | "has_included_ext (cfg c) p" "\<not> in_excluded_dir (cfg c) p" "dict_get (state w) p = None"
    | old where "has_included_ext (cfg c) p" "\<not> in_excluded_dir (cfg c) p"
        "dict_get (state w) p = Some old" "os_getmtime w p = None"
    | old m where "has_included_ext (cfg c) p" "\<not> in_excluded_dir (cfg c) p"
        "dict_get (state w) p = Some old" "os_getmtime w p = Some m"
    by (cases "dict_get (state w) p"; cases "os_getmtime w p") auto
  then show thesis
  proof cases
    case 1 then show thesis by (intro skip) (auto simp: scan_one_def)
  next
    case 2 then show thesis by (intro process) (simp add: scan_one_def)
  next
    case 3 then show thesis by (intro remove) (simp add: scan_one_def)
  next
    case 4
    then show thesis
      by (cases "fs_mtime old = m \<and> fs_hash old = calculate_file_hash c w p")
        (simp_all add: scan_one_def that)
  qed
qed

lemma scan_one_preserves:
  assumes "P w"
    and "\<And>w. P w \<Longrightarrow> P (process_file c p w)" and "\<And>w. P w \<Longrightarrow> P (remove_deleted_file c p w)"
  shows "P (fst (scan_one c p (w, n)))"
  by (cases rule: scan_one_cases [of c p w n]) (simp_all add: assms)

lemma scan_files_preserves:
  assumes "P w"
    and "\<And>w p. p \<in> set ps \<Longrightarrow> P w \<Longrightarrow> P (process_file c p w)"
    and "\<And>w p. p \<in> set ps \<Longrightarrow> P w \<Longrightarrow> P (remove_deleted_file c p w)"
  shows "P (fst (scan_files c ps (w, n)))"
  using assms
proof (induction ps arbitrary: w n)
  case Nil
  then show ?case by simp
next
  case (Cons p ps)
  obtain w' n' where step: "scan_one c p (w, n) = (w', n')" by fastforce
  have "P w'"
    using scan_one_preserves [of P w c p n] Cons.prems step by auto
  then show ?case
    using Cons.IH [of w' n'] Cons.prems step by simp
qed

lemma sync_inv_scan: "sync_inv w \<Longrightarrow> sync_inv (fst (scan_files c ps (w, n)))"
  by (rule scan_files_preserves) (simp_all add: sync_inv_process_file sync_inv_remove)

lemma scan_files_frame:
  assumes "q \<notin> set ps"
  shows "records_of q (items (coll (fst (scan_files c ps (w, n))))) = records_of q (items (coll w)) \<and>
         dict_get (state (fst (scan_files c ps (w, n)))) q = dict_get (state w) q \<and>
         files (fst (scan_files c ps (w, n))) = files w"
  apply (rule scan_files_preserves [where P = "\<lambda>w'. records_of q (items (coll w')) = records_of q (items (coll w)) \<and>
         dict_get (state w') q = dict_get (state w) q \<and> files w' = files w"])
  subgoal by simp
  subgoal for w' p using assms process_file_frame [of q p c w'] by auto
  subgoal for w' p using assms remove_frame [of q p c w'] by auto
  done

lemma scan_one_syncs:
  assumes inv: "sync_inv w" and healthy: "faults (coll w) = []"
    and ready: "collection_ready c" "embed_model c = Some m" and idx: "is_indexable (cfg c) p"
    and present: "files w p = Some f" "f_readable f"
    and chunks: "chunk_text_default (f_content f) = Some chunks"
    and some_ok: "\<exists>ch \<in> set chunks. embedding_ok c ch"
  shows "dict_get (state (fst (scan_one c p (w, n)))) p =
           Some \<lparr>fs_mtime = f_mtime f, fs_hash = md5 c (f_content f)\<rparr>"
proof -
  let ?cur = "\<lparr>fs_mtime = f_mtime f, fs_hash = md5 c (f_content f)\<rparr>"
  have g: "has_included_ext (cfg c) p" "\<not> in_excluded_dir (cfg c) p"
    using idx by (simp_all add: is_indexable_def)
  have mt: "os_getmtime w p = Some (f_mtime f)" and h: "calculate_file_hash c w p = md5 c (f_content f)"
    using present by (simp_all add: os_getmtime_def calculate_file_hash_def)
  show ?thesis
  proof (cases "dict_get (state w) p = Some ?cur")
    case True
    then have "scan_one c p (w, n) = (w, n)"
      using g mt h by (simp add: scan_one_def)
    with True show ?thesis by simp
  next
    case False
    have "scan_one c p (w, n) = (process_file c p w, Suc n)"
    proof (cases "dict_get (state w) p")
      case None
      with g show ?thesis by (simp add: scan_one_def)
    next
      case (Some old)
      with False have "\<not> (fs_mtime old = f_mtime f \<and> fs_hash old = md5 c (f_content f))"
        by auto
      with Some g mt h show ?thesis by (simp add: scan_one_def)
    qed
    moreover have "dict_get (state (process_file c p w)) p = Some ?cur"
      using process_file_syncs [OF inv healthy ready idx present False chunks some_ok] by simp
    ultimately show ?thesis by simp
  qed
qed

lemma files_scan_one [simp]: "files (fst (scan_one c p (w, n))) = files w"
  by (cases rule: scan_one_cases [of c p w n]) simp_all

lemma scan_files_syncs:
  assumes inv: "sync_inv w" and healthy: "faults (coll w) = []"
    and ready: "collection_ready c" "embed_model c = Some m" and idx: "is_indexable (cfg c) p"
    and present: "files w p = Some f" "f_readable f"
    and chunks: "chunk_text_default (f_content f) = Some chunks"
    and some_ok: "\<exists>ch \<in> set chunks. embedding_ok c ch"
    and seen: "p \<in> set ps \<or> dict_get (state w) p = Some \<lparr>fs_mtime = f_mtime f, fs_hash = md5 c (f_content f)\<rparr>"
  shows "dict_get (state (fst (scan_files c ps (w, n)))) p =
           Some \<lparr>fs_mtime = f_mtime f, fs_hash = md5 c (f_content f)\<rparr>"
  using inv healthy present(1) seen
proof (induction ps arbitrary: w n)
  case Nil
  then show ?case by simp
next
  case (Cons q ps)
  let ?cur = "\<lparr>fs_mtime = f_mtime f, fs_hash = md5 c (f_content f)\<rparr>"
  obtain w1 n1 where step: "scan_one c q (w, n) = (w1, n1)" by fastforce
  have inv1: "sync_inv w1"
    using scan_one_preserves [of sync_inv w c q n] Cons.prems(1) step
    by (simp add: sync_inv_process_file sync_inv_remove)
  have healthy1: "faults (coll w1) = []"
    using scan_one_preserves [of "\<lambda>w. faults (coll w) = []" w c q n] Cons.prems(2) step
    by (simp add: healthy_process_file healthy_remove)
  have files1: "files w1 p = Some f"
    using files_scan_one [of c q w n] step Cons.prems(3) by simp
  have "p \<in> set ps \<or> dict_get (state w1) p = Some ?cur"
  proof (cases "q = p")
    case True
    then show ?thesis
      using scan_one_syncs [OF Cons.prems(1,2) ready idx Cons.prems(3) present(2) chunks some_ok, of n]
        step by simp
  next
    case False
    have "dict_get (state w1) p = dict_get (state w) p"
      using scan_one_preserves [of "\<lambda>w'. dict_get (state w') p = dict_get (state w) p" w c q n] False step
        process_file_frame [of p q c] remove_frame [of p q c]
      by simp
    with Cons.prems(4) False show ?thesis by auto
  qed
  from Cons.IH [OF inv1 healthy1 files1 this] step show ?case by simp
qed

section \<open>One path through the pass\<close>

text \<open>A visit of a file whose recorded fingerprint is current changes nothing.\<close>

lemma scan_one_synced:
  assumes "files w p = Some f" "f_readable f"
    and "dict_get (state w) p = Some \<lparr>fs_mtime = f_mtime f, fs_hash = md5 c (f_content f)\<rparr>"
  shows "scan_one c p (w, n) = (w, n)"
  using assms by (simp add: scan_one_def os_getmtime_def calculate_file_hash_def)

text \<open>A visit of another path leaves this path's chunks, entry and file alone.\<close>

lemma scan_one_other:
  assumes "q \<noteq> p" and "faults (coll w) = []"
  shows "records_of p (items (coll (fst (scan_one c q (w, n))))) = records_of p (items (coll w)) \<and>
         dict_get (state (fst (scan_one c q (w, n)))) p = dict_get (state w) p \<and>
         files (fst (scan_one c q (w, n))) = files w \<and> faults (coll (fst (scan_one c q (w, n)))) = []"
proof (cases rule: scan_one_cases [of c q w n])
  case remove
  with assms show ?thesis using remove_frame [of p q c w] by (simp add: healthy_remove)
next
  case process
  with assms show ?thesis using process_file_frame [of p q c w] by (simp add: healthy_process_file)
qed (simp add: assms)

lemma scan_files_path:
  assumes "Q w" and step: "\<And>q v n. Q v \<Longrightarrow> Q (fst (scan_one c q (v, n)))"
  shows "Q (fst (scan_files c ps (w, n)))"
  using assms(1)
proof (induction ps arbitrary: w n)
  case (Cons q ps)
  obtain w' n' where s: "scan_one c q (w, n) = (w', n')" by fastforce
  have "Q w'" using step [OF Cons.prems, of q n] s by simp
  then show ?case using Cons.IH [of w' n'] s by simp
qed simp

text \<open>
  A pass over a list that holds \<open>p\<close> moves the world from \<open>Q\<close> to \<open>R\<close>, when
  other visits keep \<open>Q\<close>, the visit of \<open>p\<close> establishes \<open>R\<close>, and every visit keeps
  \<open>R\<close>.
\<close>

lemma scan_files_reaches:
  assumes "Q w" and "p \<in> set ps"
    and other: "\<And>q v n. q \<noteq> p \<Longrightarrow> Q v \<Longrightarrow> Q (fst (scan_one c q (v, n)))"
    and visit: "\<And>v n. Q v \<Longrightarrow> R (fst (scan_one c p (v, n)))"
    and keep: "\<And>q v n. R v \<Longrightarrow> R (fst (scan_one c q (v, n)))"
  shows "R (fst (scan_files c ps (w, n)))"
  using assms(1,2)
proof (induction ps arbitrary: w n)
  case (Cons q ps)
  obtain w' n' where s: "scan_one c q (w, n) = (w', n')" by fastforce
  show ?case
  proof (cases "q = p")
    case True
    then have "R w'" using visit [OF Cons.prems(1), of n] s by simp
    then have "R (fst (scan_files c ps (w', n')))" by (rule scan_files_path) (rule keep)
    with s show ?thesis by simp
  next
    case False
    then have "Q w'" "p \<in> set ps" using other [OF False Cons.prems(1), of n] s Cons.prems(2) by auto
    from Cons.IH [OF this] s show ?thesis by simp
  qed
qed simp

section \<open>Properties of the initial scan\<close>

lemma initial_scan_fst:
  "fst (initial_scan c listing w) = save_state (fst (scan_files c (files_to_scan (cfg c) listing) (w, 0)))"
  by (simp add: initial_scan_def split: prod.split)

lemma initial_scan_preserves:
  assumes "P w"
    and pf: "\<And>w p. P w \<Longrightarrow> P (process_file c p w)"
    and rm: "\<And>w p. P w \<Longrightarrow> P (remove_deleted_file c p w)"
    and sv: "\<And>w. P w \<Longrightarrow> P (save_state w)"
  shows "P (fst (initial_scan c listing w))"
  unfolding initial_scan_fst
  by (rule sv, rule scan_files_preserves) (simp_all add: assms)

lemma ids_fresh_scan: "ids_fresh w \<Longrightarrow> ids_fresh (fst (initial_scan c listing w))"
  unfolding initial_scan_fst
  by (simp, rule scan_files_preserves) (simp_all add: ids_fresh_process_file ids_fresh_remove)

text \<open>
  The initial scan preserves the synchronisation invariant, for every listing of
  the disk and every order of the walk.
\<close>

theorem initial_scan_preserves_inv: "sync_inv w \<Longrightarrow> sync_inv (fst (initial_scan c listing w))"
  by (simp add: initial_scan_fst sync_inv_scan)

text \<open>
  C14. With a healthy store, after the initial scan every file the walk reaches that is
  indexable, readable and has an embeddable chunk is recorded in the ledger with its
  current fingerprint, whatever the order of the walk and even when two roots overlap.
\<close>

theorem initial_scan_syncs:
  assumes inv: "sync_inv w" and healthy: "faults (coll w) = []"
    and ready: "collection_ready c" "embed_model c = Some m" and idx: "is_indexable (cfg c) p"
    and present: "files w p = Some f" "f_readable f"
    and chunks: "chunk_text_default (f_content f) = Some chunks"
    and some_ok: "\<exists>ch \<in> set chunks. embedding_ok c ch"
    and walked: "p \<in> set (files_to_scan (cfg c) listing)"
  shows "dict_get (state (fst (initial_scan c listing w))) p =
           Some \<lparr>fs_mtime = f_mtime f, fs_hash = md5 c (f_content f)\<rparr>"
  using scan_files_syncs [OF inv healthy ready idx present chunks some_ok, of "files_to_scan (cfg c) listing" 0]
    walked
  by (simp add: initial_scan_fst)

text \<open>
  C28. A file the walk does not reach keeps its ledger entry and its chunks through the
  initial scan: a file deleted while the watcher was not running stays indexed,
  although the specification says the scan removes every tracked path that is no
  longer on disk.
\<close>

theorem initial_scan_keeps_unlisted:
  assumes "p \<notin> set (files_to_scan (cfg c) listing)"
  shows "dict_get (state (fst (initial_scan c listing w))) p = dict_get (state w) p \<and>
         records_of p (items (coll (fst (initial_scan c listing w)))) = records_of p (items (coll w))"
  using scan_files_frame [OF assms, of c w 0]
  by (simp add: initial_scan_fst)

section \<open>Witnesses\<close>

theorem initial_scan_preserves_inv_witness:
  "sync_inv example_world \<and> sync_inv (fst (initial_scan example_ctx [example_path] example_world))"
proof -
  have h: "sync_inv example_world" by code_simp
  show ?thesis using h initial_scan_preserves_inv [OF h] by blast
qed

theorem initial_scan_syncs_witness:
  "dict_get (state (fst (initial_scan example_ctx [example_path] example_world))) example_path =
     Some \<lparr>fs_mtime = 1, fs_hash = ''hello world''\<rparr>"
proof -
  have h: "sync_inv example_world" "faults (coll example_world) = []" "collection_ready example_ctx"
    "is_indexable (cfg example_ctx) example_path"
    "files example_world example_path = Some example_file" "f_readable example_file"
    "chunk_text_default (f_content example_file) = Some [''hello world'']"
    "\<exists>ch \<in> set [''hello world'']. embedding_ok example_ctx ch"
    "example_path \<in> set (files_to_scan (cfg example_ctx) [example_path])"
    "md5 example_ctx (f_content example_file) = ''hello world''" "f_mtime example_file = 1"
    by code_simp+
  have m: "embed_model example_ctx = Some (\<lambda>s. Some [1])"
    by (simp add: example_ctx_def)
  show ?thesis
    using initial_scan_syncs [OF h(1-3) m h(4-9)] h(10,11) by simp
qed

theorem initial_scan_keeps_unlisted_witness:
  "example_path \<notin> set (files_to_scan (cfg example_ctx) []) \<and>
   dict_get (state (fst (initial_scan example_ctx [] (example_synced\<lparr>files := Map.empty\<rparr>)))) example_path =
     Some \<lparr>fs_mtime = 1, fs_hash = ''hello world''\<rparr>"
proof -
  have h: "example_path \<notin> set (files_to_scan (cfg example_ctx) [])" by code_simp
  have d: "dict_get (state (example_synced\<lparr>files := Map.empty\<rparr>)) example_path =
     Some \<lparr>fs_mtime = 1, fs_hash = ''hello world''\<rparr>" by code_simp
  show ?thesis
    using h d initial_scan_keeps_unlisted [OF h, of "example_synced\<lparr>files := Map.empty\<rparr>"] by simp
qed

end
