(* ===== verification/Startup.thy ===== *)
theory Startup
  imports Dispatcher Scanner
begin

text \<open>
  The program's entry point: \<^verbatim>\<open>initialize_components\<close> (\<^verbatim>\<open>src/ingest.py\<close>,
  lines 40--84) and \<^verbatim>\<open>initial_ingestion_and_start_watching\<close> (288--353): load the
  model, connect to the store, load the ledger, scan, then hand the events of the
  watched roots to the handler until the user interrupts, and save once more.

  What the environment answers at startup is a record: the model that
  \<^verbatim>\<open>SentenceTransformer(...)\<close> loads (\<open>None\<close> when it raises) and whether the
  connection, heartbeat and \<^verbatim>\<open>get_or_create_collection\<close> succeed. The events are
  those the observer delivers after it starts, in arrival order. The theory
  \<open>Watcher\<close> models the observer's threads, the sleep loop and
  \<^verbatim>\<open>KeyboardInterrupt\<close>, and proves that this list is what they deliver when
  the handler keeps up.
\<close>

section \<open>Initialisation and the main run\<close>

record init_env =
  model_load :: "(string \<Rightarrow> vector option) option"
  chroma_ok :: bool

definition initialize_components :: "init_env \<Rightarrow> ctx \<Rightarrow> world \<Rightarrow> bool \<times> ctx \<times> world" where
  "initialize_components env c w =
     (case model_load env of
        None \<Rightarrow> (False, c\<lparr>embed_model := None\<rparr>, w)
      | Some encode \<Rightarrow>
          (let c1 = c\<lparr>embed_model := Some encode\<rparr>
           in if \<not> chroma_ok env then (False, c1\<lparr>collection_ready := False\<rparr>, w)
              else (True, c1\<lparr>collection_ready := True\<rparr>,
                    w\<lparr>state := load_processed_files_state (state_file w) (state w)\<rparr>)))"

definition initial_ingestion_and_start_watching ::
  "init_env \<Rightarrow> ctx \<Rightarrow> path list \<Rightarrow> event list \<Rightarrow> world \<Rightarrow> world" where
  "initial_ingestion_and_start_watching env c listing events w =
     (let (ok, c', w1) = initialize_components env c w
      in if \<not> ok then w1
         else
           (let (w2, initial_processed_count) = initial_scan c' listing w1
            in save_state (run_events c' events w2)))"

text \<open>
  The store is consistent with the ledger on disk: the invariant holds of the world
  whose ledger is the one the initialisation loads.
\<close>

definition consistent_start :: "world \<Rightarrow> bool" where
  "consistent_start w \<longleftrightarrow>
     sync_inv (w\<lparr>state := load_processed_files_state (state_file w) (state w)\<rparr>)"

text \<open>
  \<^verbatim>\<open>get_or_create_collection\<close> (line 68): the existing collection, or a new
  empty one.
\<close>

definition get_or_create_collection :: "store option \<Rightarrow> store" where
  "get_or_create_collection collection =
     (case collection of None \<Rightarrow> \<lparr>items = [], log = [], faults = []\<rparr> | Some s \<Rightarrow> s)"

section \<open>A restart after the ledger file was lost\<close>

text \<open>
  The example file indexed by an earlier run whose ledger file is now unreadable;
  the new process starts with the empty dictionary of line 38.
\<close>

definition example_lost_ledger :: world where
  "example_lost_ledger = example_synced\<lparr>state := [], state_file := Corrupt\<rparr>"

definition example_env :: init_env where
  "example_env = \<lparr>model_load = Some (\<lambda>s. Some [1]), chroma_ok = True\<rparr>"

section \<open>Properties of the main run\<close>

lemma initialize_ok:
  "model_load env = Some encode \<Longrightarrow> chroma_ok env \<Longrightarrow>
   initialize_components env c w =
     (True, c\<lparr>embed_model := Some encode, collection_ready := True\<rparr>,
      w\<lparr>state := load_processed_files_state (state_file w) (state w)\<rparr>)"
  by (simp add: initialize_components_def)

lemma main_ok:
  "model_load env = Some encode \<Longrightarrow> chroma_ok env \<Longrightarrow>
   initial_ingestion_and_start_watching env c listing events w =
     save_state (run_events (c\<lparr>embed_model := Some encode, collection_ready := True\<rparr>) events
       (fst (initial_scan (c\<lparr>embed_model := Some encode, collection_ready := True\<rparr>) listing
              (w\<lparr>state := load_processed_files_state (state_file w) (state w)\<rparr>))))"
  by (simp add: initial_ingestion_and_start_watching_def initialize_ok split: prod.split)

text \<open>
  C34. When the model or the store cannot be reached at startup, the program stops
  before touching the store, the ledger or its file.
\<close>

theorem startup_failure_is_fatal:
  assumes "model_load env = None \<or> \<not> chroma_ok env"
  shows "initial_ingestion_and_start_watching env c listing events w = w"
  using assms
  by (auto simp: initial_ingestion_and_start_watching_def initialize_components_def
           split: option.splits)

text \<open>
  A run of the program that starts from a store consistent with the ledger on
  disk keeps the synchronisation invariant through the scan and every event, and
  ends with the ledger on disk equal to the one in memory.
\<close>

theorem main_preserves_inv:
  assumes ok: "model_load env = Some encode" "chroma_ok env" and start: "consistent_start w"
  shows "sync_inv (initial_ingestion_and_start_watching env c listing events w) \<and>
         ledger_persisted (initial_ingestion_and_start_watching env c listing events w)"
proof -
  let ?c = "c\<lparr>embed_model := Some encode, collection_ready := True\<rparr>"
  let ?w = "w\<lparr>state := load_processed_files_state (state_file w) (state w)\<rparr>"
  have "sync_inv ?w" using start by (simp add: consistent_start_def)
  then have "sync_inv (fst (initial_scan ?c listing ?w))"
    by (simp add: initial_scan_fst sync_inv_scan)
  then have "sync_inv (run_events ?c events (fst (initial_scan ?c listing ?w)))"
    by (rule sync_inv_run)
  then show ?thesis
    using main_ok [OF ok, of c listing events w] by simp
qed

text \<open>
  An instance of a lost ledger: the store holds one chunk of the file, the next start
  indexes the file again without deleting it, and the store ends with two copies, a
  mix the invariant forbids.
\<close>

theorem lost_ledger_example:
  "length (records_of example_path (items (coll example_lost_ledger))) = 1 \<and>
   length (records_of example_path
     (items (coll (initial_ingestion_and_start_watching example_env example_ctx [example_path] []
                     example_lost_ledger)))) = 2 \<and>
   \<not> sync_inv (initial_ingestion_and_start_watching example_env example_ctx [example_path] []
                 example_lost_ledger)"
  by code_simp

text \<open>
  A run of the program keeps the record ids of the collection distinct: every
  id it stores carries a uuid not used before.
\<close>

theorem main_keeps_ids_unique:
  assumes "ids_fresh w"
  shows "ids_fresh (initial_ingestion_and_start_watching env c listing events w)"
proof (cases "\<exists>encode. model_load env = Some encode \<and> chroma_ok env")
  case True
  then obtain encode where ok: "model_load env = Some encode" "chroma_ok env" by blast
  have "ids_fresh (w\<lparr>state := load_processed_files_state (state_file w) (state w)\<rparr>)"
    using assms by (simp add: ids_fresh_def)
  then show ?thesis
    using main_ok [OF ok, of c listing events w] by (simp add: ids_fresh_scan ids_fresh_run)
next
  case False
  then have "model_load env = None \<or> \<not> chroma_ok env" by (cases "model_load env") auto
  then have "initial_ingestion_and_start_watching env c listing events w = w"
    by (auto simp: initial_ingestion_and_start_watching_def initialize_components_def split: option.splits)
  with assms show ?thesis by simp
qed

section \<open>Witnesses\<close>

theorem startup_failure_is_fatal_witness:
  "initial_ingestion_and_start_watching (example_env\<lparr>chroma_ok := False\<rparr>) example_ctx [example_path] []
     example_world = example_world"
  by (rule startup_failure_is_fatal) simp

theorem main_preserves_inv_witness:
  "sync_inv (initial_ingestion_and_start_watching example_env example_ctx [example_path]
              [Modified example_path False] example_world)"
proof -
  have ok: "model_load example_env = Some (\<lambda>s. Some [1])" "chroma_ok example_env"
    by (simp_all add: example_env_def)
  have start: "consistent_start example_world" by code_simp
  show ?thesis using main_preserves_inv [OF ok start] by blast
qed

theorem main_keeps_ids_unique_witness:
  "ids_fresh (initial_ingestion_and_start_watching example_env example_ctx [example_path]
               [Modified example_path False, Moved example_path ''/proj/a/y.py'' False] example_world)"
proof -
  have h: "ids_fresh example_world" by code_simp
  show ?thesis using main_keeps_ids_unique [OF h] .
qed

end
