(* ===== verification/Watcher.thy ===== *)
theory Watcher
  imports Startup
begin

text \<open>
  The file-system watcher of \<^verbatim>\<open>initial_ingestion_and_start_watching\<close>
  (\<^verbatim>\<open>src/ingest.py\<close>, lines 335--353). An \<^verbatim>\<open>Observer\<close> gets one recursive watch per
  project root that \<^verbatim>\<open>os.path.isdir\<close> accepts when the watch is scheduled. Once started, its
  emitter threads put the events under the watched roots into one queue, and its
  dispatcher thread hands them to \<^verbatim>\<open>CodeChangeHandler\<close> one at a time, in queue
  order. The main thread sleeps until \<^verbatim>\<open>KeyboardInterrupt\<close>, stops the observer, joins
  it and saves the ledger.

  The threads interleave. Their interleaving is an explicit list of actions: an event
  of the file system reaching an emitter, a turn of the dispatcher thread, the
  interrupt. The queue and its discipline are those of the watchdog library: an emitter
  appends, the dispatcher takes the head, and \<^verbatim>\<open>stop\<close> ends the dispatcher's loop
  with the events still queued left undispatched. The handler's own writes of the
  ledger file are events too when the file lies below a watched root: the dispatcher
  turn \<open>deliver_writes\<close> queues one exactly when the handler's run wrote the file.
\<close>

section \<open>The observer\<close>

record observer =
  watched :: "path list"
  pending :: "event list"
  started :: bool

text \<open>
  Lines 337--343: one \<^verbatim>\<open>schedule\<close> per root that is a directory, the others
  skipped. \<open>isdir\<close> is what \<^verbatim>\<open>os.path.isdir\<close> answers when the watches are
  scheduled, a parameter of the run like the listing of the disk.
\<close>

definition schedule_observer :: "config \<Rightarrow> (path \<Rightarrow> bool) \<Rightarrow> observer" where
  "schedule_observer conf isdir =
     \<lparr>watched = [path \<leftarrow> project_roots conf. isdir path], pending = [], started = False\<rparr>"

fun event_src_path :: "event \<Rightarrow> path" where
  "event_src_path (Modified p d) = p"
| "event_src_path (Created p d) = p"
| "event_src_path (Deleted p d) = p"
| "event_src_path (Moved p q d) = p"
| "event_src_path (Closed p d) = p"

definition observed :: "observer \<Rightarrow> event \<Rightarrow> bool" where
  "observed obs e \<longleftrightarrow> (\<exists>r \<in> set (watched obs). py_startswith (event_src_path e) (root_prefix r))"

text \<open>An emitter thread: a started observer queues the events below its watches.\<close>

definition emit :: "event \<Rightarrow> observer \<Rightarrow> observer" where
  "emit e obs = (if started obs \<and> observed obs e then obs\<lparr>pending := pending obs @ [e]\<rparr> else obs)"

text \<open>A turn of the dispatcher thread: \<^verbatim>\<open>handler.dispatch\<close> on the oldest queued event.\<close>

definition deliver :: "ctx \<Rightarrow> observer \<times> world \<Rightarrow> observer \<times> world" where
  "deliver c ow =
     (case ow of (obs, w) \<Rightarrow>
        (case pending obs of
           [] \<Rightarrow> (obs, w)
         | e # q \<Rightarrow> (obs\<lparr>pending := q\<rparr>, dispatch c e w)))"

text \<open>Line 345 and line 350: \<^verbatim>\<open>observer.start()\<close> and \<^verbatim>\<open>observer.stop()\<close>.\<close>

definition observer_start :: "observer \<Rightarrow> observer" where
  "observer_start obs = obs\<lparr>started := True\<rparr>"

definition observer_stop :: "observer \<Rightarrow> observer" where
  "observer_stop obs = obs\<lparr>started := False, pending := []\<rparr>"

section \<open>Interleavings\<close>

datatype watch_action =
    Fs_event event
  | Handler_turn
  | Interrupt

fun watch_act :: "ctx \<Rightarrow> watch_action \<Rightarrow> observer \<times> world \<Rightarrow> observer \<times> world" where
  "watch_act c (Fs_event e) (obs, w) = (emit e obs, w)"
| "watch_act c Handler_turn (obs, w) = deliver c (obs, w)"
| "watch_act c Interrupt (obs, w) = (observer_stop obs, w)"

primrec run_watch :: "ctx \<Rightarrow> watch_action list \<Rightarrow> observer \<times> world \<Rightarrow> observer \<times> world" where
  "run_watch c [] ow = ow"
| "run_watch c (a # acts) ow = run_watch c acts (watch_act c a ow)"

text \<open>
  Lines 335--353: schedule, start, the interleaving up to and after the interrupt,
  then \<^verbatim>\<open>join\<close> (the dispatcher has finished its event, which a turn is) and
  the final save.
\<close>

definition start_watching :: "ctx \<Rightarrow> (path \<Rightarrow> bool) \<Rightarrow> watch_action list \<Rightarrow> world \<Rightarrow> world" where
  "start_watching c isdir acts w =
     (let observer = observer_start (schedule_observer (cfg c) isdir);
          (observer', w') = run_watch c acts (observer, w)
      in save_state w')"

text \<open>The whole program with its watcher, lines 288--353.\<close>

definition main_watching ::
  "init_env \<Rightarrow> ctx \<Rightarrow> path list \<Rightarrow> (path \<Rightarrow> bool) \<Rightarrow> watch_action list \<Rightarrow> world \<Rightarrow> world" where
  "main_watching env c listing isdir acts w =
     (let (ok, c', w1) = initialize_components env c w
      in if \<not> ok then w1
         else
           (let (w2, initial_processed_count) = initial_scan c' listing w1
            in start_watching c' isdir acts w2))"

text \<open>The file-system events of an interleaving, in the order they happen.\<close>

definition fs_events :: "watch_action list \<Rightarrow> event list" where
  "fs_events acts = [e. Fs_event e \<leftarrow> acts]"

text \<open>Each event followed by a turn of the dispatcher: the handler keeps up.\<close>

definition prompt_schedule :: "event list \<Rightarrow> watch_action list" where
  "prompt_schedule es = concat (map (\<lambda>e. [Fs_event e, Handler_turn]) es)"

section \<open>The ledger file under a watched root\<close>

text \<open>
  \<^verbatim>\<open>PROCESSED_FILES_STATE_FILE\<close> (line 34) is a relative path, so
  \<^verbatim>\<open>open(PROCESSED_FILES_STATE_FILE, 'w')\<close> (line 88) writes it in the working
  directory. Its extension \<^verbatim>\<open>.json\<close> is one the program indexes.
\<close>

definition ledger_path :: "ctx \<Rightarrow> path" where
  "ledger_path c = py_abspath (cwd (cfg c)) ''processed_files_state.json''"

text \<open>
  The events \<^verbatim>\<open>CodeChangeHandler\<close> overrides (lines 266--286), on a file
  (\<^verbatim>\<open>is_directory\<close> false).
\<close>

fun file_event :: "event \<Rightarrow> bool" where
  "file_event (Modified p d) = (\<not> d)"
| "file_event (Created p d) = (\<not> d)"
| "file_event (Deleted p d) = (\<not> d)"
| "file_event (Moved p q d) = (\<not> d)"
| "file_event (Closed p d) = False"

text \<open>
  A turn of the dispatcher thread in which the emitters also see the handler's own
  write of the ledger file. When the handler has written the file (its count of
  writes moved), that rewrite is a modification of the file, which the observer
  queues when the file lies below a watch. \<open>deliver\<close> is this turn when the
  ledger file is outside every watch.
\<close>

definition deliver_writes :: "ctx \<Rightarrow> observer \<times> world \<Rightarrow> observer \<times> world" where
  "deliver_writes c ow =
     (case ow of (obs, w) \<Rightarrow>
        (case pending obs of
           [] \<Rightarrow> (obs, w)
         | e # q \<Rightarrow>
             (let w' = dispatch c e w
              in (if ledger_writes w' \<noteq> ledger_writes w
                  then emit (Modified (ledger_path c) False) (obs\<lparr>pending := q\<rparr>)
                  else obs\<lparr>pending := q\<rparr>,
                  w'))))"

text \<open>
  The queue keeps an event on a file: the dispatcher takes it, and if its handler
  writes the ledger, the write puts a modification of the ledger file back in the
  queue.
\<close>

definition feedback_inv :: "ctx \<Rightarrow> observer \<Rightarrow> bool" where
  "feedback_inv c obs \<longleftrightarrow>
     started obs \<and> observed obs (Modified (ledger_path c) False) \<and> (\<exists>e \<in> set (pending obs). file_event e)"

section \<open>Examples\<close>

text \<open>
  A deployment with a second root \<^verbatim>\<open>/new\<close> that does not exist when the watches
  are scheduled; the file \<^verbatim>\<open>/new/b.py\<close> appears later.
\<close>

definition example_two_roots :: ctx where
  "example_two_roots = example_ctx\<lparr>cfg := (cfg example_ctx)\<lparr>project_roots := [''/proj'', ''/new'']\<rparr>\<rparr>"

definition example_late_root :: world where
  "example_late_root = example_world\<lparr>files := (files example_world)(''/new/b.py'' \<mapsto> example_file)\<rparr>"

text \<open>The indexed example file deleted while the program runs.\<close>

definition example_deleted :: world where
  "example_deleted = (save_state example_synced)\<lparr>files := Map.empty\<rparr>"

text \<open>The program started from the project root \<^verbatim>\<open>/proj\<close> that it watches.\<close>

definition example_in_root :: ctx where
  "example_in_root = example_ctx\<lparr>cfg := (cfg example_ctx)\<lparr>cwd := ''/proj''\<rparr>\<rparr>"

section \<open>The dispatcher thread serialises the events\<close>

lemma observer_fields [simp]:
  "watched (emit e obs) = watched obs" "started (emit e obs) = started obs"
  "watched (observer_start obs) = watched obs" "started (observer_start obs)"
  "pending (emit e obs) = pending obs @ (if started obs \<and> observed obs e then [e] else [])"
  "pending (observer_start obs) = pending obs" "pending (schedule_observer conf isdir) = []"
  by (simp_all add: emit_def observer_start_def schedule_observer_def)

lemma observed_cong: "watched obs' = watched obs \<Longrightarrow> observed obs' = observed obs"
  by (simp add: observed_def fun_eq_iff)

lemma observed_frame [simp]:
  "observed (emit e obs) = observed obs" "observed (obs\<lparr>pending := q\<rparr>) = observed obs"
  by (rule observed_cong, simp)+

lemma fs_events_simps [simp]:
  "fs_events [] = []" "fs_events (Fs_event e # acts) = e # fs_events acts"
  "fs_events (Handler_turn # acts) = fs_events acts" "fs_events (Interrupt # acts) = fs_events acts"
  by (simp_all add: fs_events_def)

lemma deliver_Cons:
  "pending obs = e # q \<Longrightarrow> deliver c (obs, w) = (obs\<lparr>pending := q\<rparr>, dispatch c e w)"
  by (simp add: deliver_def)

lemma deliver_Nil: "pending obs = [] \<Longrightarrow> deliver c (obs, w) = (obs, w)"
  by (simp add: deliver_def)

text \<open>Draining the queue is handling its events in order.\<close>

lemma drain:
  "(deliver c ^^ length (pending obs)) (obs, w) = (obs\<lparr>pending := []\<rparr>, run_events c (pending obs) w)"
proof (induction "pending obs" arbitrary: obs w)
  case Nil
  then show ?case by simp
next
  case (Cons e q)
  have "(deliver c ^^ length (pending obs)) (obs, w) =
        (deliver c ^^ length q) (obs\<lparr>pending := q\<rparr>, dispatch c e w)"
    using Cons.hyps(2) [symmetric] by (simp only: length_Cons funpow_Suc_right o_apply deliver_Cons)
  also have "\<dots> = (obs\<lparr>pending := []\<rparr>, run_events c q (dispatch c e w))"
    using Cons.hyps(1) [of "obs\<lparr>pending := q\<rparr>"] by simp
  finally show ?case using Cons.hyps(2) [symmetric] by simp
qed

text \<open>
  Before the interrupt, the queue followed by the events handled so far is the
  arrival order: the world and the queue together equal the handler run over the
  queued events followed by the observed ones that arrived since.
\<close>

lemma run_watch_serial:
  assumes "run_watch c acts (obs, w) = (obs', w')" and "started obs" and "Interrupt \<notin> set acts"
  shows "run_events c (pending obs') w' = run_events c (pending obs @ filter (observed obs) (fs_events acts)) w \<and>
         started obs' \<and> watched obs' = watched obs"
  using assms
proof (induction acts arbitrary: obs w)
  case Nil
  then show ?case by simp
next
  case (Cons a acts)
  show ?case
  proof (cases a)
    case (Fs_event e)
    have "run_watch c acts (emit e obs, w) = (obs', w')" using Cons.prems(1) Fs_event by simp
    from Cons.IH [OF this] Cons.prems(2,3) Fs_event show ?thesis
      by (simp add: observed_cong [of "emit e obs" obs])
  next
    case Handler_turn
    show ?thesis
    proof (cases "pending obs")
      case Nil
      then have "run_watch c acts (obs, w) = (obs', w')" using Cons.prems(1) Handler_turn by (simp add: deliver_Nil)
      from Cons.IH [OF this] Cons.prems(2,3) Handler_turn Nil show ?thesis by simp
    next
      case (Cons e q)
      have "run_watch c acts (obs\<lparr>pending := q\<rparr>, dispatch c e w) = (obs', w')"
        using Cons.prems(1) Handler_turn \<open>pending obs = e # q\<close> by (simp add: deliver_Cons)
      from Cons.IH [OF this] Cons.prems(2,3) Handler_turn \<open>pending obs = e # q\<close> show ?thesis
        by (simp add: observed_cong [of "obs\<lparr>pending := q\<rparr>" obs])
    qed
  next
    case Interrupt
    with Cons.prems(3) show ?thesis by simp
  qed
qed

lemma run_watch_preserves:
  assumes step: "\<And>e w. P w \<Longrightarrow> P (dispatch c e w)" and start: "P (snd ow)"
  shows "P (snd (run_watch c acts ow))"
  using start
proof (induction acts arbitrary: ow)
  case (Cons a acts)
  obtain obs w where ow: "ow = (obs, w)" by fastforce
  have "P (snd (watch_act c a (obs, w)))"
    using Cons.prems ow step
    by (cases a; cases "pending obs") (simp_all add: deliver_Nil deliver_Cons)
  then show ?case using Cons.IH ow by simp
qed simp

lemma pending_Nil_update: "pending obs = [] \<Longrightarrow> obs\<lparr>pending := []\<rparr> = obs"
  by simp

lemma run_watch_prompt:
  assumes "started obs" and "pending obs = []"
  shows "run_watch c (prompt_schedule es) (obs, w) = (obs, run_events c (filter (observed obs) es) w)"
  using assms
proof (induction es arbitrary: w)
  case (Cons e es)
  have turn: "run_watch c [Fs_event e, Handler_turn] (obs, w) =
              (obs, if observed obs e then dispatch c e w else w)"
    using Cons.prems by (simp add: deliver_Nil deliver_Cons)
  have "run_watch c (prompt_schedule (e # es)) (obs, w) =
        run_watch c (prompt_schedule es) (run_watch c [Fs_event e, Handler_turn] (obs, w))"
    by (simp add: prompt_schedule_def)
  then show ?case using turn Cons.IH [OF Cons.prems] by simp
qed (simp add: prompt_schedule_def)

lemma main_watching_ok:
  "model_load env = Some encode \<Longrightarrow> chroma_ok env \<Longrightarrow>
   main_watching env c listing isdir acts w =
     save_state (snd (run_watch (c\<lparr>embed_model := Some encode, collection_ready := True\<rparr>) acts
       (observer_start (schedule_observer (cfg c) isdir),
        fst (initial_scan (c\<lparr>embed_model := Some encode, collection_ready := True\<rparr>) listing
              (w\<lparr>state := load_processed_files_state (state_file w) (state w)\<rparr>)))))"
  by (simp add: main_watching_def start_watching_def initialize_ok split: prod.split)

lemma main_watching_fails:
  "model_load env = None \<or> \<not> chroma_ok env \<Longrightarrow> main_watching env c listing isdir acts w = w"
  by (auto simp: main_watching_def initialize_components_def split: option.splits)

section \<open>The ledger file feeds back\<close>

lemma deliver_writes_Nil: "pending obs = [] \<Longrightarrow> deliver_writes c (obs, w) = (obs, w)"
  by (simp add: deliver_writes_def)

lemma deliver_writes_Cons:
  "pending obs = e # q \<Longrightarrow>
   deliver_writes c (obs, w) =
     (if ledger_writes (dispatch c e w) \<noteq> ledger_writes w
      then emit (Modified (ledger_path c) False) (obs\<lparr>pending := q\<rparr>) else obs\<lparr>pending := q\<rparr>,
      dispatch c e w)"
  by (simp add: deliver_writes_def Let_def)

lemma ledger_writes_process_file [simp]: "ledger_writes (process_file c p w) = ledger_writes w"
  by (auto simp: process_file_def ingest_content_def Let_def split: option.splits prod.splits)

lemma ledger_writes_remove [simp]: "ledger_writes (remove_deleted_file c p w) = ledger_writes w"
  by (auto simp: remove_deleted_file_def split: prod.splits)

text \<open>Every handler of a file event writes the ledger once; the other events change nothing.\<close>

lemma dispatch_writes_ledger:
  "file_event e \<Longrightarrow> ledger_writes (dispatch c e w) = Suc (ledger_writes w)"
  by (cases e) (simp_all add: on_modified_def on_created_def on_deleted_def on_moved_def save_state_def)

lemma dispatch_other: "\<not> file_event e \<Longrightarrow> dispatch c e w = w"
  by (cases e) (simp_all add: on_modified_def on_created_def on_deleted_def on_moved_def)

lemma deliver_writes_unwatched:
  assumes "\<not> observed obs (Modified (ledger_path c) False)"
  shows "deliver_writes c (obs, w) = deliver c (obs, w)"
proof (cases "pending obs")
  case (Cons e q)
  have "\<not> observed (obs\<lparr>pending := q\<rparr>) (Modified (ledger_path c) False)"
    using assms observed_cong [of "obs\<lparr>pending := q\<rparr>" obs] by simp
  then show ?thesis using Cons by (simp add: deliver_writes_Cons deliver_Cons emit_def)
qed (simp add: deliver_writes_Nil deliver_Nil)

lemma feedback_inv_step:
  assumes "feedback_inv c obs"
  shows "feedback_inv c (fst (deliver_writes c (obs, w))) \<and> snd (deliver_writes c (obs, w)) = dispatch c (hd (pending obs)) w"
proof -
  obtain e q where pq: "pending obs = e # q"
    using assms by (cases "pending obs") (auto simp: feedback_inv_def)
  have obs': "observed (obs\<lparr>pending := q\<rparr>) = observed obs" by (rule observed_cong) simp
  show ?thesis
  proof (cases "file_event e")
    case True
    with assms pq obs' show ?thesis by (simp add: deliver_writes_Cons feedback_inv_def dispatch_writes_ledger)
  next
    case False
    then have "\<exists>e' \<in> set q. file_event e'" using assms pq by (auto simp: feedback_inv_def)
    with assms pq obs' False show ?thesis by (simp add: deliver_writes_Cons feedback_inv_def dispatch_other)
  qed
qed

lemma feedback_inv_funpow:
  "feedback_inv c obs \<Longrightarrow> feedback_inv c (fst ((deliver_writes c ^^ n) (obs, w)))"
proof (induction n)
  case (Suc n)
  obtain obs' w' where ow: "(deliver_writes c ^^ n) (obs, w) = (obs', w')" by fastforce
  with Suc have "feedback_inv c obs'" by simp
  then show ?case using feedback_inv_step [of c obs' w'] ow by simp
qed simp

lemma watched_deliver [simp]: "watched (fst (deliver c ow)) = watched (fst ow)"
  by (simp add: deliver_def split: prod.split list.split)

lemma deliver_writes_funpow_unwatched:
  "\<not> observed obs (Modified (ledger_path c) False) \<Longrightarrow>
   (deliver_writes c ^^ n) (obs, w) = (deliver c ^^ n) (obs, w)"
proof (induction n arbitrary: obs w)
  case (Suc n)
  obtain obs' w' where d: "deliver c (obs, w) = (obs', w')" by fastforce
  have "watched obs' = watched obs" using watched_deliver [of c "(obs, w)"] d by simp
  then have "\<not> observed obs' (Modified (ledger_path c) False)"
    using Suc.prems observed_cong [of obs' obs] by simp
  then have ih: "(deliver_writes c ^^ n) (obs', w') = (deliver c ^^ n) (obs', w')" by (rule Suc.IH)
  have dw: "deliver_writes c (obs, w) = (obs', w')"
    using deliver_writes_unwatched [OF Suc.prems, of w] d by simp
  show ?case by (simp only: funpow_Suc_right o_apply d dw ih)
qed simp

lemma watched_stop [simp]: "watched (observer_stop obs) = watched obs"
  by (simp add: observer_stop_def)

text \<open>An event the observer does not watch is dropped by its emitter and never dispatched.\<close>

lemma run_watch_unobserved:
  "\<not> observed obs e \<Longrightarrow>
   run_watch c acts (obs, w) = run_watch c (filter (\<lambda>a. a \<noteq> Fs_event e) acts) (obs, w)"
proof (induction acts arbitrary: obs w)
  case (Cons a acts)
  obtain obs' w' where step: "watch_act c a (obs, w) = (obs', w')" by fastforce
  have "watched obs' = watched obs"
    using step watched_deliver [of c "(obs, w)"] by (cases a) auto
  then have "\<not> observed obs' e" using Cons.prems observed_cong [of obs' obs] by simp
  then have ih: "run_watch c acts (obs', w') = run_watch c (filter (\<lambda>a. a \<noteq> Fs_event e) acts) (obs', w')"
    by (rule Cons.IH)
  show ?case
  proof (cases "a = Fs_event e")
    case True
    with step Cons.prems have "obs' = obs" "w' = w" by (auto simp: emit_def)
    with True ih step show ?thesis by simp
  next
    case False
    with ih step show ?thesis by simp
  qed
qed simp



section \<open>Properties of the watcher\<close>

text \<open>
  The dispatcher thread serialises the events: however the emitter threads and
  the dispatcher interleave before the interrupt, once the queue is drained the
  world is the one the handler gives on the queued events followed by the observed
  events in arrival order. No observed event is lost, repeated or reordered.
\<close>

theorem watcher_serializes:
  assumes run: "run_watch c acts (obs, w) = (obs', w')" and "started obs" and "Interrupt \<notin> set acts"
  shows "(deliver c ^^ length (pending obs')) (obs', w') =
           (obs'\<lparr>pending := []\<rparr>, run_events c (pending obs @ filter (observed obs) (fs_events acts)) w)"
  using drain [where c = c and obs = obs' and w = w'] run_watch_serial [OF assms] by simp

text \<open>
  The event-list model of the main run is the watcher's: when the dispatcher takes
  each event as it arrives, the program with its observer threads ends in the world
  the main run gives on the events below the roots that were directories when the
  watches were scheduled.
\<close>

theorem main_watching_refines:
  "main_watching env c listing isdir (prompt_schedule es) w =
   initial_ingestion_and_start_watching env c listing
     (filter (observed (schedule_observer (cfg c) isdir)) es) w"
proof (cases "\<exists>encode. model_load env = Some encode \<and> chroma_ok env")
  case True
  then obtain encode where ok: "model_load env = Some encode" "chroma_ok env" by blast
  have obs: "observed (observer_start (schedule_observer (cfg c) isdir)) =
             observed (schedule_observer (cfg c) isdir)"
    by (rule observed_cong) simp
  show ?thesis
    using main_watching_ok [OF ok, of c listing isdir "prompt_schedule es" w] main_ok [OF ok]
    by (simp add: run_watch_prompt obs)
next
  case False
  then have "model_load env = None \<or> \<not> chroma_ok env" by (cases "model_load env") auto
  moreover have "initial_ingestion_and_start_watching env c listing
                   (filter (observed (schedule_observer (cfg c) isdir)) es) w = w"
    using calculation
    by (auto simp: initial_ingestion_and_start_watching_def initialize_components_def split: option.splits)
  ultimately show ?thesis by (simp add: main_watching_fails)
qed

text \<open>
  C2. The program with its watcher threads, under every interleaving of events,
  dispatcher turns and the interrupt, keeps the synchronisation invariant from a
  store consistent with the ledger file, and ends with the ledger file equal to the
  ledger in memory.
\<close>

theorem main_watching_preserves_inv:
  assumes ok: "model_load env = Some encode" "chroma_ok env" and start: "consistent_start w"
  shows "sync_inv (main_watching env c listing isdir acts w) \<and> ledger_persisted (main_watching env c listing isdir acts w)"
proof -
  let ?c = "c\<lparr>embed_model := Some encode, collection_ready := True\<rparr>"
  let ?w = "w\<lparr>state := load_processed_files_state (state_file w) (state w)\<rparr>"
  have "sync_inv ?w" using start by (simp add: consistent_start_def)
  then have "sync_inv (fst (initial_scan ?c listing ?w))"
    by (simp add: initial_scan_fst sync_inv_scan)
  then have "sync_inv (snd (run_watch ?c acts
               (observer_start (schedule_observer (cfg c) isdir), fst (initial_scan ?c listing ?w))))"
    by (intro run_watch_preserves [where P = sync_inv]) (simp_all add: sync_inv_dispatch)
  then show ?thesis using main_watching_ok [OF ok, of c listing isdir acts w] by simp
qed

text \<open>
  C31. A root that is not a directory when the watches are scheduled is never
  watched, even once it exists. An event below no root that was a directory then
  has no effect in any interleaving: the run is the run without it. So a file created
  below such a root is not indexed while the program runs. The specification says the
  watcher detects the creation of files below the configured roots.
\<close>

theorem late_root_never_watched:
  assumes "\<forall>r \<in> set (project_roots (cfg c)). isdir r \<longrightarrow> \<not> py_startswith (event_src_path e) (root_prefix r)"
  shows "run_watch c acts (observer_start (schedule_observer (cfg c) isdir), w) =
         run_watch c (filter (\<lambda>a. a \<noteq> Fs_event e) acts) (observer_start (schedule_observer (cfg c) isdir), w)"
proof -
  have "\<not> observed (observer_start (schedule_observer (cfg c) isdir)) e"
    using assms by (simp add: observed_def schedule_observer_def observer_start_def)
  then show ?thesis by (rule run_watch_unobserved)
qed


text \<open>
  An instance: a deletion still queued at the interrupt leaves the chunks and the
  entry of the deleted file after the next start; handled before the interrupt, it
  removes them.
\<close>

theorem interrupt_example:
  "records_of example_path (items (coll (initial_ingestion_and_start_watching example_env example_ctx [] []
      (start_watching example_ctx (\<lambda>r. True)
         [Fs_event (Deleted example_path False), Interrupt, Handler_turn] example_deleted)))) \<noteq> [] \<and>
   dict_get (state (initial_ingestion_and_start_watching example_env example_ctx [] []
      (start_watching example_ctx (\<lambda>r. True)
         [Fs_event (Deleted example_path False), Interrupt, Handler_turn] example_deleted))) example_path \<noteq> None \<and>
   records_of example_path (items (coll (start_watching example_ctx (\<lambda>r. True)
         [Fs_event (Deleted example_path False), Handler_turn, Interrupt] example_deleted))) = []"
  by code_simp

text \<open>
  C8. When the working directory lies below a watched root, the program never falls
  idle. Every handler of a file event ends by writing the ledger file, that write is
  a modification the observer queues, and its handler writes the file again. After
  any number of turns of the dispatcher thread, the queue still holds a file event.
\<close>

theorem ledger_feedback_never_idle:
  assumes "started obs" and "observed obs (Modified (ledger_path c) False)"
    and "\<exists>e \<in> set (pending obs). file_event e"
  shows "\<exists>e \<in> set (pending (fst ((deliver_writes c ^^ n) (obs, w)))). file_event e"
  using feedback_inv_funpow [of c obs n w] assms by (simp add: feedback_inv_def)

text \<open>
  When the ledger file lies outside every watch, the handler's own writes are not
  observed: any number of dispatcher turns with the writes seen are the turns of
  \<open>deliver\<close>, so the watcher theorems above describe the program.
\<close>

theorem ledger_outside_roots_refines:
  assumes "\<not> observed obs (Modified (ledger_path c) False)"
  shows "(deliver_writes c ^^ n) (obs, w) = (deliver c ^^ n) (obs, w)"
  using assms by (rule deliver_writes_funpow_unwatched)

section \<open>Witnesses\<close>

theorem watcher_serializes_witness:
  "(deliver example_ctx ^^ 1)
     (run_watch example_ctx [Fs_event (Modified example_path False), Fs_event (Modified ''/etc/x.py'' False),
                             Fs_event (Deleted example_path False), Handler_turn]
        (\<lparr>watched = [''/proj''], pending = [], started = True\<rparr>, example_world)) =
   (\<lparr>watched = [''/proj''], pending = [], started = True\<rparr>,
    run_events example_ctx [Modified example_path False, Deleted example_path False] example_world)"
proof -
  let ?obs = "\<lparr>watched = [''/proj''], pending = [], started = True\<rparr>"
  let ?acts = "[Fs_event (Modified example_path False), Fs_event (Modified ''/etc/x.py'' False),
                Fs_event (Deleted example_path False), Handler_turn]"
  obtain obs' w' where run: "run_watch example_ctx ?acts (?obs, example_world) = (obs', w')" by fastforce
  have h: "started ?obs" "Interrupt \<notin> set ?acts"
    "pending ?obs @ filter (observed ?obs) (fs_events ?acts) =
       [Modified example_path False, Deleted example_path False]"
    by code_simp+
  have r: "fst (run_watch example_ctx ?acts (?obs, example_world)) =
           \<lparr>watched = [''/proj''], pending = [Deleted example_path False], started = True\<rparr>"
    by code_simp
  have "length (pending obs') = 1" "obs'\<lparr>pending := []\<rparr> = ?obs" using run r by auto
  then show ?thesis using watcher_serializes [OF run h(1,2)] run h(3) by simp
qed


theorem main_watching_preserves_inv_witness:
  "sync_inv (main_watching example_env example_ctx [example_path] (\<lambda>r. True)
     [Fs_event (Modified example_path False), Interrupt, Handler_turn] example_world)"
proof -
  have ok: "model_load example_env = Some (\<lambda>s. Some [1])" "chroma_ok example_env"
    by (simp_all add: example_env_def)
  have start: "consistent_start example_world" by code_simp
  show ?thesis using main_watching_preserves_inv [OF ok start] by blast
qed

theorem ledger_feedback_never_idle_witness:
  "\<exists>e \<in> set (pending (fst ((deliver_writes example_in_root ^^ 5)
      (\<lparr>watched = [''/proj''], pending = [Modified example_path False], started = True\<rparr>, example_world)))).
     file_event e"
proof -
  let ?obs = "\<lparr>watched = [''/proj''], pending = [Modified example_path False], started = True\<rparr>"
  have h: "started ?obs" "observed ?obs (Modified (ledger_path example_in_root) False)"
    "\<exists>e \<in> set (pending ?obs). file_event e"
    by code_simp+
  show ?thesis using ledger_feedback_never_idle [OF h] .
qed

theorem ledger_outside_roots_refines_witness:
  "(deliver_writes example_ctx ^^ 2)
      (\<lparr>watched = [''/proj''], pending = [Modified example_path False], started = True\<rparr>, example_world) =
   (deliver example_ctx ^^ 2)
      (\<lparr>watched = [''/proj''], pending = [Modified example_path False], started = True\<rparr>, example_world)"
proof -
  have h: "\<not> observed \<lparr>watched = [''/proj''], pending = [Modified example_path False], started = True\<rparr>
             (Modified (ledger_path example_ctx) False)"
    by code_simp
  show ?thesis using ledger_outside_roots_refines [OF h] .
qed


theorem late_root_never_watched_witness:
  "run_watch example_two_roots [Fs_event (Created ''/new/b.py'' False), Handler_turn]
     (observer_start (schedule_observer (cfg example_two_roots) (\<lambda>r. r = ''/proj'')), example_late_root) =
   run_watch example_two_roots [Handler_turn]
     (observer_start (schedule_observer (cfg example_two_roots) (\<lambda>r. r = ''/proj'')), example_late_root)"
proof -
  have h: "\<forall>r \<in> set (project_roots (cfg example_two_roots)). r = ''/proj'' \<longrightarrow>
             \<not> py_startswith (event_src_path (Created ''/new/b.py'' False)) (root_prefix r)"
    by code_simp
  show ?thesis using late_root_never_watched [OF h, of "[Fs_event (Created ''/new/b.py'' False), Handler_turn]"]
    by simp
qed

end
