(* ===== verification/Maintenance.thy ===== *)
theory Maintenance
  imports Ledger Store "HOL-Library.Multiset" "HOL-Library.List_Lexorder" "HOL-Library.Char_ord"
begin

text \<open>
  The two maintenance scripts. \<^verbatim>\<open>src/stats.py\<close> (\<^verbatim>\<open>get_chromadb_stats\<close>)
  reads every record's metadata and reports the number of records, the number of
  projects and the records per project, sorted by name; \<^verbatim>\<open>src/clear.py\<close>
  (\<^verbatim>\<open>clear_collection\<close>) deletes the collection and checks that it is gone.
  The server holds the collection or not (\<open>store option\<close>); whether the
  connection and heartbeat succeed is a parameter. The printed lines are the
  constructors of an outcome type. Python compares strings by code points, which is
  the lexicographic order of \<^verbatim>\<open>List_Lexorder\<close> over \<^verbatim>\<open>Char_ord\<close>.
\<close>

section \<open>Statistics\<close>

definition project_of :: "vrecord \<Rightarrow> string" where
  "project_of r = md_project_name (vr_metadata r)"

text \<open>
  \<^verbatim>\<open>project_counts[project_name] += 1\<close> on a \<^verbatim>\<open>defaultdict(int)\<close>: a missing key
  reads as 0 and is inserted last.
\<close>

fun count_projects :: "(string \<times> nat) list \<Rightarrow> string list \<Rightarrow> (string \<times> nat) list" where
  "count_projects project_counts [] = project_counts"
| "count_projects project_counts (project_name # ps) =
     count_projects
       (dict_set project_counts project_name
          ((case dict_get project_counts project_name of None \<Rightarrow> 0 | Some n \<Rightarrow> n) + 1)) ps"

datatype stats_report =
    Connection_error
  | Collection_missing
  | No_items
  | Report nat nat "(string \<times> nat) list"

definition get_chromadb_stats :: "bool \<Rightarrow> store option \<Rightarrow> stats_report" where
  "get_chromadb_stats connected collection =
     (if \<not> connected then Connection_error
      else
        (case collection of
           None \<Rightarrow> Collection_missing
         | Some s \<Rightarrow>
             if items s = [] then No_items
             else
               (let project_counts = count_projects [] (map project_of (items s))
                in Report (length (items s)) (length project_counts) (sort_key fst project_counts))))"

section \<open>Clearing the collection\<close>

datatype clear_outcome =
    Clear_error
  | Deleted_and_verified

text \<open>
  \<^verbatim>\<open>delete_collection\<close> raises on a missing collection (the outer handler
  reports it); after a deletion \<^verbatim>\<open>get_collection\<close> raises, which is the
  successful verification of lines 29--33, so the message of line 31 is never printed.
\<close>

definition clear_collection :: "bool \<Rightarrow> store option \<Rightarrow> store option \<times> clear_outcome" where
  "clear_collection connected collection =
     (if \<not> connected then (collection, Clear_error)
      else
        (case collection of
           None \<Rightarrow> (collection, Clear_error)
         | Some s \<Rightarrow> (None, Deleted_and_verified)))"

definition example_record :: "string \<Rightarrow> nat \<Rightarrow> vrecord" where
  "example_record project i =
     \<lparr>vr_id = ''r'' @ [char_of (48 + i)], vr_embedding = [1], vr_document = ''text'',
      vr_metadata = \<lparr>md_file_path = ''/proj/'' @ project @ ''/f.py'', md_project_name = project,
                     md_language = ''python'', md_chunk_id = ''0'', md_last_accessed = ''t0''\<rparr>\<rparr>"

definition example_store :: store where
  "example_store =
     \<lparr>items = [example_record ''beta'' 0, example_record ''alpha'' 1, example_record ''beta'' 2],
      log = [], faults = []\<rparr>"

section \<open>The counts refine the multiset of project names\<close>

definition count_of :: "(string \<times> nat) list \<Rightarrow> string \<Rightarrow> nat" where
  "count_of d k = (case dict_get d k of None \<Rightarrow> 0 | Some n \<Rightarrow> n)"

lemma count_projects_facts:
  "dict_wf d \<Longrightarrow>
   dict_wf (count_projects d ps) \<and>
   set (map fst (count_projects d ps)) = set (map fst d) \<union> set ps \<and>
   (\<forall>k. count_of (count_projects d ps) k = count_of d k + count (mset ps) k)"
proof (induction d ps rule: count_projects.induct)
  case (1 d)
  then show ?case by simp
next
  case (2 d p ps)
  let ?d' = "dict_set d p ((case dict_get d p of None \<Rightarrow> 0 | Some n \<Rightarrow> n) + 1)"
  have wf: "dict_wf ?d'" using 2(2) by (simp add: ledger_simps)
  have keys: "set (map fst ?d') = set (map fst d) \<union> {p}"
    by (auto simp: dict_keys_set)
  have cnt: "count_of ?d' k = count_of d k + (if k = p then 1 else 0)" for k
    by (simp add: count_of_def ledger_simps split: option.splits)
  from 2(1) [OF wf] keys cnt show ?case by auto
qed

lemma count_of_pos:
  "dict_wf d \<Longrightarrow> (k, n) \<in> set d \<Longrightarrow> count_of d k = n"
  by (simp add: count_of_def dict_get_def dict_wf_def)

text \<open>
  C35. The report of \<^verbatim>\<open>get_chromadb_stats\<close> is right: the total is the number of
  records, the number of projects is the number of distinct project names, the rows
  are sorted by name without repetition, and each row counts the records of its
  project.
\<close>

theorem stats_report_correct:
  assumes "get_chromadb_stats True (Some s) = Report n_items n_projects rows"
  shows "n_items = length (items s) \<and> n_projects = card (project_of ` set (items s)) \<and>
         sorted (map fst rows) \<and> distinct (map fst rows) \<and>
         set (map fst rows) = project_of ` set (items s) \<and>
         (\<forall>(k, n) \<in> set rows. n = count (mset (map project_of (items s))) k)"
proof -
  let ?ps = "map project_of (items s)"
  let ?pc = "count_projects [] ?ps"
  have r: "n_items = length (items s)" "n_projects = length ?pc" "rows = sort_key fst ?pc"
    using assms by (auto simp: get_chromadb_stats_def Let_def split: if_splits)
  have f: "dict_wf ?pc" "set (map fst ?pc) = set ?ps" "\<forall>k. count_of ?pc k = count (mset ?ps) k"
    using count_projects_facts [of "[]" ?ps] by (simp_all add: dict_wf_def count_of_def dict_get_def)
  have d: "distinct (map fst ?pc)" using f(1) by (simp add: dict_wf_def)
  have perm: "mset (sort_key fst ?pc) = mset ?pc" by simp
  then have set_rows: "set rows = set ?pc" using r(3) by (metis set_mset_mset)
  have "n_projects = card (set (map fst ?pc))"
    using r(2) distinct_card [OF d] by simp
  moreover have "distinct (map fst rows)"
    using d perm r(3) by (metis mset_map mset_eq_imp_distinct_iff)
  moreover have "(\<forall>(k, n) \<in> set rows. n = count (mset ?ps) k)"
    using set_rows f(1,3) count_of_pos by fastforce
  ultimately show ?thesis
    using r f(2) set_rows by (simp add: image_image)
qed

theorem stats_report_correct_witness:
  "get_chromadb_stats True (Some example_store) = Report 3 2 [(''alpha'', 1), (''beta'', 2)] \<and>
   card (project_of ` set (items example_store)) = 2"
proof -
  have h: "get_chromadb_stats True (Some example_store) = Report 3 2 [(''alpha'', 1), (''beta'', 2)]"
    by code_simp
  show ?thesis using h stats_report_correct [OF h] by simp
qed

end
