(* ===== verification/Recovery.thy ===== *)
theory Recovery
  imports Startup Maintenance
begin

text \<open>
  How the ledger file survives failures of its own save
  (\<^verbatim>\<open>save_processed_files_state\<close>, \<^verbatim>\<open>src/ingest.py\<close> lines 86--93), and what the
  next start makes of it (\<^verbatim>\<open>initialize_components\<close>, lines 75--82). The save
  rewrites the file in place. A write that fails after the open leaves a truncated
  file, which the next start reads as no ledger at all, while the store still holds
  every chunk. The theory also follows a start after the ledger was lost, and a start
  after \<^verbatim>\<open>clear.py\<close> removed the collection but not the ledger, file by file
  through the scan.
\<close>

section \<open>The save with its failures\<close>

definition save_state_io :: "save_fault \<Rightarrow> world \<Rightarrow> world" where
  "save_state_io fault w =
     w\<lparr>state_file := save_processed_files_state_io fault (state w) (state_file w),
       ledger_writes := (if fault = Open_error then ledger_writes w else Suc (ledger_writes w))\<rparr>"

text \<open>
  The process dies after \<^verbatim>\<open>process_file\<close> returned and before
  \<^verbatim>\<open>save_processed_files_state\<close> ran (lines 269--270); the next process reloads
  the ledger file.
\<close>

definition crash_after :: "world \<Rightarrow> world" where
  "crash_after w = w\<lparr>state := load_processed_files_state (state_file w) []\<rparr>"

section \<open>Lemmas\<close>

lemma save_state_io_ok: "save_state_io Save_ok w = save_state w"
  by (simp add: save_state_io_def save_state_def save_processed_files_state_io_def)

lemma save_state_io_fields [simp]:
  "files (save_state_io fault w) = files w" "coll (save_state_io fault w) = coll w"
  "state (save_state_io fault w) = state w"
  by (simp_all add: save_state_io_def)

lemma load_after_write_error [simp]:
  "load_processed_files_state (state_file (save_state_io Write_error w)) current = []"
  by (simp add: save_state_io_def save_processed_files_state_io_def load_processed_files_state_def)

text \<open>
  Indexing a file the ledger does not track adds a fresh batch after whatever the
  store holds for it: no \<^verbatim>\<open>delete\<close> runs first.
\<close>

lemma reindex_untracked_appends:
  assumes healthy: "faults (coll w) = []"
    and ready: "collection_ready c" "embed_model c = Some m" and idx: "is_indexable (cfg c) p"
    and present: "files w p = Some f" "f_readable f"
    and chunks: "chunk_text_default (f_content f) = Some chunks"
    and some_ok: "\<exists>ch \<in> set chunks. embedding_ok c ch"
    and untracked: "dict_get (state w) p = None"
  shows "\<exists>new. new \<noteq> [] \<and>
           records_of p (items (coll (process_file c p w))) = records_of p (items (coll w)) @ new \<and>
           last_add p (log (coll (process_file c p w))) = new \<and>
           dict_get (state (process_file c p w)) p = Some \<lparr>fs_mtime = f_mtime f, fs_hash = md5 c (f_content f)\<rparr>"
proof -
  let ?cur = "\<lparr>fs_mtime = f_mtime f, fs_hash = calculate_file_hash c w p\<rparr>"
  have content: "get_file_content w p = Some (f_content f)"
    using present by (simp add: get_file_content_def)
  obtain recs u' where prep: "prepare_records c p w = Some (recs, u')"
    and ne: "recs \<noteq> []" and paths: "records_of p recs = recs"
    using prepare_records_batch [OF content chunks some_ok] by blast
  have pf: "process_file c p w = ingest_content c p ?cur w"
    using process_file_reprocess [OF ready idx present(1)] untracked by simp
  have "coll (ingest_content c p ?cur w) = (coll w)\<lparr>items := items (coll w) @ recs, log := log (coll w) @ [Add recs]\<rparr>"
    using prep ne healthy by (simp add: ingest_content_def coll_add_healthy)
  moreover have "state (ingest_content c p ?cur w) = dict_set (state w) p ?cur"
    using ingest_content_adds [OF prep ne healthy] by simp
  moreover have "calculate_file_hash c w p = md5 c (f_content f)"
    using present by (simp add: calculate_file_hash_def)
  ultimately show ?thesis using pf paths ne by (auto simp: ledger_simps)
qed

lemma duplicated_breaks_inv:
  assumes "records_of p (items (coll w)) = old @ new" and "last_add p (log (coll w)) = new" and "old \<noteq> []"
  shows "\<not> sync_inv w"
proof
  assume inv: "sync_inv w"
  obtain r where r: "r \<in> set old" using assms(3) by (cases old) auto
  then have "r \<in> set (records_of p (items (coll w)))" using assms(1) by simp
  then have "r \<in> set (items (coll w))" "record_path r = p" by (auto simp: records_of_def)
  with inv have "records_of p (items (coll w)) = last_add p (log (coll w))"
    by (auto simp: sync_inv_def)
  with assms show False by simp
qed


section \<open>A failed save, a restart, and the next event\<close>

text \<open>
  C9. The ledger is rewritten in place. A save that fails after the open leaves a
  truncated file. The next start reads it as an empty ledger, so the next event on an
  indexed file, unchanged and still readable, stores the file's chunks a second time
  without deleting the first copy, and the synchronisation invariant fails. The
  specification asks for an atomic save (a temporary file swapped in) so that a
  failed write never yields a corrupt ledger.
\<close>

theorem failed_save_duplicates_on_restart:
  assumes ok: "model_load env = Some encode" "chroma_ok env" and healthy: "faults (coll w) = []"
    and idx: "is_indexable (cfg c) p" and present: "files w p = Some f" "f_readable f"
    and chunks: "chunk_text_default (f_content f) = Some chunks"
    and some_ok: "\<exists>ch \<in> set chunks. embedding_ok (c\<lparr>embed_model := Some encode, collection_ready := True\<rparr>) ch"
    and indexed: "records_of p (items (coll w)) \<noteq> []"
  shows "case initialize_components env c (save_state_io Write_error w) of (ok', c', w') \<Rightarrow>
           ok' \<and>
           (\<exists>new. new \<noteq> [] \<and>
              records_of p (items (coll (dispatch c' (Modified p False) w'))) = records_of p (items (coll w)) @ new) \<and>
           \<not> sync_inv (dispatch c' (Modified p False) w')"
proof -
  let ?c = "c\<lparr>embed_model := Some encode, collection_ready := True\<rparr>"
  let ?w = "(save_state_io Write_error w)\<lparr>state := []\<rparr>"
  have init: "initialize_components env c (save_state_io Write_error w) = (True, ?c, ?w)"
    using initialize_ok [OF ok] by simp
  have ready: "collection_ready ?c" "embed_model ?c = Some encode" "is_indexable (cfg ?c) p"
    using idx by simp_all
  have fw: "files ?w p = Some f" "faults (coll ?w) = []" "dict_get (state ?w) p = None"
    using present healthy by (simp_all add: dict_get_def)
  obtain new where new: "new \<noteq> []"
    and recs: "records_of p (items (coll (process_file ?c p ?w))) = records_of p (items (coll w)) @ new"
    and last: "last_add p (log (coll (process_file ?c p ?w))) = new"
    using reindex_untracked_appends [OF fw(2) ready fw(1) present(2) chunks some_ok fw(3)] by auto
  have ev: "on_modified ?c p False ?w = save_state (process_file ?c p ?w)"
    by (simp add: on_modified_def)
  have "\<not> sync_inv (process_file ?c p ?w)"
    using duplicated_breaks_inv [OF recs last indexed] .
  with new recs show ?thesis by (simp add: init ev)
qed

section \<open>A crash between an operation and its save\<close>

text \<open>
  C10. A crash between \<^verbatim>\<open>process_file\<close> and the save that follows it is not a
  bounded loss. Index a new file, then crash: the next process reloads a ledger
  without the file, and the next event on it stores every chunk a second time, which
  breaks the synchronisation invariant. The specification says that persisting after
  every event bounds the loss of a crash to the in-flight event.
\<close>

theorem crash_before_save_duplicates:
  assumes inv: "sync_inv w" and persisted: "ledger_persisted w" and healthy: "faults (coll w) = []"
    and ready: "collection_ready c" "embed_model c = Some m" and idx: "is_indexable (cfg c) p"
    and present: "files w p = Some f" "f_readable f"
    and chunks: "chunk_text_default (f_content f) = Some chunks"
    and some_ok: "\<exists>ch \<in> set chunks. embedding_ok c ch"
    and new_file: "dict_get (state w) p = None"
  shows "\<exists>new1 new2. new1 \<noteq> [] \<and> new2 \<noteq> [] \<and>
           records_of p (items (coll (dispatch c (Modified p False) (crash_after (process_file c p w))))) =
             new1 @ new2 \<and>
           \<not> sync_inv (dispatch c (Modified p False) (crash_after (process_file c p w)))"
proof -
  let ?w1 = "process_file c p w"
  let ?w2 = "crash_after ?w1"
  obtain new1 where new1: "new1 \<noteq> []"
    and recs1: "records_of p (items (coll ?w1)) = records_of p (items (coll w)) @ new1"
    using reindex_untracked_appends [OF healthy ready idx present chunks some_ok new_file] by blast
  have none: "records_of p (items (coll w)) = []" using sync_inv_untracked [OF inv new_file] .
  have w2: "files ?w2 p = Some f" "faults (coll ?w2) = []" "dict_get (state ?w2) p = None"
    using present healthy_process_file [OF healthy, of c p] persisted new_file
    by (simp_all add: crash_after_def ledger_persisted_def)
  obtain new2 where new2: "new2 \<noteq> []"
    and recs2: "records_of p (items (coll (process_file c p ?w2))) = records_of p (items (coll ?w2)) @ new2"
    and last2: "last_add p (log (coll (process_file c p ?w2))) = new2"
    using reindex_untracked_appends [OF w2(2) ready idx w2(1) present(2) chunks some_ok w2(3)] by blast
  have recs: "records_of p (items (coll (process_file c p ?w2))) = new1 @ new2"
    using recs2 recs1 none by (simp add: crash_after_def)
  have ev: "on_modified c p False ?w2 = save_state (process_file c p ?w2)" by (simp add: on_modified_def)
  have "\<not> sync_inv (process_file c p ?w2)" using duplicated_breaks_inv [OF recs last2 new1] .
  with new1 new2 recs show ?thesis by (auto simp: ev)
qed

section \<open>Restarts that lose the ledger or the collection\<close>

text \<open>
  C29. When the next start finds no usable ledger (the file is missing from a fresh
  process, or unreadable), the scan treats every reached file as new and adds its
  chunks without a \<^verbatim>\<open>delete\<close>: whatever the store held for the file stays,
  followed by a fresh batch. The specification says the worst case of a lost ledger
  is redundant reprocessing, and it forbids a mix of old and new chunks.
\<close>

theorem lost_ledger_duplicates_chunks:
  assumes ok: "model_load env = Some encode" "chroma_ok env"
    and lost: "load_processed_files_state (state_file w) (state w) = []" and healthy: "faults (coll w) = []"
    and idx: "is_indexable (cfg c) p" and present: "files w p = Some f" "f_readable f"
    and chunks: "chunk_text_default (f_content f) = Some chunks"
    and some_ok: "\<exists>ch \<in> set chunks. embedding_ok (c\<lparr>embed_model := Some encode, collection_ready := True\<rparr>) ch"
    and listed: "p \<in> set (files_to_scan (cfg c) listing)"
  shows "\<exists>new. new \<noteq> [] \<and>
           records_of p (items (coll (initial_ingestion_and_start_watching env c listing [] w))) =
             records_of p (items (coll w)) @ new"
proof -
  let ?c = "c\<lparr>embed_model := Some encode, collection_ready := True\<rparr>"
  let ?w1 = "w\<lparr>state := load_processed_files_state (state_file w) (state w)\<rparr>"
  let ?old = "records_of p (items (coll w))"
  let ?cur = "\<lparr>fs_mtime = f_mtime f, fs_hash = md5 c (f_content f)\<rparr>"
  define Q :: "world \<Rightarrow> bool" where "Q v \<longleftrightarrow> records_of p (items (coll v)) = ?old \<and> dict_get (state v) p = None \<and>
                            files v p = Some f \<and> faults (coll v) = []" for v
  define R :: "world \<Rightarrow> bool" where "R v \<longleftrightarrow> (\<exists>new. new \<noteq> [] \<and> records_of p (items (coll v)) = ?old @ new) \<and>
                            dict_get (state v) p = Some ?cur \<and> files v p = Some f \<and> faults (coll v) = []" for v
  have ready: "collection_ready ?c" "embed_model ?c = Some encode" "is_indexable (cfg ?c) p"
    using idx by simp_all
  have g: "has_included_ext (cfg c) p" "\<not> in_excluded_dir (cfg c) p"
    using idx by (simp_all add: is_indexable_def)
  have "Q ?w1" using lost present healthy by (simp add: Q_def dict_get_def)
  moreover have "p \<in> set (files_to_scan (cfg ?c) listing)" using listed by simp
  ultimately have "R (fst (scan_files ?c (files_to_scan (cfg ?c) listing) (?w1, 0)))"
  proof (rule scan_files_reaches)
    fix q v n assume "q \<noteq> p" "Q v"
    then show "Q (fst (scan_one ?c q (v, n)))" using scan_one_other [of q p v ?c n] by (simp add: Q_def)
  next
    fix v n assume q: "Q v"
    then have "scan_one ?c p (v, n) = (process_file ?c p v, Suc n)"
      using g by (simp add: Q_def scan_one_def)
    moreover obtain new where "new \<noteq> []"
      "records_of p (items (coll (process_file ?c p v))) = ?old @ new"
      "dict_get (state (process_file ?c p v)) p = Some ?cur"
      using q reindex_untracked_appends [of v ?c encode p f chunks] ready present(2) chunks some_ok
      by (auto simp: Q_def)
    ultimately show "R (fst (scan_one ?c p (v, n)))"
      using q by (auto simp: R_def Q_def healthy_process_file)
  next
    fix q v n assume r: "R v"
    show "R (fst (scan_one ?c q (v, n)))"
    proof (cases "q = p")
      case True
      then show ?thesis using r present(2) scan_one_synced [of v p f ?c n] by (simp add: R_def)
    next
      case False
      then show ?thesis using r scan_one_other [of q p v ?c n] by (simp add: R_def)
    qed
  qed
  then show ?thesis
    using main_ok [OF ok, of c listing "[]" w] by (simp add: initial_scan_fst R_def)
qed

text \<open>
  C32. \<^verbatim>\<open>clear.py\<close> deletes the collection and leaves the ledger file. The next
  start creates an empty collection, loads the ledger, finds every recorded file
  unchanged and re-indexes none of them: each such file stays without chunks while the
  ledger says it is indexed. The specification calls the maintenance interfaces
  independent of the engine.
\<close>

theorem clear_then_restart_indexes_nothing:
  assumes ok: "model_load env = Some encode" "chroma_ok env"
    and synced: "dict_get (load_processed_files_state (state_file w) (state w)) p =
                   Some \<lparr>fs_mtime = f_mtime f, fs_hash = md5 c (f_content f)\<rparr>"
    and present: "files w p = Some f" "f_readable f"
  shows "snd (clear_collection True (Some (coll w))) = Deleted_and_verified \<and>
         records_of p (items (coll (initial_ingestion_and_start_watching env c listing []
           (w\<lparr>coll := get_or_create_collection (fst (clear_collection True (Some (coll w))))\<rparr>)))) = [] \<and>
         dict_get (state (initial_ingestion_and_start_watching env c listing []
           (w\<lparr>coll := get_or_create_collection (fst (clear_collection True (Some (coll w))))\<rparr>))) p \<noteq> None"
proof -
  let ?c = "c\<lparr>embed_model := Some encode, collection_ready := True\<rparr>"
  let ?wc = "w\<lparr>coll := get_or_create_collection (fst (clear_collection True (Some (coll w))))\<rparr>"
  let ?w1 = "?wc\<lparr>state := load_processed_files_state (state_file ?wc) (state ?wc)\<rparr>"
  let ?cur = "\<lparr>fs_mtime = f_mtime f, fs_hash = md5 c (f_content f)\<rparr>"
  define Q :: "world \<Rightarrow> bool" where "Q v \<longleftrightarrow> records_of p (items (coll v)) = [] \<and> dict_get (state v) p = Some ?cur \<and>
                            files v p = Some f \<and> faults (coll v) = []" for v
  have "Q ?w1" using synced present
    by (simp add: Q_def clear_collection_def get_or_create_collection_def records_of_def)
  then have "Q (fst (scan_files ?c (files_to_scan (cfg ?c) listing) (?w1, 0)))"
  proof (rule scan_files_path)
    fix q v n assume q: "Q v"
    show "Q (fst (scan_one ?c q (v, n)))"
    proof (cases "q = p")
      case True
      then show ?thesis using q present(2) scan_one_synced [of v p f ?c n] by (simp add: Q_def)
    next
      case False
      then show ?thesis using q scan_one_other [of q p v ?c n] by (simp add: Q_def)
    qed
  qed
  then show ?thesis
    using main_ok [OF ok, of c listing "[]" ?wc] by (simp add: initial_scan_fst Q_def clear_collection_def)
qed

section \<open>Witnesses\<close>

theorem lost_ledger_duplicates_chunks_witness:
  "records_of example_path (items (coll example_lost_ledger)) \<noteq> [] \<and>
   (\<exists>new. new \<noteq> [] \<and>
      records_of example_path (items (coll (initial_ingestion_and_start_watching example_env example_ctx
        [example_path] [] example_lost_ledger))) = records_of example_path (items (coll example_lost_ledger)) @ new)"
proof -
  have ok: "model_load example_env = Some (\<lambda>s. Some [1])" "chroma_ok example_env"
    by (simp_all add: example_env_def)
  have h: "load_processed_files_state (state_file example_lost_ledger) (state example_lost_ledger) = []"
    "faults (coll example_lost_ledger) = []" "is_indexable (cfg example_ctx) example_path"
    "files example_lost_ledger example_path = Some example_file" "f_readable example_file"
    "chunk_text_default (f_content example_file) = Some [''hello world'']"
    "\<exists>ch \<in> set [''hello world'']. embedding_ok (example_ctx\<lparr>embed_model := Some (\<lambda>s. Some [1]), collection_ready := True\<rparr>) ch"
    "example_path \<in> set (files_to_scan (cfg example_ctx) [example_path])"
    "records_of example_path (items (coll example_lost_ledger)) \<noteq> []"
    by code_simp+
  show ?thesis using lost_ledger_duplicates_chunks [OF ok h(1-8)] h(9) by simp
qed

theorem clear_then_restart_indexes_nothing_witness:
  "snd (clear_collection True (Some (coll (save_state example_synced)))) = Deleted_and_verified \<and>
   records_of example_path (items (coll (initial_ingestion_and_start_watching example_env example_ctx
     [example_path] [] ((save_state example_synced)\<lparr>coll := get_or_create_collection
       (fst (clear_collection True (Some (coll (save_state example_synced)))))\<rparr>)))) = [] \<and>
   dict_get (state (initial_ingestion_and_start_watching example_env example_ctx
     [example_path] [] ((save_state example_synced)\<lparr>coll := get_or_create_collection
       (fst (clear_collection True (Some (coll (save_state example_synced)))))\<rparr>))) example_path \<noteq> None"
proof -
  have ok: "model_load example_env = Some (\<lambda>s. Some [1])" "chroma_ok example_env"
    by (simp_all add: example_env_def)
  have h: "dict_get (load_processed_files_state (state_file (save_state example_synced)) (state (save_state example_synced)))
             example_path = Some \<lparr>fs_mtime = f_mtime example_file, fs_hash = md5 example_ctx (f_content example_file)\<rparr>"
    "files (save_state example_synced) example_path = Some example_file" "f_readable example_file"
    by code_simp+
  show ?thesis using clear_then_restart_indexes_nothing [OF ok h, of "[example_path]"] by simp
qed

theorem failed_save_duplicates_on_restart_witness:
  "length (records_of example_path (items (coll example_synced))) = 1 \<and>
   (case initialize_components example_env example_ctx (save_state_io Write_error example_synced) of
      (ok', c', w') \<Rightarrow>
        ok' \<and>
        (\<exists>new. new \<noteq> [] \<and>
           records_of example_path (items (coll (dispatch c' (Modified example_path False) w'))) =
             records_of example_path (items (coll example_synced)) @ new) \<and>
        \<not> sync_inv (dispatch c' (Modified example_path False) w'))"
proof -
  have ok: "model_load example_env = Some (\<lambda>s. Some [1])" "chroma_ok example_env"
    by (simp_all add: example_env_def)
  have h: "faults (coll example_synced) = []" "is_indexable (cfg example_ctx) example_path"
    "files example_synced example_path = Some example_file" "f_readable example_file"
    "chunk_text_default (f_content example_file) = Some [''hello world'']"
    "\<exists>ch \<in> set [''hello world'']. embedding_ok
        (example_ctx\<lparr>embed_model := Some (\<lambda>s. Some [1]), collection_ready := True\<rparr>) ch"
    "records_of example_path (items (coll example_synced)) \<noteq> []"
    "length (records_of example_path (items (coll example_synced))) = 1"
    by code_simp+
  show ?thesis using failed_save_duplicates_on_restart [OF ok h(1-7)] h(8) by simp
qed


theorem crash_before_save_duplicates_witness:
  "length (records_of example_path (items (coll (dispatch example_ctx (Modified example_path False)
      (crash_after (process_file example_ctx example_path (save_state example_world))))))) = 2 \<and>
   \<not> sync_inv (dispatch example_ctx (Modified example_path False)
      (crash_after (process_file example_ctx example_path (save_state example_world))))"
proof -
  have h: "sync_inv (save_state example_world)" "ledger_persisted (save_state example_world)"
    "faults (coll (save_state example_world)) = []" "collection_ready example_ctx"
    "is_indexable (cfg example_ctx) example_path"
    "files (save_state example_world) example_path = Some example_file" "f_readable example_file"
    "chunk_text_default (f_content example_file) = Some [''hello world'']"
    "\<exists>ch \<in> set [''hello world'']. embedding_ok example_ctx ch"
    "dict_get (state (save_state example_world)) example_path = None"
    by code_simp+
  have m: "embed_model example_ctx = Some (\<lambda>s. Some [1])" by (simp add: example_ctx_def)
  have l: "length (records_of example_path (items (coll (dispatch example_ctx (Modified example_path False)
      (crash_after (process_file example_ctx example_path (save_state example_world))))))) = 2"
    by code_simp
  show ?thesis using crash_before_save_duplicates [OF h(1-4) m h(5-10)] l by blast
qed

end
