(* ===== verification/System.thy ===== *)
theory System
  imports Watcher Maintenance Recovery
begin

text \<open>
  The program in its environment, as one transition system on the world. Its
  steps are:
  \<^item> the handler consuming one watcher event (\<^verbatim>\<open>CodeChangeHandler\<close>);
  \<^item> a full scan at a start (\<^verbatim>\<open>initial_ingestion_and_start_watching\<close>);
  \<^item> a restart that reloads the ledger file (\<^verbatim>\<open>initialize_components\<close>, from the
    empty dictionary of line 38);
  \<^item> \<^verbatim>\<open>clear.py\<close> followed by the \<^verbatim>\<open>get_or_create_collection\<close> of the next start;
  \<^item> moves of the environment: any edit of the file system, any schedule of
    store failures, any clock.
  The worlds reachable from a consistent start are defined inductively. Their
  invariants are proved by rule induction over that definition.
\<close>

section \<open>Transitions\<close>

inductive sys_step :: "ctx \<Rightarrow> world \<Rightarrow> world \<Rightarrow> bool" for c where
  watch: "sys_step c w (dispatch c e w)"
| scan: "sys_step c w (fst (initial_scan c listing w))"
| edit: "sys_step c w (w\<lparr>files := fs\<rparr>)"
| outage: "sys_step c w (w\<lparr>coll := (coll w)\<lparr>faults := fl\<rparr>\<rparr>)"
| clear: "sys_step c w (w\<lparr>coll := get_or_create_collection (fst (clear_collection True (Some (coll w))))\<rparr>)"
| restart: "sys_step c w (w\<lparr>state := load_processed_files_state (state_file w) []\<rparr>)"
| tick: "sys_step c w (w\<lparr>clock := t\<rparr>)"

inductive reachable :: "ctx \<Rightarrow> world \<Rightarrow> world \<Rightarrow> bool" for c w0 where
  start: "reachable c w0 w0"
| step: "reachable c w0 w \<Longrightarrow> sys_step c w w' \<Longrightarrow> reachable c w0 w'"

definition sys_inv :: "world \<Rightarrow> bool" where
  "sys_inv w \<longleftrightarrow> sync_inv w \<and> ledger_persisted w \<and> ids_fresh w"

section \<open>Runs with crashes and failed saves\<close>

text \<open>
  The failures of the running program beyond those of the store: the process dies
  after an operation and before the save that follows it (the next process reloads
  the ledger file), or the save itself fails (\<open>Recovery\<close>). The synchronisation
  invariant does not survive them (\<open>crash_before_save_duplicates\<close>); the
  well-formedness of the stored records and the uniqueness of their ids do.
\<close>

inductive faulty_step :: "ctx \<Rightarrow> world \<Rightarrow> world \<Rightarrow> bool" for c where
  normal: "sys_step c w w' \<Longrightarrow> faulty_step c w w'"
| unsaved_process: "faulty_step c w (crash_after (process_file c p w))"
| unsaved_remove: "faulty_step c w (crash_after (remove_deleted_file c p w))"
| failed_save: "faulty_step c w (save_state_io fault w)"

inductive faulty_reachable :: "ctx \<Rightarrow> world \<Rightarrow> world \<Rightarrow> bool" for c w0 where
  start: "faulty_reachable c w0 w0"
| step: "faulty_reachable c w0 w \<Longrightarrow> faulty_step c w w' \<Longrightarrow> faulty_reachable c w0 w'"

definition robust_inv :: "world \<Rightarrow> bool" where
  "robust_inv w \<longleftrightarrow> records_wf w \<and> ids_fresh w"

section \<open>Invariants of the reachable worlds\<close>

lemma sys_inv_step:
  assumes "sys_step c w w'" and inv: "sys_inv w"
  shows "sys_inv w'"
  using assms
proof (induction rule: sys_step.induct)
  case (watch w e)
  then show ?case
    unfolding sys_inv_def by (simp add: sync_inv_dispatch persisted_dispatch ids_fresh_dispatch)
next
  case (scan w listing)
  then have "sync_inv w" "ids_fresh w" by (simp_all add: sys_inv_def)
  then have "sync_inv (fst (initial_scan c listing w))" "ids_fresh (fst (initial_scan c listing w))"
    by (auto intro: initial_scan_preserves sync_inv_process_file sync_inv_remove
                    ids_fresh_process_file ids_fresh_remove)
  then show ?case by (simp add: sys_inv_def initial_scan_fst)
next
  case (restart w)
  then show ?case by (simp add: sys_inv_def sync_inv_def ids_fresh_def ledger_persisted_def)
next
  case (clear w)
  then show ?case
    by (simp add: sys_inv_def sync_inv_def ids_fresh_def ledger_persisted_def clear_collection_def
                  get_or_create_collection_def)
qed (simp_all add: sys_inv_def sync_inv_def ids_fresh_def ledger_persisted_def)

lemma records_wf_step:
  assumes "sys_step c w w'" and "records_wf w"
  shows "records_wf w'"
  using assms
proof (induction rule: sys_step.induct)
  case (watch w e)
  then show ?case by (auto intro: dispatch_preserves records_wf_process_file records_wf_remove)
next
  case (scan w listing)
  then show ?case by (auto intro: initial_scan_preserves records_wf_process_file records_wf_remove)
qed (simp_all add: records_wf_def clear_collection_def get_or_create_collection_def)

lemma ids_fresh_step:
  assumes "sys_step c w w'" and "ids_fresh w"
  shows "ids_fresh w'"
  using assms
proof (induction rule: sys_step.induct)
  case (watch w e)
  then show ?case by (rule ids_fresh_dispatch)
next
  case (scan w listing)
  then show ?case by (auto intro: ids_fresh_scan)
qed (simp_all add: ids_fresh_def clear_collection_def get_or_create_collection_def)

lemma robust_inv_frame [simp]:
  "robust_inv (crash_after w) = robust_inv w" "robust_inv (save_state_io fault w) = robust_inv w"
  by (simp_all add: robust_inv_def records_wf_def ids_fresh_def crash_after_def save_state_io_def)

lemma robust_inv_step:
  assumes "faulty_step c w w'" and "robust_inv w"
  shows "robust_inv w'"
  using assms
proof (induction rule: faulty_step.induct)
  case (normal w w')
  then show ?case by (auto simp: robust_inv_def intro: records_wf_step ids_fresh_step)
next
  case (unsaved_process w p)
  then have "robust_inv (process_file c p w)"
    by (simp add: robust_inv_def records_wf_process_file ids_fresh_process_file)
  then show ?case by simp
next
  case (unsaved_remove w p)
  then have "robust_inv (remove_deleted_file c p w)"
    by (simp add: robust_inv_def records_wf_remove ids_fresh_remove)
  then show ?case by simp
qed simp

lemma faulty_reachable_robust: "faulty_reachable c w0 w \<Longrightarrow> robust_inv w0 \<Longrightarrow> robust_inv w"
  by (induction rule: faulty_reachable.induct) (auto intro: robust_inv_step)

lemma reachable_sys_inv: "reachable c w0 w \<Longrightarrow> sys_inv w0 \<Longrightarrow> sys_inv w"
  by (induction rule: reachable.induct) (auto intro: sys_inv_step)

lemma reachable_records_wf: "reachable c w0 w \<Longrightarrow> records_wf w0 \<Longrightarrow> records_wf w"
  by (induction rule: reachable.induct) (auto intro: records_wf_step)

text \<open>
  C1. Every world reachable from a consistent start keeps the synchronisation
  invariant, the ledger file equal to the ledger in memory, and distinct fresh record
  ids, whatever the events, scans, restarts, clears, file edits, store failures and
  clock moves in between.
\<close>

theorem reachable_keeps_inv: "reachable c w0 w \<Longrightarrow> sys_inv w0 \<Longrightarrow> sys_inv w"
  by (rule reachable_sys_inv)

text \<open>
  Every record stored in a reachable world is well formed: a non-empty embedding, a
  decimal chunk id, and an id made of the file path, the chunk id and a uuid.
\<close>

theorem reachable_records_well_formed: "reachable c w0 w \<Longrightarrow> records_wf w0 \<Longrightarrow> records_wf w"
  by (rule reachable_records_wf)

text \<open>
  C15. Every record stored in a world reachable even through crashes before a save
  and failed saves of the ledger is well formed (a non-empty embedding, a decimal
  chunk id, and an id made of the file path, the chunk id and a uuid), and the ids
  stay distinct, each with a uuid drawn before.
\<close>

theorem records_well_formed_despite_faults:
  "faulty_reachable c w0 w \<Longrightarrow> robust_inv w0 \<Longrightarrow> robust_inv w"
  by (rule faulty_reachable_robust)

section \<open>Witnesses\<close>

theorem reachable_keeps_inv_witness:
  "sys_inv (dispatch example_ctx (Moved example_path ''/proj/a/y.py'' False)
     (dispatch example_ctx (Created example_path False) (save_state example_world)))"
proof -
  have r: "reachable example_ctx (save_state example_world)
     (dispatch example_ctx (Moved example_path ''/proj/a/y.py'' False)
       (dispatch example_ctx (Created example_path False) (save_state example_world)))"
    by (rule reachable.step [OF reachable.step [OF reachable.start sys_step.watch] sys_step.watch])
  have h: "sys_inv (save_state example_world)" by code_simp
  show ?thesis using reachable_keeps_inv [OF r h] .
qed

theorem reachable_records_well_formed_witness:
  "records_wf (fst (initial_scan example_ctx [example_path] example_world))"
proof -
  have r: "reachable example_ctx example_world (fst (initial_scan example_ctx [example_path] example_world))"
    by (rule reachable.step [OF reachable.start sys_step.scan])
  have h: "records_wf example_world" by code_simp
  show ?thesis using reachable_records_well_formed [OF r h] .
qed


theorem records_well_formed_despite_faults_witness:
  "robust_inv (save_state_io Write_error
     (crash_after (process_file example_ctx example_path example_world)))"
proof -
  have r: "faulty_reachable example_ctx example_world
     (save_state_io Write_error (crash_after (process_file example_ctx example_path example_world)))"
    by (rule faulty_reachable.step [OF faulty_reachable.step [OF faulty_reachable.start
          faulty_step.unsaved_process] faulty_step.failed_save])
  have h: "robust_inv example_world" by code_simp
  show ?thesis using records_well_formed_despite_faults [OF r h] .
qed

end
