(* ===== verification/Spec2Isabelle.thy ===== *)
theory Spec2Isabelle
  imports System
begin

text \<open>
  \<^bold>\<open>A verification development of CodeVectorSync.\<close>
  The program (\<^verbatim>\<open>src/ingest.py\<close>) keeps a remote vector collection in step with
  the source files below a set of project roots: it chunks each file into
  overlapping word windows, embeds every chunk with a local model, stores the chunks
  with metadata, and records each file's fingerprint (modification time and MD5) in
  a ledger persisted as JSON, so that only new or changed files are reprocessed.
  A scan at startup and a file-system watcher drive two operations,
  \<^verbatim>\<open>process_file\<close> and \<^verbatim>\<open>remove_deleted_file_from_chroma\<close>. Two scripts,
  \<^verbatim>\<open>src/stats.py\<close> and \<^verbatim>\<open>src/clear.py\<close>, report on and delete the collection.

  \<^bold>\<open>Theories.\<close>
  \<^item> \<open>Prelude\<close>: the named collections, the type names (paths, vectors,
    timestamps) and list and map lemmas the components share.
  \<^item> \<open>PyLib\<close>: the Python built-ins the code calls, as CPython computes them:
    \<^verbatim>\<open>str.split()\<close> (the whitespace of latin-1), \<^verbatim>\<open>" ".join\<close>, slicing with
    negative and out-of-range bounds, \<^verbatim>\<open>str.lower\<close>, \<^verbatim>\<open>startswith\<close>,
    \<^verbatim>\<open>os.path.splitext\<close>, \<^verbatim>\<open>normpath\<close>, \<^verbatim>\<open>join\<close>, \<^verbatim>\<open>abspath\<close> and
    \<^verbatim>\<open>relpath\<close>, and \<^verbatim>\<open>f"{i}"\<close>; with the round trip of split and join.
  \<^item> \<open>Chunker\<close>: \<^verbatim>\<open>chunk_text\<close> (lines 137--149). Its while loop is a
    \<open>partial_function (option)\<close> over unbounded integers, so that a loop that does
    not end is the value \<open>None\<close>. It is proved equal to a reference windowing when
    \<open>0 \<le> overlap < size\<close> (hence total, with the round trip and the shape of the
    windows) and divergent when \<open>size \<le> overlap\<close> on a long enough text.
  \<^item> \<open>Metadata\<close>: the configuration (lines 20--32), the guards of
    \<^verbatim>\<open>process_file\<close> (182--188), \<^verbatim>\<open>get_file_language\<close> and
    \<^verbatim>\<open>get_project_name\<close> (106--135).
  \<^item> \<open>Store\<close>: the vector collection as the list of its records with the two
    calls the program makes, \<^verbatim>\<open>delete(where=...)\<close> and \<^verbatim>\<open>add\<close>. A schedule of
    faults says which of the next calls raise. A ghost log of the successful calls
    states the ordering properties and defines the latest batch of a file.
  \<^item> \<open>Ledger\<close>: \<^verbatim>\<open>processed_files_state\<close> as an insertion-ordered association list
    refined to a map; its file on disk, its load (75--82) and save (86--93).
  \<^item> \<open>Engine\<close>: the fingerprint, the file content and the embedding call
    (95--104, 151--174), \<^verbatim>\<open>process_file\<close> (176--250) and
    \<^verbatim>\<open>remove_deleted_file_from_chroma\<close> (252--264). They are functions on an
    explicit world: files, collection, ledger, ledger file, uuid source and clock.
    The clock is the sequence of readings of \<^verbatim>\<open>datetime.now()\<close>: line 230 reads
    it once per kept chunk, together with \<^verbatim>\<open>uuid4()\<close>, so the reading of a record
    is the clock at its uuid counter. A ghost counter of the world,
    \<open>ledger_writes\<close>, counts the writes of the ledger file by \<open>save_state\<close>.
    The module globals set at startup are a context. Every \<^verbatim>\<open>return\<close> and every
    exception the \<^verbatim>\<open>try\<close> catches is a branch that returns the world as it stands.
    The theory also holds the synchronisation invariant \<open>sync_inv\<close> and a
    concrete deployment on which the witnesses run.
  \<^item> \<open>Dispatcher\<close>: \<^verbatim>\<open>CodeChangeHandler\<close> (266--286) and a run over a list of
    events.
  \<^item> \<open>Scanner\<close>: the initial walk and pass (293--333). The order of the walk is a
    parameter.
  \<^item> \<open>Startup\<close>: \<^verbatim>\<open>initialize_components\<close> and
    \<^verbatim>\<open>initial_ingestion_and_start_watching\<close>: initialisation, scan, events, and
    the final save.
  \<^item> \<open>Watcher\<close>: the observer of lines 335--353. It holds the watches scheduled for
    the roots that \<^verbatim>\<open>os.path.isdir\<close> accepts when they are scheduled (\<open>isdir\<close>,
    a parameter of the run like the listing of the disk), the queue of events and
    whether it runs. Its
    threads interleave as an explicit list of actions: an event reaching an emitter,
    a turn of the dispatcher thread, the interrupt. \<open>main_watching\<close> is the whole
    program with this watcher. A variant of the dispatcher's turn,
    \<open>deliver_writes\<close>, also lets the emitters see the handler's own write of the
    ledger file (\<open>ledger_path\<close>, in the working directory): a turn queues a
    modification of that file exactly when the handler's run increased the ghost
    counter of ledger writes.
  \<^item> \<open>Recovery\<close>: the save of the ledger with its failures (\<open>save_fault\<close>: an
    error at the open keeps the file, a write error after the truncating open leaves a
    corrupt one), and a crash between an operation and its save.
  \<^item> \<open>Maintenance\<close>: \<^verbatim>\<open>get_chromadb_stats\<close> and \<^verbatim>\<open>clear_collection\<close>.
  \<^item> \<open>System\<close>: the program in its environment, as an inductive step relation on
    the world. Its steps are an event, a scan, a restart that reloads the ledger file,
    a clear followed by \<^verbatim>\<open>get_or_create_collection\<close>, and the environment's
    moves (file edits, store failures, clock). The reachable worlds are defined
    inductively, and so are the worlds reachable when, in addition, the process may
    die before a save or a save may fail (\<open>faulty_step\<close>).

  \<^bold>\<open>What is proved.\<close>
  \<^item> \<open>process_file\<close>, \<open>remove_deleted_file\<close>, every event, every run of
    events, the scan and the whole program preserve \<open>sync_inv\<close>, under any file
    system, any model and any failures of the store. The invariant says the ledger
    is a dictionary, every stored chunk belongs to a tracked file, and a file's
    chunks are exactly its latest batch. The program with its watcher preserves it
    under every interleaving of its threads.
  \<^item> By rule induction over the reachable worlds of \<open>System\<close>: the invariant, the
    ledger file equal to the ledger in memory, and record ids that are distinct and
    fresh all hold in every reachable world. Even when the process may also die before
    a save or fail to save, every stored record stays well formed (a non-empty
    embedding, a decimal chunk id, and an id built from the path, the chunk id and a
    uuid), and the ids stay distinct and fresh.
  \<^item> Retries converge (liveness). With \<open>n\<close> store failures pending,
    \<open>n + 1\<close> modification events index an unchanged file: every unsuccessful
    attempt consumes a failure, and the fingerprint is recorded only with the chunks.
  \<^item> Lemmas of \<open>Watcher\<close> relate its interleavings to the event lists of
    \<open>Dispatcher\<close> and \<open>Startup\<close>: draining the queue gives the handler's run over
    the observed events in arrival order; when the handler keeps up, the program with
    its watcher equals the event-list main run; when the ledger file lies outside
    every watch, the turns that see the handler's own writes are the plain turns.
    They carry the watcher proofs and are not properties of the program by themselves.
  \<^item> The ledger's dictionary refines a map. The records of one ingestion carry
    consecutive fresh uuids, the positions of their chunks, and each its own reading
    of the clock.
  \<^item> \<open>process_file\<close> converges to the current chunks and fingerprint.
  \<^item> With a store that does not fail, both operations are idempotent.
  \<^item> \<open>process_file\<close> deletes before it adds.
  \<^item> An operation on one path leaves the other paths alone.
  \<^item> The scan records the current fingerprint of every file it reaches, for every
    order of the walk.
  \<^item> The ledger on disk equals the one in memory after every event and every
    reachable step.
  \<^item> A startup failure is fatal before any change.
  \<^item> The testable properties of the specification hold: idempotence, convergence,
    the chunk windows, the blank file, deletion of an untracked path, and the
    excluded directories at any depth. The metadata rules hold in general for
    clean paths below the first root, via \<^verbatim>\<open>normpath\<close> and \<^verbatim>\<open>relpath\<close>
    (\<open>PyLib\<close>, clean absolute paths).
  \<^item> The statistics report counts the multiset of project names.

  \<^bold>\<open>Divergences.\<close> The development also proves, as theorems, where the code and the
  specification part:
  \<^item> the chunking loop does not end for \<open>overlap \<ge> size\<close>;
  \<^item> an mtime-only change is reprocessed;
  \<^item> a change to content with no embeddable chunk, and a failed \<^verbatim>\<open>add\<close>
    after a successful \<^verbatim>\<open>delete\<close>, leave a ledger entry without chunks; after
    the failed \<^verbatim>\<open>add\<close>, restoring the file to its recorded fingerprint makes
    \<open>process_file\<close> a no-op, so the file is never indexed again;
  \<^item> a vanished file is ignored, not removed, by \<open>process_file\<close> and by the scan;
  \<^item> when the next start finds no usable ledger, every file it reaches gets a new
    batch after the chunks the store already held for it (\<open>Recovery\<close>, with the
    per-path lemmas of the scan in \<open>Scanner\<close>);
  \<^item> clearing the collection leaves a ledger that stops the next start from
    re-indexing any file whose recorded fingerprint is current;
  \<^item> the project name is taken from the first root only: a file whose top
    directory differs from the first root's is an unknown project, whatever the
    later roots;
  \<^item> a crash between \<open>process_file\<close> and its save duplicates a new file's chunks
    at the next event, for every consistent world, so the loss is not bounded to the
    in-flight event;
  \<^item> the ledger is rewritten in place, so a save that fails after the open corrupts
    it, and after a restart the next event duplicates the chunks of every indexed
    file it touches;
  \<^item> when the working directory lies below a watched root, every handler of a file
    event writes the ledger (as counted by the save), the write is an event, and its
    handler writes again, so the program never falls idle (for every number of
    dispatcher turns);
  \<^item> \<^verbatim>\<open>observer.stop()\<close> drops the queued events: whatever is queued at the
    interrupt is never handled, and the next start does not reach a path missing from
    the walk, so a deletion lost this way is never reconciled;
  \<^item> a root that \<^verbatim>\<open>os.path.isdir\<close> rejects when the watches are scheduled is never
    watched: in every interleaving, an event below no accepted root has no effect.

  \<^bold>\<open>Bounds and fuel.\<close> There is no fuel. The chunking loop is a partial function
  whose termination is proved for the parameters used (500 and 50) and refuted for
  \<open>size \<le> overlap\<close>. Every other loop is structural recursion over a finite list:
  the chunks, the files of the walk, the events, the actions of the watcher's threads.
  The watcher's sleep loop is the action list, which ends with the interrupt. The
  retry bound of the liveness theorem is the number of pending store failures plus
  one: every attempt that does not index the file consumes at least one failure.
  The feedback theorem holds for every number of dispatcher turns, stated with
  function power. Integers are Python's unbounded ints; modification times are
  integers, and only their equality is used; the \<^verbatim>\<open>datetime.now()\<close> readings are
  strings, one per call.

  \<^bold>\<open>Not modelled.\<close>
  \<^item> The printing.
  \<^item> The watchdog library's own code: its queue discipline (emitters append, the
    dispatcher takes the head, \<^verbatim>\<open>stop\<close> leaves the queue undispatched) is taken
    from its documented behaviour. A move whose source is outside every watch is
    treated like any event on its source path.
  \<^item> The network parameters parsed by \<^verbatim>\<open>urlparse\<close>.
  \<^item> MD5 itself: the digest is a parameter of the context.
  \<^item> The numeric content of the embedding: the model is a function that may fail.
  \<^item> The content of the ledger file as JSON text: a saved file is the dictionary it
    holds, and a file cut short by a failed write is \<open>Corrupt\<close>. The events and
    transitions of the running program use the successful save; its failures are
    studied in \<open>Recovery\<close>.
  \<^item> Changes made during the initial scan. The observer is created after the scan
    (line 337), so no event reports them, and a file changed after the scan visited
    it stays stale until it changes again. In the model the disk changes only between
    runs and between events (\<open>System\<close>); the watcher's actions deliver events but
    do not change the disk themselves.
  \<^item> The chromadb client: the store is the list of its records and the two calls.
\<close>

section \<open>Clearing the collection under a running ledger\<close>

text \<open>
  The deployment after an indexing run that saved its ledger, then
  \<^verbatim>\<open>clear.py\<close>, then a new process whose initialisation creates the collection
  again.
\<close>

definition example_cleared :: world where
  "example_cleared =
     (let w = save_state example_synced;
          (server, outcome) = clear_collection True (Some (coll w))
      in w\<lparr>coll := get_or_create_collection server, state := []\<rparr>)"

text \<open>
  An instance of \<^verbatim>\<open>clear.py\<close> run between two starts: the collection stays
  empty while the ledger says the file is indexed.
\<close>

theorem clear_then_restart_example:
  "snd (clear_collection True (Some (coll (save_state example_synced)))) = Deleted_and_verified \<and>
   items (coll (initial_ingestion_and_start_watching example_env example_ctx [example_path] []
                  example_cleared)) = [] \<and>
   dict_get (state (initial_ingestion_and_start_watching example_env example_ctx [example_path] []
                      example_cleared)) example_path \<noteq> None"
  by code_simp

end
